(* ===== verification/Prelude.thy ===== *)
theory Prelude
  imports Main "HOL-Library.Word"
begin

text \<open>
  Shared ground of the development: the C integer types of the x86-64 build, the
  library-wide state of RRDtool (the error buffer of \<open>rrd_error.c\<close>, the LC_NUMERIC locale
  the code switches around number parsing, and the readings of the clock), C strings as
  character lists without their terminating NUL, decimal printing, and the collections of
  facts the component theories add to.
\<close>

section \<open>Collections of facts\<close>

named_theorems nan_simps \<open>how NaN travels through double arithmetic\<close>
named_theorems ctx_simps \<open>what the error buffer operations do to the library state\<close>
named_theorems wf_intros \<open>operations that keep the shape of an open round robin database\<close>
named_theorems safe_intros \<open>operations that keep the machine invariants\<close>

section \<open>Integer types\<close>

text \<open>On the x86-64 build \<open>unsigned long\<close> and \<open>size_t\<close> have 64 bits; \<open>long\<close> and \<open>time_t\<close>
  are signed with 64 bits and are read with \<open>sint\<close>.\<close>

type_synonym ulong = "64 word"

text \<open>Two's complement reading of an integer at a signed width: what a C conversion to
  \<open>int\<close>, \<open>short\<close> or \<open>signed char\<close> does on this build.\<close>

definition wrap_int :: "int \<Rightarrow> int" where
  "wrap_int i = signed_take_bit 31 i"

definition wrap_short :: "int \<Rightarrow> int" where
  "wrap_short i = signed_take_bit 15 i"

definition wrap_char :: "int \<Rightarrow> int" where
  "wrap_char i = signed_take_bit 7 i"

lemma wrap_int_id: "- (2 ^ 31) \<le> i \<Longrightarrow> i < 2 ^ 31 \<Longrightarrow> wrap_int i = i"
  by (simp add: wrap_int_def signed_take_bit_int_eq_self)

lemma wrap_short_id: "- (2 ^ 15) \<le> i \<Longrightarrow> i < 2 ^ 15 \<Longrightarrow> wrap_short i = i"
  by (simp add: wrap_short_def signed_take_bit_int_eq_self)

lemma wrap_char_id: "- (2 ^ 7) \<le> i \<Longrightarrow> i < 2 ^ 7 \<Longrightarrow> wrap_char i = i"
  by (simp add: wrap_char_def signed_take_bit_int_eq_self)

section \<open>Characters and decimal numbers\<close>

definition ord :: "char \<Rightarrow> int" where
  "ord c = int (of_char c)"

definition isdigit :: "char \<Rightarrow> bool" where
  "isdigit c \<longleftrightarrow> 48 \<le> ord c \<and> ord c \<le> 57"

definition isupper :: "char \<Rightarrow> bool" where
  "isupper c \<longleftrightarrow> 65 \<le> ord c \<and> ord c \<le> 90"

definition islower :: "char \<Rightarrow> bool" where
  "islower c \<longleftrightarrow> 97 \<le> ord c \<and> ord c \<le> 122"

definition isalpha :: "char \<Rightarrow> bool" where
  "isalpha c \<longleftrightarrow> isupper c \<or> islower c"

definition isspace :: "char \<Rightarrow> bool" where
  "isspace c \<longleftrightarrow> ord c = 32 \<or> (9 \<le> ord c \<and> ord c \<le> 13)"

definition tolower :: "char \<Rightarrow> char" where
  "tolower c = (if isupper c then char_of (nat (ord c + 32)) else c)"

definition digit_val :: "char \<Rightarrow> int" where
  "digit_val c = ord c - 48"

definition digit_char :: "int \<Rightarrow> char" where
  "digit_char d = char_of (nat (d + 48))"

text \<open>The number a run of decimal digits stands for (most significant digit first).\<close>

definition digits_val :: "string \<Rightarrow> int" where
  "digits_val s = foldl (\<lambda>v c. 10 * v + digit_val c) 0 s"

text \<open>Printing with \<open>%lu\<close> and \<open>%d\<close>.\<close>

fun show_nat :: "nat \<Rightarrow> string" where
  "show_nat n = (if n < 10 then [digit_char (int n)]
                 else show_nat (n div 10) @ [digit_char (int (n mod 10))])"

declare show_nat.simps [simp del]

definition show_int :: "int \<Rightarrow> string" where
  "show_int i = (if i < 0 then CHR ''-'' # show_nat (nat (- i)) else show_nat (nat i))"

lemma ord_digit_char: "0 \<le> d \<Longrightarrow> d < 10 \<Longrightarrow> ord (digit_char d) = d + 48"
  by (simp add: ord_def digit_char_def of_char_of)

lemma digit_val_digit_char: "0 \<le> d \<Longrightarrow> d < 10 \<Longrightarrow> digit_val (digit_char d) = d"
  by (simp add: digit_val_def ord_digit_char)

lemma isdigit_digit_char: "0 \<le> d \<Longrightarrow> d < 10 \<Longrightarrow> isdigit (digit_char d)"
  by (simp add: isdigit_def ord_digit_char)

lemma digits_val_Nil [simp]: "digits_val [] = 0"
  by (simp add: digits_val_def)

lemma digits_val_append1 [simp]: "digits_val (s @ [c]) = 10 * digits_val s + digit_val c"
  by (simp add: digits_val_def)

lemma digits_val_show_nat: "digits_val (show_nat n) = int n"
proof (induction n rule: show_nat.induct)
  case (1 n)
  show ?case
  proof (cases "n < 10")
    case True
    then show ?thesis
      by (simp add: show_nat.simps [of n] digits_val_def digit_val_digit_char)
  next
    case False
    with "1.IH" show ?thesis
      by (simp add: show_nat.simps [of n] digit_val_digit_char zdiv_int zmod_int)
  qed
qed

lemma show_nat_digits: "\<forall>c \<in> set (show_nat n). isdigit c"
proof (induction n rule: show_nat.induct)
  case (1 n)
  then show ?case
    by (cases "n < 10") (auto simp: show_nat.simps [of n] isdigit_digit_char)
qed

lemma show_nat_nonempty: "show_nat n \<noteq> []"
  by (subst show_nat.simps) simp

section \<open>C strings\<close>

text \<open>\<open>strncpy (dst, src, n)\<close> followed by \<open>dst[n] = 0\<close>, as the code copies a name or a
  reading into a fixed buffer: the first \<open>n\<close> characters.\<close>

definition strncpy_nul :: "string \<Rightarrow> nat \<Rightarrow> string" where
  "strncpy_nul src n = take n src"

text \<open>The character at an index of a C string: the NUL stands at its length.\<close>

definition cchar :: "string \<Rightarrow> nat \<Rightarrow> char option" where
  "cchar s i = (if i < length s then Some (s ! i) else None)"

text \<open>\<open>strchr\<close>: the string before the first occurrence and the string after it.\<close>

fun split_at :: "char \<Rightarrow> string \<Rightarrow> (string \<times> string) option" where
  "split_at c [] = None"
| "split_at c (x # xs) =
     (if x = c then Some ([], xs)
      else map_option (\<lambda>(a, b). (x # a, b)) (split_at c xs))"

lemma split_at_Some: "split_at c s = Some (a, b) \<Longrightarrow> s = a @ c # b \<and> c \<notin> set a"
  by (induction s arbitrary: a b) (auto split: if_splits)

lemma split_at_None: "split_at c s = None \<longleftrightarrow> c \<notin> set s"
  by (induction s) auto

text \<open>Cutting a string at every occurrence of a separator, as the loops that overwrite the
  separators with NULs do.\<close>

fun split_all :: "char \<Rightarrow> string \<Rightarrow> string list" where
  "split_all c [] = [[]]"
| "split_all c (x # xs) =
     (if x = c then [] # split_all c xs
      else (case split_all c xs of [] \<Rightarrow> [[x]] | p # ps \<Rightarrow> (x # p) # ps))"

lemma split_all_nonempty [simp]: "split_all c s \<noteq> []"
  by (induction s) (auto split: list.splits)

lemma length_split_all: "length (split_all c s) = Suc (length (filter (\<lambda>x. x = c) s))"
proof (induction s)
  case (Cons x xs)
  then show ?case by (cases "split_all c xs") auto
qed simp

lemma split_all_free: "c \<notin> set s \<Longrightarrow> split_all c s = [s]"
  by (induction s) auto

section \<open>The library state\<close>

text \<open>
  \<open>rrd_error\<close> is the 4096 byte buffer of the current context, empty when no error is
  pending. \<open>lc_numeric\<close> is the process-wide LC_NUMERIC locale. \<open>clock_readings\<close> holds what
  the following calls of \<open>gettimeofday\<close> return, seconds and microseconds; once the list is
  used up the clock stands at its epoch.
\<close>

record ctx =
  rrd_error :: string
  lc_numeric :: string
  clock_readings :: "(int \<times> int) list"

definition rrd_clear_error :: "'a ctx_scheme \<Rightarrow> 'a ctx_scheme" where
  "rrd_clear_error c = c\<lparr>rrd_error := []\<rparr>"

text \<open>\<open>vsnprintf\<close> keeps at most 4095 characters of the formatted message.\<close>

definition rrd_set_error :: "string \<Rightarrow> 'a ctx_scheme \<Rightarrow> 'a ctx_scheme" where
  "rrd_set_error msg c = (rrd_clear_error c)\<lparr>rrd_error := take 4095 msg\<rparr>"

definition rrd_test_error :: "'a ctx_scheme \<Rightarrow> bool" where
  "rrd_test_error c \<longleftrightarrow> rrd_error c \<noteq> []"

definition rrd_get_error :: "'a ctx_scheme \<Rightarrow> string" where
  "rrd_get_error c = rrd_error c"

definition setlocale :: "string \<Rightarrow> 'a ctx_scheme \<Rightarrow> 'a ctx_scheme" where
  "setlocale l c = c\<lparr>lc_numeric := l\<rparr>"

fun gettimeofday :: "'a ctx_scheme \<Rightarrow> (int \<times> int) \<times> 'a ctx_scheme" where
  "gettimeofday c =
     (case clock_readings c of [] \<Rightarrow> ((0, 0), c)
      | t # ts \<Rightarrow> (t, c\<lparr>clock_readings := ts\<rparr>))"

lemma rrd_error_set_error [simp, ctx_simps]: "rrd_error (rrd_set_error m c) = take 4095 m"
  by (simp add: rrd_set_error_def)

lemma lc_numeric_set_error [simp, ctx_simps]: "lc_numeric (rrd_set_error m c) = lc_numeric c"
  by (simp add: rrd_set_error_def rrd_clear_error_def)

lemma more_set_error [simp, ctx_simps]: "ctx.more (rrd_set_error m c) = ctx.more c"
  by (simp add: rrd_set_error_def rrd_clear_error_def)

lemma clock_readings_set_error [simp, ctx_simps]:
  "clock_readings (rrd_set_error m c) = clock_readings c"
  by (simp add: rrd_set_error_def rrd_clear_error_def)

lemma rrd_test_error_set_error [simp, ctx_simps]:
  "rrd_test_error (rrd_set_error m c) \<longleftrightarrow> m \<noteq> []"
  by (simp add: rrd_test_error_def)

lemma rrd_error_setlocale [simp, ctx_simps]: "rrd_error (setlocale l c) = rrd_error c"
  by (simp add: setlocale_def)

lemma lc_numeric_setlocale [simp, ctx_simps]: "lc_numeric (setlocale l c) = l"
  by (simp add: setlocale_def)

lemma more_setlocale [simp, ctx_simps]: "ctx.more (setlocale l c) = ctx.more c"
  by (simp add: setlocale_def)

lemma clock_readings_setlocale [simp, ctx_simps]:
  "clock_readings (setlocale l c) = clock_readings c"
  by (simp add: setlocale_def)

text \<open>The state of a fresh thread in the "C" locale.\<close>

definition init_ctx :: ctx where
  "init_ctx = \<lparr>rrd_error = [], lc_numeric = ''C'', clock_readings = []\<rparr>"

section \<open>Loops that may fail\<close>

text \<open>A counted loop whose body may be undefined: the body for each index in turn.\<close>

fun loopO :: "('i \<Rightarrow> 's \<Rightarrow> 's option) \<Rightarrow> 'i list \<Rightarrow> 's \<Rightarrow> 's option" where
  "loopO body [] s = Some s"
| "loopO body (i # is) s = (case body i s of None \<Rightarrow> None | Some s' \<Rightarrow> loopO body is s')"

lemma loopO_append:
  "loopO body (is @ js) s = (case loopO body is s of None \<Rightarrow> None | Some s' \<Rightarrow> loopO body js s')"
  by (induction "is" arbitrary: s) (auto split: option.split)

text \<open>An invariant of the body is an invariant of the loop.\<close>

lemma loopO_invariant:
  assumes "loopO body is s = Some s'" "P s"
    and "\<And>i t t'. i \<in> set is \<Longrightarrow> P t \<Longrightarrow> body i t = Some t' \<Longrightarrow> P t'"
  shows "P s'"
  using assms
proof (induction "is" arbitrary: s)
  case (Cons a "is")
  from Cons.prems(1) obtain t where t: "body a s = Some t" "loopO body is t = Some s'"
    by (auto split: option.splits)
  have "P t" using Cons.prems(3) [of a s t] Cons.prems(2) t(1) by simp
  with t(2) show ?case using Cons.IH Cons.prems(3) by (meson list.set_intros(2))
qed simp

text \<open>A cell of an array, if it has one at the index.\<close>

definition aget :: "'a list \<Rightarrow> nat \<Rightarrow> 'a option" where
  "aget xs i = (if i < length xs then Some (xs ! i) else None)"

end
