(* ===== verification/Double.thy ===== *)
theory Double
  imports Prelude
begin

text \<open>
  The C type \<open>double\<close> of the build: IEEE 754 binary64, kept as its 64 bits, so that the
  \<open>unival\<close> unions of the file format (an \<open>unsigned long\<close> and a \<open>double\<close> in the same eight
  bytes) are plain 64-bit words. Arithmetic decodes to an integer significand and a power of
  two, computes exactly and rounds to nearest, ties to even; comparisons and the operations
  that only move bits never round. Every NaN an operation produces is the quiet NaN
  \<open>DNAN\<close>; copying keeps the bits. A \<open>float\<close> is held as the double of the same value.
\<close>

type_synonym dbl = "64 word"

section \<open>Fields\<close>

definition inf_mag :: int where
  "inf_mag = 2047 * 2 ^ 52"

definition sign_of :: "dbl \<Rightarrow> bool" where
  "sign_of x \<longleftrightarrow> 2 ^ 63 \<le> uint x"

definition mag :: "dbl \<Rightarrow> int" where
  "mag x = uint x mod 2 ^ 63"

definition mk_dbl :: "bool \<Rightarrow> int \<Rightarrow> dbl" where
  "mk_dbl s b = word_of_int (b mod 2 ^ 63 + (if s then 2 ^ 63 else 0))"

definition isnan :: "dbl \<Rightarrow> bool" where
  "isnan x \<longleftrightarrow> inf_mag < mag x"

definition isinf :: "dbl \<Rightarrow> bool" where
  "isinf x \<longleftrightarrow> mag x = inf_mag"

definition isfinite :: "dbl \<Rightarrow> bool" where
  "isfinite x \<longleftrightarrow> mag x < inf_mag"

definition DNAN :: dbl where
  "DNAN = 0x7FF8000000000000"

definition DINF :: dbl where
  "DINF = 0x7FF0000000000000"

definition D1 :: dbl where
  "D1 = 0x3FF0000000000000"

definition D2 :: dbl where
  "D2 = 0x4000000000000000"

definition fneg :: "dbl \<Rightarrow> dbl" where
  "fneg x = mk_dbl (\<not> sign_of x) (mag x)"

definition fabs :: "dbl \<Rightarrow> dbl" where
  "fabs x = mk_dbl False (mag x)"

text \<open>The value of a finite magnitude is \<open>m * 2 ^ e\<close>.\<close>

definition sig_exp :: "int \<Rightarrow> int \<times> int" where
  "sig_exp b = (if b < 2 ^ 52 then (b, - 1074)
                else (2 ^ 52 + b mod 2 ^ 52, b div 2 ^ 52 - 1075))"

section \<open>Rounding\<close>

fun bit_len :: "int \<Rightarrow> int" where
  "bit_len n = (if n \<le> 0 then 0 else 1 + bit_len (n div 2))"

declare bit_len.simps [simp del]

text \<open>Multiply by a power of two whose exponent may be negative: the two parts of the
  fraction.\<close>

definition scale_num :: "int \<Rightarrow> int" where
  "scale_num k = (if 0 \<le> k then 2 ^ nat k else 1)"

definition round_half_even :: "int \<Rightarrow> int \<Rightarrow> int" where
  "round_half_even n d =
     (let k = n div d; r = n mod d
      in if 2 * r > d \<or> (2 * r = d \<and> odd k) then k + 1 else k)"

text \<open>\<open>n / d * 2 ^ e\<close> (positive) as \<open>m * 2 ^ q\<close> with at most \<open>p\<close> bits and \<open>emin \<le> q\<close>.\<close>

definition round_to :: "int \<Rightarrow> int \<Rightarrow> int \<Rightarrow> int \<Rightarrow> int \<Rightarrow> int \<times> int" where
  "round_to p emin n d e =
     (let l = bit_len n - bit_len d;
          fl = (if d * scale_num l \<le> n * scale_num (- l) then l else l - 1);
          q = max emin (fl + e - (p - 1))
      in (round_half_even (n * scale_num (e - q)) (d * scale_num (q - e)), q))"

definition round_mag :: "int \<Rightarrow> int \<Rightarrow> int \<Rightarrow> int" where
  "round_mag n d e =
     (if n \<le> 0 then 0
      else (case round_to 53 (- 1074) n d e of
              (m, q) \<Rightarrow> min inf_mag ((q + 1074) * 2 ^ 52 + m)))"

text \<open>A floating literal \<open>n / d\<close>, and an integer converted to \<open>double\<close>.\<close>

definition dlit :: "int \<Rightarrow> int \<Rightarrow> dbl" where
  "dlit n d = mk_dbl (n < 0) (round_mag \<bar>n\<bar> d 0)"

definition dbl_of_int :: "int \<Rightarrow> dbl" where
  "dbl_of_int i = mk_dbl (i < 0) (round_mag \<bar>i\<bar> 1 0)"

definition dbl_of_ulong :: "ulong \<Rightarrow> dbl" where
  "dbl_of_ulong w = dbl_of_int (uint w)"

section \<open>Arithmetic\<close>

text \<open>\<open>i * 2 ^ e\<close> for a signed integer; an exact zero takes the sign \<open>z\<close>.\<close>

definition round_signed :: "bool \<Rightarrow> int \<Rightarrow> int \<Rightarrow> dbl" where
  "round_signed z i e = (if i = 0 then mk_dbl z 0 else mk_dbl (i < 0) (round_mag \<bar>i\<bar> 1 e))"

definition signed_sig :: "dbl \<Rightarrow> int" where
  "signed_sig x = (if sign_of x then - fst (sig_exp (mag x)) else fst (sig_exp (mag x)))"

definition exp_of :: "dbl \<Rightarrow> int" where
  "exp_of x = snd (sig_exp (mag x))"

definition fadd :: "dbl \<Rightarrow> dbl \<Rightarrow> dbl" where
  "fadd x y =
     (if isnan x \<or> isnan y then DNAN
      else if isinf x then (if isinf y \<and> sign_of x \<noteq> sign_of y then DNAN else x)
      else if isinf y then y
      else (let ex = exp_of x; ey = exp_of y; e = min ex ey
            in round_signed (sign_of x \<and> sign_of y)
                 (signed_sig x * scale_num (ex - e) + signed_sig y * scale_num (ey - e)) e))"

definition fsub :: "dbl \<Rightarrow> dbl \<Rightarrow> dbl" where
  "fsub x y = fadd x (if isnan y then y else fneg y)"

definition fmul :: "dbl \<Rightarrow> dbl \<Rightarrow> dbl" where
  "fmul x y =
     (if isnan x \<or> isnan y then DNAN
      else let s = (sign_of x \<noteq> sign_of y) in
        if isinf x \<or> isinf y
        then (if mag x = 0 \<or> mag y = 0 then DNAN else mk_dbl s inf_mag)
        else mk_dbl s (round_mag (fst (sig_exp (mag x)) * fst (sig_exp (mag y))) 1
                                 (exp_of x + exp_of y)))"

definition fdiv :: "dbl \<Rightarrow> dbl \<Rightarrow> dbl" where
  "fdiv x y =
     (if isnan x \<or> isnan y then DNAN
      else let s = (sign_of x \<noteq> sign_of y) in
        if isinf x then (if isinf y then DNAN else mk_dbl s inf_mag)
        else if isinf y then mk_dbl s 0
        else if mag y = 0 then (if mag x = 0 then DNAN else mk_dbl s inf_mag)
        else mk_dbl s (round_mag (fst (sig_exp (mag x))) (fst (sig_exp (mag y)))
                                 (exp_of x - exp_of y)))"

text \<open>The order of the finite values and the infinities is the order of the sign-magnitude
  integers; both zeros have key 0.\<close>

definition key :: "dbl \<Rightarrow> int" where
  "key x = (if sign_of x then - mag x else mag x)"

definition flt :: "dbl \<Rightarrow> dbl \<Rightarrow> bool" where
  "flt x y \<longleftrightarrow> \<not> isnan x \<and> \<not> isnan y \<and> key x < key y"

definition fle :: "dbl \<Rightarrow> dbl \<Rightarrow> bool" where
  "fle x y \<longleftrightarrow> \<not> isnan x \<and> \<not> isnan y \<and> key x \<le> key y"

definition feq :: "dbl \<Rightarrow> dbl \<Rightarrow> bool" where
  "feq x y \<longleftrightarrow> \<not> isnan x \<and> \<not> isnan y \<and> key x = key y"

abbreviation fgt :: "dbl \<Rightarrow> dbl \<Rightarrow> bool" where
  "fgt x y \<equiv> flt y x"

abbreviation fge :: "dbl \<Rightarrow> dbl \<Rightarrow> bool" where
  "fge x y \<equiv> fle y x"

section \<open>Integral values and conversions\<close>

text \<open>Truncation of a finite double toward zero, and its floor and ceiling.\<close>

definition trunc_int :: "dbl \<Rightarrow> int" where
  "trunc_int x =
     (let t = (fst (sig_exp (mag x)) * scale_num (exp_of x)) div scale_num (- exp_of x)
      in if sign_of x then - t else t)"

definition floor_int :: "dbl \<Rightarrow> int" where
  "floor_int x = (signed_sig x * scale_num (exp_of x)) div scale_num (- exp_of x)"

definition ffloor :: "dbl \<Rightarrow> dbl" where
  "ffloor x = (if isnan x then DNAN else if isinf x then x
               else round_signed (sign_of x) (floor_int x) 0)"

definition fceil :: "dbl \<Rightarrow> dbl" where
  "fceil x = (if isnan x then DNAN else fneg (ffloor (fneg x)))"

text \<open>\<open>fmod\<close>: the remainder has the sign of the dividend and is exact.\<close>

definition ffmod :: "dbl \<Rightarrow> dbl \<Rightarrow> dbl" where
  "ffmod x y =
     (if isnan x \<or> isnan y \<or> isinf x \<or> mag y = 0 then DNAN
      else if isinf y then x
      else (let ex = exp_of x; ey = exp_of y; e = min ex ey;
                a = fst (sig_exp (mag x)) * scale_num (ex - e);
                b = fst (sig_exp (mag y)) * scale_num (ey - e)
            in mk_dbl (sign_of x) (round_mag (a mod b) 1 e)))"

text \<open>Conversions to the signed integers truncate; a NaN or a value out of range gives the
  least integer of the width, as the SSE2 instruction of the build does. The conversion to
  \<open>unsigned long\<close> is the signed one below \<open>2 ^ 63\<close> and wraps a negative value.\<close>

definition dbl_to_sint :: "nat \<Rightarrow> dbl \<Rightarrow> int" where
  "dbl_to_sint w x =
     (if isfinite x \<and> - (2 ^ (w - 1)) \<le> trunc_int x \<and> trunc_int x < 2 ^ (w - 1)
      then trunc_int x else - (2 ^ (w - 1)))"

definition dbl_to_int :: "dbl \<Rightarrow> int" where
  "dbl_to_int = dbl_to_sint 32"

definition dbl_to_long :: "dbl \<Rightarrow> int" where
  "dbl_to_long = dbl_to_sint 64"

definition dbl_to_ulong :: "dbl \<Rightarrow> ulong" where
  "dbl_to_ulong x =
     (if isnan x then word_of_int (- (2 ^ 63))
      else if isfinite x \<and> - (2 ^ 63) \<le> trunc_int x \<and> trunc_int x < 2 ^ 64
      then word_of_int (trunc_int x)
      else if sign_of x then word_of_int (- (2 ^ 63)) else 0)"

section \<open>Single precision\<close>

definition dbl_to_f32 :: "dbl \<Rightarrow> dbl" where
  "dbl_to_f32 x =
     (if isnan x then DNAN else if isinf x \<or> mag x = 0 then x
      else (case round_to 24 (- 149) (fst (sig_exp (mag x))) 1 (exp_of x) of (m, q) \<Rightarrow>
              if 2 ^ 128 \<le> m * scale_num q div scale_num (- q) then mk_dbl (sign_of x) inf_mag
              else mk_dbl (sign_of x) (round_mag m 1 q)))"

definition f32_of_int :: "int \<Rightarrow> dbl" where
  "f32_of_int i =
     (if i = 0 then 0 else
      case round_to 24 (- 149) \<bar>i\<bar> 1 0 of (m, q) \<Rightarrow> mk_dbl (i < 0) (round_mag m 1 q))"

text \<open>A single precision operation is the double one rounded again: for the four basic
  operations the second rounding is innocuous.\<close>

definition f32_div :: "dbl \<Rightarrow> dbl \<Rightarrow> dbl" where
  "f32_div x y = dbl_to_f32 (fdiv x y)"

definition f32_mul :: "dbl \<Rightarrow> dbl \<Rightarrow> dbl" where
  "f32_mul x y = dbl_to_f32 (fmul x y)"

section \<open>The mathematical library\<close>

text \<open>The results of these functions are not fixed by the C standard: they are a parameter of
  the model, a record of what the libm of the system computes.\<close>

record libm =
  lm_sin :: "dbl \<Rightarrow> dbl"
  lm_cos :: "dbl \<Rightarrow> dbl"
  lm_log :: "dbl \<Rightarrow> dbl"
  lm_exp :: "dbl \<Rightarrow> dbl"
  lm_atan :: "dbl \<Rightarrow> dbl"
  lm_atan2 :: "dbl \<Rightarrow> dbl \<Rightarrow> dbl"
  lm_sqrt :: "dbl \<Rightarrow> dbl"

section \<open>Facts\<close>

lemma mag_nonneg [simp]: "0 \<le> mag x"
  by (simp add: mag_def)

lemma mag_less: "mag x < 2 ^ 63"
  by (simp add: mag_def)

lemma uint_less_64: "uint (x :: dbl) < 2 ^ 64"
  using uint_bounded [of x] by simp

lemma mk_dbl_uint:
  assumes "0 \<le> b" "b < 2 ^ 63"
  shows "uint (mk_dbl s b) = b + (if s then 2 ^ 63 else 0)"
proof -
  have "b mod 2 ^ 63 = b" using assms by simp
  moreover have "(b + (if s then 2 ^ 63 else 0)) mod 2 ^ 64 = b + (if s then 2 ^ 63 else 0)"
    using assms by (intro mod_pos_pos_trivial) auto
  ultimately show ?thesis
    unfolding mk_dbl_def uint_word_of_int by simp
qed

lemma mag_mk_dbl: "mag (mk_dbl s b) = b mod 2 ^ 63"
proof -
  have "mk_dbl s b = mk_dbl s (b mod 2 ^ 63)" by (simp add: mk_dbl_def)
  then show ?thesis by (simp add: mag_def mk_dbl_uint)
qed

lemma sign_mk_dbl [simp]: "sign_of (mk_dbl s b) = s"
proof -
  have "mk_dbl s b = mk_dbl s (b mod 2 ^ 63)" by (simp add: mk_dbl_def)
  moreover have "uint (mk_dbl s (b mod 2 ^ 63)) = b mod 2 ^ 63 + (if s then 2 ^ 63 else 0)"
    by (rule mk_dbl_uint) auto
  ultimately show ?thesis
    by (simp add: sign_of_def not_le)
qed

lemma mag_mk_dbl_small: "0 \<le> b \<Longrightarrow> b \<le> inf_mag \<Longrightarrow> mag (mk_dbl s b) = b"
  by (simp add: mag_mk_dbl inf_mag_def)

lemma uint_split: "uint (x :: dbl) = mag x + (if sign_of x then 2 ^ 63 else 0)"
proof -
  have lt: "uint x < 2 * 2 ^ 63" using uint_less_64 [of x] by simp
  have "uint x mod 2 ^ 63 = uint x - 2 ^ 63" if "2 ^ 63 \<le> uint x"
    using that lt by (subst mod_pos_geq) (simp_all only: mod_pos_pos_trivial)
  moreover have "uint x mod 2 ^ 63 = uint x" if "\<not> 2 ^ 63 \<le> uint x"
    using that by (intro mod_pos_pos_trivial) simp_all
  ultimately show ?thesis unfolding mag_def sign_of_def by auto
qed

lemma mk_dbl_sign_mag: "mk_dbl (sign_of x) (mag x) = x"
proof -
  have "uint (mk_dbl (sign_of x) (mag x)) = mag x + (if sign_of x then 2 ^ 63 else 0)"
    by (rule mk_dbl_uint) (simp_all only: mag_nonneg mag_less)
  then show ?thesis by (simp only: word_uint_eq_iff uint_split [of x])
qed

lemma mag_mod [simp]: "mag x mod 2 ^ 63 = mag x"
  by (simp add: mag_def)

lemma isnan_DNAN [simp, nan_simps]: "isnan DNAN"
  by (simp add: isnan_def DNAN_def mag_def inf_mag_def)

lemma not_isnan_DINF [simp, nan_simps]: "\<not> isnan DINF"
  by (simp add: isnan_def DINF_def mag_def inf_mag_def)

lemma mag_fneg [simp]: "mag (fneg x) = mag x"
  by (simp only: fneg_def mag_mk_dbl mag_mod)

lemma sign_fneg [simp]: "sign_of (fneg x) \<longleftrightarrow> \<not> sign_of x"
  by (simp add: fneg_def)

lemma mag_fabs [simp]: "mag (fabs x) = mag x"
  by (simp only: fabs_def mag_mk_dbl mag_mod)

lemma isnan_fneg [simp, nan_simps]: "isnan (fneg x) \<longleftrightarrow> isnan x"
  by (simp add: isnan_def)

lemma isnan_fabs [simp, nan_simps]: "isnan (fabs x) \<longleftrightarrow> isnan x"
  by (simp add: isnan_def)

lemma isnan_zero [simp, nan_simps]: "\<not> isnan 0"
  by (simp add: isnan_def mag_def inf_mag_def)

lemma fadd_nan [simp, nan_simps]:
  "isnan x \<Longrightarrow> fadd x y = DNAN" "isnan y \<Longrightarrow> fadd x y = DNAN"
  by (simp_all add: fadd_def)

lemma fsub_nan [simp, nan_simps]:
  "isnan x \<Longrightarrow> fsub x y = DNAN" "isnan y \<Longrightarrow> fsub x y = DNAN"
  by (simp_all add: fsub_def)

lemma fmul_nan [simp, nan_simps]:
  "isnan x \<Longrightarrow> fmul x y = DNAN" "isnan y \<Longrightarrow> fmul x y = DNAN"
  by (simp_all add: fmul_def)

lemma fdiv_nan [simp, nan_simps]:
  "isnan x \<Longrightarrow> fdiv x y = DNAN" "isnan y \<Longrightarrow> fdiv x y = DNAN"
  by (simp_all add: fdiv_def)

lemma flt_nan [simp, nan_simps]:
  "isnan x \<Longrightarrow> \<not> flt x y" "isnan y \<Longrightarrow> \<not> flt x y"
  by (simp_all add: flt_def)

lemma fle_nan [simp, nan_simps]:
  "isnan x \<Longrightarrow> \<not> fle x y" "isnan y \<Longrightarrow> \<not> fle x y"
  by (simp_all add: fle_def)

lemma feq_nan [simp, nan_simps]:
  "isnan x \<Longrightarrow> \<not> feq x y" "isnan y \<Longrightarrow> \<not> feq x y"
  by (simp_all add: feq_def)

lemma flt_not_fle: "\<not> isnan x \<Longrightarrow> \<not> isnan y \<Longrightarrow> flt x y \<longleftrightarrow> \<not> fle y x"
  by (auto simp: flt_def fle_def)

lemma fle_refl [simp]: "fle x x \<longleftrightarrow> \<not> isnan x"
  by (simp add: fle_def)

lemma fle_trans: "fle x y \<Longrightarrow> fle y z \<Longrightarrow> fle x z"
  by (auto simp: fle_def)

lemma fle_total: "\<not> isnan x \<Longrightarrow> \<not> isnan y \<Longrightarrow> fle x y \<or> fle y x"
  by (auto simp: fle_def)

lemma key_bounds: "\<not> isnan x \<Longrightarrow> - inf_mag \<le> key x \<and> key x \<le> inf_mag"
  using mag_nonneg [of x] unfolding isnan_def key_def inf_mag_def
  by (cases "sign_of x"; simp only: if_True if_False; linarith)

lemma key_DINF: "key DINF = inf_mag"
  by (simp add: key_def DINF_def mag_def sign_of_def inf_mag_def)

lemma fle_DINF [simp]: "fle x DINF \<longleftrightarrow> \<not> isnan x"
  by (auto simp: fle_def key_DINF key_bounds)

lemma key_fneg: "key (fneg x) = - key x"
  by (simp add: key_def)

lemma fle_mDINF [simp]: "fle (fneg DINF) x \<longleftrightarrow> \<not> isnan x"
  by (auto simp: fle_def key_fneg key_DINF key_bounds)

end
