(* ===== verification/Rrd_Format.thy ===== *)
theory Rrd_Format
  imports Double
begin

text \<open>
  The file format of \<open>rrd_format.h\<close> as records, with the field names of the C structs, and
  the conversions of \<open>rrd_format.c\<close>. A \<open>unival\<close> union is its 64 bits: the counter reading
  \<open>u_cnt\<close> is the word itself and the value reading \<open>u_val\<close> is the same word taken as a
  \<open>dbl\<close>. The header arrays are lists; \<open>wf_rrd\<close> says that they have the lengths the static
  header announces, which is what \<open>rrd_open\<close> establishes by mapping them at these sizes.
\<close>

type_synonym unival = "64 word"

section \<open>Structs\<close>

record stat_head_t =
  cookie :: string
  version :: string
  float_cookie :: dbl
  ds_cnt :: ulong
  rra_cnt :: ulong
  pdp_step :: ulong

datatype dst_en = DST_COUNTER | DST_ABSOLUTE | DST_GAUGE | DST_DERIVE | DST_CDEF

text \<open>Indices of \<open>ds_def_t.par\<close>.\<close>

abbreviation (input) DS_mrhb_cnt :: nat where "DS_mrhb_cnt \<equiv> 0"
abbreviation (input) DS_min_val :: nat where "DS_min_val \<equiv> 1"
abbreviation (input) DS_max_val :: nat where "DS_max_val \<equiv> 2"
abbreviation (input) DS_cdef :: nat where "DS_cdef \<equiv> 0"

definition DS_NAM_SIZE :: nat where "DS_NAM_SIZE = 20"

record ds_def_t =
  ds_nam :: string
  dst :: string
  ds_par :: "unival list"

datatype cf_en = CF_AVERAGE | CF_MINIMUM | CF_MAXIMUM | CF_LAST | CF_HWPREDICT | CF_SEASONAL
  | CF_DEVPREDICT | CF_DEVSEASONAL | CF_FAILURES | CF_MHWPREDICT

text \<open>Indices of \<open>rra_def_t.par\<close>.\<close>

abbreviation (input) RRA_cdp_xff_val :: nat where "RRA_cdp_xff_val \<equiv> 0"
abbreviation (input) RRA_hw_alpha :: nat where "RRA_hw_alpha \<equiv> 1"
abbreviation (input) RRA_hw_beta :: nat where "RRA_hw_beta \<equiv> 2"
abbreviation (input) RRA_dependent_rra_idx :: nat where "RRA_dependent_rra_idx \<equiv> 3"
abbreviation (input) RRA_seasonal_gamma :: nat where "RRA_seasonal_gamma \<equiv> 1"
abbreviation (input) RRA_seasonal_smoothing_window :: nat where "RRA_seasonal_smoothing_window \<equiv> 2"
abbreviation (input) RRA_seasonal_smooth_idx :: nat where "RRA_seasonal_smooth_idx \<equiv> 4"
abbreviation (input) RRA_delta_pos :: nat where "RRA_delta_pos \<equiv> 1"
abbreviation (input) RRA_delta_neg :: nat where "RRA_delta_neg \<equiv> 2"
abbreviation (input) RRA_window_len :: nat where "RRA_window_len \<equiv> 4"
abbreviation (input) RRA_failure_threshold :: nat where "RRA_failure_threshold \<equiv> 5"

record rra_def_t =
  cf_nam :: string
  row_cnt :: ulong
  pdp_cnt :: ulong
  rra_par :: "unival list"

record live_head_t =
  last_up :: int
  last_up_usec :: int

abbreviation (input) PDP_unkn_sec_cnt :: nat where "PDP_unkn_sec_cnt \<equiv> 0"
abbreviation (input) PDP_val :: nat where "PDP_val \<equiv> 1"

definition LAST_DS_LEN :: nat where "LAST_DS_LEN = 30"

record pdp_prep_t =
  last_ds :: string
  pdp_scratch :: "unival list"

text \<open>Indices of the CDP scratch area; the Holt-Winters and the seasonal readings share
  slots, as the enumeration declares.\<close>

definition MAX_CDP_PAR_EN :: nat where "MAX_CDP_PAR_EN = 10"

abbreviation (input) CDP_val :: nat where "CDP_val \<equiv> 0"
abbreviation (input) CDP_unkn_pdp_cnt :: nat where "CDP_unkn_pdp_cnt \<equiv> 1"
abbreviation (input) CDP_hw_intercept :: nat where "CDP_hw_intercept \<equiv> 2"
abbreviation (input) CDP_hw_last_intercept :: nat where "CDP_hw_last_intercept \<equiv> 3"
abbreviation (input) CDP_hw_slope :: nat where "CDP_hw_slope \<equiv> 4"
abbreviation (input) CDP_hw_last_slope :: nat where "CDP_hw_last_slope \<equiv> 5"
abbreviation (input) CDP_null_count :: nat where "CDP_null_count \<equiv> 6"
abbreviation (input) CDP_last_null_count :: nat where "CDP_last_null_count \<equiv> 7"
abbreviation (input) CDP_primary_val :: nat where "CDP_primary_val \<equiv> 8"
abbreviation (input) CDP_secondary_val :: nat where "CDP_secondary_val \<equiv> 9"
abbreviation (input) CDP_hw_seasonal :: nat where "CDP_hw_seasonal \<equiv> CDP_hw_intercept"
abbreviation (input) CDP_hw_last_seasonal :: nat where "CDP_hw_last_seasonal \<equiv> CDP_hw_last_intercept"
abbreviation (input) CDP_seasonal_deviation :: nat where "CDP_seasonal_deviation \<equiv> CDP_hw_intercept"
abbreviation (input) CDP_last_seasonal_deviation :: nat where
  "CDP_last_seasonal_deviation \<equiv> CDP_hw_last_intercept"
abbreviation (input) CDP_init_seasonal :: nat where "CDP_init_seasonal \<equiv> CDP_null_count"

type_synonym cdp_prep_t = "unival list"

record rrd_t =
  stat_head :: stat_head_t
  ds_def :: "ds_def_t list"
  rra_def :: "rra_def_t list"
  live_head :: live_head_t
  legacy_last_up :: int
  pdp_prep :: "pdp_prep_t list"
  cdp_prep :: "cdp_prep_t list"
  rra_ptr :: "ulong list"

abbreviation n_ds :: "rrd_t \<Rightarrow> nat" where
  "n_ds r \<equiv> unat (ds_cnt (stat_head r))"

abbreviation n_rra :: "rrd_t \<Rightarrow> nat" where
  "n_rra r \<equiv> unat (rra_cnt (stat_head r))"

section \<open>Conversions of rrd_format.c\<close>

definition dst_table :: "(string \<times> dst_en) list" where
  "dst_table = [(''COUNTER'', DST_COUNTER), (''ABSOLUTE'', DST_ABSOLUTE), (''GAUGE'', DST_GAUGE),
     (''DERIVE'', DST_DERIVE), (''COMPUTE'', DST_CDEF)]"

text \<open>The result \<open>(enum dst_en)(-1)\<close> is \<open>None\<close>.\<close>

definition dst_conv :: "string \<Rightarrow> 'a ctx_scheme \<Rightarrow> dst_en option \<times> 'a ctx_scheme" where
  "dst_conv s c =
     (case map_of dst_table s of
        Some d \<Rightarrow> (Some d, c)
      | None \<Rightarrow> (None, rrd_set_error (''unknown data acquisition function '' @ [CHR 0x27] @ s
                        @ [CHR 0x27]) c))"

definition cf_table :: "(string \<times> cf_en) list" where
  "cf_table = [(''AVERAGE'', CF_AVERAGE), (''MIN'', CF_MINIMUM), (''MAX'', CF_MAXIMUM),
     (''LAST'', CF_LAST), (''HWPREDICT'', CF_HWPREDICT), (''MHWPREDICT'', CF_MHWPREDICT),
     (''DEVPREDICT'', CF_DEVPREDICT), (''SEASONAL'', CF_SEASONAL),
     (''DEVSEASONAL'', CF_DEVSEASONAL), (''FAILURES'', CF_FAILURES)]"

definition cf_conv :: "string \<Rightarrow> 'a ctx_scheme \<Rightarrow> cf_en option \<times> 'a ctx_scheme" where
  "cf_conv s c =
     (case map_of cf_table s of
        Some d \<Rightarrow> (Some d, c)
      | None \<Rightarrow> (None, rrd_set_error (''unknown consolidation function '' @ [CHR 0x27] @ s
                        @ [CHR 0x27]) c))"

text \<open>The first of the announced data sources with a name.\<close>

fun index_of_name :: "ds_def_t list \<Rightarrow> string \<Rightarrow> nat \<Rightarrow> nat option" where
  "index_of_name [] nm i = None"
| "index_of_name (d # ds) nm i = (if nm = ds_nam d then Some i else index_of_name ds nm (Suc i))"

definition ds_match :: "rrd_t \<Rightarrow> string \<Rightarrow> 'a ctx_scheme \<Rightarrow> int \<times> 'a ctx_scheme" where
  "ds_match r nm c =
     (case index_of_name (take (n_ds r) (ds_def r)) nm 0 of
        Some i \<Rightarrow> (int i, c)
      | None \<Rightarrow> (- 1, rrd_set_error (''unknown data source name '' @ [CHR 0x27] @ nm
                        @ [CHR 0x27]) c))"

text \<open>Sizes of the structs on the build, and the header size \<open>rrd_create\<close> reserves.\<close>

definition sizeof_stat_head :: nat where "sizeof_stat_head = 128"
definition sizeof_ds_def :: nat where "sizeof_ds_def = 120"
definition sizeof_rra_def :: nat where "sizeof_rra_def = 120"
definition sizeof_time :: nat where "sizeof_time = 8"
definition sizeof_live_head :: nat where "sizeof_live_head = 16"
definition sizeof_pdp_prep :: nat where "sizeof_pdp_prep = 112"
definition sizeof_cdp_prep :: nat where "sizeof_cdp_prep = 80"
definition sizeof_rra_ptr :: nat where "sizeof_rra_ptr = 8"
definition sizeof_value :: nat where "sizeof_value = 8"

lemmas sizeof_defs = sizeof_stat_head_def sizeof_ds_def_def sizeof_rra_def_def sizeof_time_def
  sizeof_live_head_def sizeof_pdp_prep_def sizeof_cdp_prep_def sizeof_rra_ptr_def
  sizeof_value_def

definition rrd_get_header_size :: "rrd_t \<Rightarrow> nat" where
  "rrd_get_header_size r =
     sizeof_stat_head
     + sizeof_ds_def * n_ds r
     + sizeof_rra_def * n_rra r
     + sizeof_time
     + sizeof_live_head
     + sizeof_pdp_prep * n_ds r
     + sizeof_cdp_prep * n_ds r * n_rra r
     + sizeof_rra_ptr * n_rra r"

section \<open>The shape of an open database\<close>

definition wf_rrd :: "rrd_t \<Rightarrow> bool" where
  "wf_rrd r \<longleftrightarrow>
     length (ds_def r) = n_ds r \<and> (\<forall>d \<in> set (ds_def r). length (ds_par d) = 10) \<and>
     length (rra_def r) = n_rra r \<and> (\<forall>d \<in> set (rra_def r). length (rra_par d) = 10) \<and>
     length (pdp_prep r) = n_ds r \<and> (\<forall>p \<in> set (pdp_prep r). length (pdp_scratch p) = 10) \<and>
     length (cdp_prep r) = n_rra r * n_ds r \<and> (\<forall>p \<in> set (cdp_prep r). length p = 10) \<and>
     length (rra_ptr r) = n_rra r"

text \<open>The parts of the database no update may change.\<close>

definition same_defs :: "rrd_t \<Rightarrow> rrd_t \<Rightarrow> bool" where
  "same_defs r r' \<longleftrightarrow> stat_head r' = stat_head r \<and> ds_def r' = ds_def r \<and> rra_def r' = rra_def r"

lemma same_defs_refl [simp, intro]: "same_defs r r"
  by (simp add: same_defs_def)

lemma same_defs_trans [trans]: "same_defs r s \<Longrightarrow> same_defs s t \<Longrightarrow> same_defs r t"
  by (simp add: same_defs_def)

lemma wf_cdp_prep_update [wf_intros]:
  "wf_rrd r \<Longrightarrow> length cs = length (cdp_prep r) \<Longrightarrow> \<forall>p \<in> set cs. length p = 10 \<Longrightarrow>
     wf_rrd (r\<lparr>cdp_prep := cs\<rparr>)"
  by (simp add: wf_rrd_def)

lemma wf_pdp_prep_update [wf_intros]:
  "wf_rrd r \<Longrightarrow> length ps = length (pdp_prep r) \<Longrightarrow> \<forall>p \<in> set ps. length (pdp_scratch p) = 10 \<Longrightarrow>
     wf_rrd (r\<lparr>pdp_prep := ps\<rparr>)"
  by (simp add: wf_rrd_def)

lemma wf_rra_ptr_update [wf_intros]:
  "wf_rrd r \<Longrightarrow> length ps = length (rra_ptr r) \<Longrightarrow> wf_rrd (r\<lparr>rra_ptr := ps\<rparr>)"
  by (simp add: wf_rrd_def)

lemma wf_live_head_update [wf_intros]: "wf_rrd r \<Longrightarrow> wf_rrd (r\<lparr>live_head := h\<rparr>)"
  by (simp add: wf_rrd_def)

lemma wf_legacy_update [wf_intros]: "wf_rrd r \<Longrightarrow> wf_rrd (r\<lparr>legacy_last_up := t\<rparr>)"
  by (simp add: wf_rrd_def)

section \<open>Facts about the conversions\<close>

lemma index_of_name_Some:
  "index_of_name ds nm i = Some k \<Longrightarrow>
     i \<le> k \<and> k < i + length ds \<and> ds_nam (ds ! (k - i)) = nm
     \<and> (\<forall>j < k - i. ds_nam (ds ! j) \<noteq> nm)"
proof (induction ds arbitrary: i)
  case (Cons d ds)
  show ?case
  proof (cases "nm = ds_nam d")
    case True
    with Cons.prems show ?thesis by auto
  next
    case False
    with Cons.prems have "index_of_name ds nm (Suc i) = Some k" by simp
    from Cons.IH [OF this] have k: "Suc i \<le> k" "k < Suc i + length ds"
      "ds_nam (ds ! (k - Suc i)) = nm" "\<forall>j < k - Suc i. ds_nam (ds ! j) \<noteq> nm" by auto
    then have e: "k - i = Suc (k - Suc i)" by simp
    have "ds_nam ((d # ds) ! j) \<noteq> nm" if "j < k - i" for j
      using that k(4) False e by (cases j) auto
    with k e show ?thesis by auto
  qed
qed simp

lemma index_of_name_None: "index_of_name ds nm i = None \<longleftrightarrow> nm \<notin> ds_nam ` set ds"
  by (induction ds arbitrary: i) auto

lemma ds_match_range: "ds_match r nm c = (k, c') \<Longrightarrow> k \<noteq> - 1 \<Longrightarrow> 0 \<le> k \<and> nat k < n_ds r"
  by (auto simp: ds_match_def dest!: index_of_name_Some split: option.splits)

lemma dst_conv_fst: "fst (dst_conv s c) = map_of dst_table s"
  by (simp add: dst_conv_def split: option.splits)

lemma cf_conv_fst: "fst (cf_conv s c) = map_of cf_table s"
  by (simp add: cf_conv_def split: option.splits)

lemma cf_conv_known: "map_of cf_table s = Some cf \<Longrightarrow> cf_conv s c = (Some cf, c)"
  by (simp add: cf_conv_def)

lemma dst_conv_known: "map_of dst_table s = Some d \<Longrightarrow> dst_conv s c = (Some d, c)"
  by (simp add: dst_conv_def)

end
