(* ===== verification/CNumber.thy ===== *)
theory CNumber
  imports Double
begin

text \<open>
  The number parsers of the C library the program calls, in the "C" locale: \<open>strtod\<close> with its
  decimal, hexadecimal, infinity and NaN forms and its ERANGE condition, \<open>atof\<close>, and the
  decimal \<open>strtol\<close> family behind \<open>atoi\<close> and \<open>atol\<close>. Each returns the value and the rest of
  the string.
\<close>

section \<open>Scanning\<close>

definition skip_space :: "string \<Rightarrow> string" where
  "skip_space s = dropWhile isspace s"

definition is_xdigit :: "char \<Rightarrow> bool" where
  "is_xdigit c \<longleftrightarrow> isdigit c \<or> (97 \<le> ord (tolower c) \<and> ord (tolower c) \<le> 102)"

definition xdigit_val :: "char \<Rightarrow> int" where
  "xdigit_val c = (if isdigit c then digit_val c else ord (tolower c) - 87)"

text \<open>An optional sign.\<close>

fun take_sign :: "string \<Rightarrow> bool \<times> string" where
  "take_sign (c # s) =
     (if c = CHR ''-'' then (True, s) else if c = CHR ''+'' then (False, s) else (False, c # s))"
| "take_sign [] = (False, [])"

text \<open>Does the string start with a word, ignoring case?\<close>

fun case_prefix :: "string \<Rightarrow> string \<Rightarrow> bool" where
  "case_prefix [] s = True"
| "case_prefix (p # ps) [] = False"
| "case_prefix (p # ps) (c # s) = (tolower c = p \<and> case_prefix ps s)"

text \<open>Digits, an optional point, more digits: all the digits, the number of those after the
  point, and the rest.\<close>

definition take_digits :: "(char \<Rightarrow> bool) \<Rightarrow> string \<Rightarrow> string \<times> nat \<times> string" where
  "take_digits p s =
     (let a = takeWhile p s; r = dropWhile p s in
      case r of
        c # r' \<Rightarrow> if c = CHR ''.'' then
                     (let b = takeWhile p r' in
                      if a = [] \<and> b = [] then ([], 0, s)
                      else (a @ b, length b, dropWhile p r'))
                   else (a, 0, r)
      | [] \<Rightarrow> (a, 0, r))"

text \<open>An exponent part: the marker, an optional sign and at least one digit; otherwise
  nothing is consumed.\<close>

definition take_exponent :: "char \<Rightarrow> string \<Rightarrow> int \<times> string" where
  "take_exponent mark s =
     (case s of
        c # r \<Rightarrow>
          if tolower c = mark then
            (case take_sign r of (neg, r') \<Rightarrow>
               let ds = takeWhile isdigit r' in
               if ds = [] then (0, s)
               else ((if neg then - digits_val ds else digits_val ds), dropWhile isdigit r'))
          else (0, s)
      | [] \<Rightarrow> (0, s))"

section \<open>strtod\<close>

definition xdigits_val :: "string \<Rightarrow> int" where
  "xdigits_val s = foldl (\<lambda>v c. 16 * v + xdigit_val c) 0 s"

text \<open>The magnitude of \<open>n / d * 2 ^ e\<close> and whether \<open>errno\<close> becomes ERANGE: on overflow, and
  on an inexact subnormal or zero result.\<close>

definition mag_range :: "int \<Rightarrow> int \<Rightarrow> int \<Rightarrow> int \<times> bool" where
  "mag_range n d e =
     (let b = round_mag n d e in
      case sig_exp b of (m, q) \<Rightarrow>
        (b, b = inf_mag \<or>
            (b < 2 ^ 52 \<and> n * scale_num (e - q) \<noteq> m * d * scale_num (q - e))))"

text \<open>\<open>strtod\<close>: value, rest (the whole string when nothing converts) and ERANGE.\<close>

definition strtod :: "string \<Rightarrow> dbl \<times> string \<times> bool" where
  "strtod s0 =
     (case take_sign (skip_space s0) of (neg, s) \<Rightarrow>
      if case_prefix ''infinity'' s then (mk_dbl neg inf_mag, drop 8 s, False)
      else if case_prefix ''inf'' s then (mk_dbl neg inf_mag, drop 3 s, False)
      else if case_prefix ''nan'' s then
        (let r = drop 3 s in
         case r of
           CHR ''('' # r' \<Rightarrow>
             (let r'' = dropWhile (\<lambda>c. isdigit c \<or> isalpha c \<or> c = CHR ''_'') r' in
              case r'' of CHR '')'' # r3 \<Rightarrow> (DNAN, r3, False) | _ \<Rightarrow> (DNAN, r, False))
         | _ \<Rightarrow> (DNAN, r, False))
      else if case_prefix ''0x'' s \<and> fst (take_digits is_xdigit (drop 2 s)) \<noteq> [] then
        (case take_digits is_xdigit (drop 2 s) of (ds, k, r) \<Rightarrow>
         case take_exponent CHR ''p'' r of (x, r') \<Rightarrow>
         case mag_range (xdigits_val ds) 1 (x - 4 * int k) of (b, erange) \<Rightarrow>
           (mk_dbl neg b, r', xdigits_val ds \<noteq> 0 \<and> erange))
      else
        (case take_digits isdigit s of (ds, k, r) \<Rightarrow>
         if ds = [] then (0, s0, False)
         else case take_exponent CHR ''e'' r of (x, r') \<Rightarrow>
           let x10 = x - int k; n = digits_val ds in
           case (if 0 \<le> x10 then mag_range (n * 10 ^ nat x10) 1 0
                 else mag_range n (10 ^ nat (- x10)) 0) of (b, erange) \<Rightarrow>
             (mk_dbl neg b, r', n \<noteq> 0 \<and> erange)))"

definition atof :: "string \<Rightarrow> dbl" where
  "atof s = fst (strtod s)"

section \<open>strtol, atol, atoi\<close>

text \<open>\<open>strtol\<close> in base 10 saturates at the limits of \<open>long\<close>; \<open>atoi\<close> narrows its result.\<close>

definition atol :: "string \<Rightarrow> int" where
  "atol s0 =
     (case take_sign (skip_space s0) of (neg, s) \<Rightarrow>
      let v = digits_val (takeWhile isdigit s) in
      if neg then max (- (2 ^ 63)) (- v) else min (2 ^ 63 - 1) v)"

definition atoi :: "string \<Rightarrow> int" where
  "atoi s = wrap_int (atol s)"

section \<open>Facts\<close>

lemma take_sign_digit: "isdigit c \<Longrightarrow> take_sign (c # s) = (False, c # s)"
  by (auto simp: isdigit_def ord_def)

lemma not_isspace_digit: "isdigit c \<Longrightarrow> \<not> isspace c"
  by (auto simp: isdigit_def isspace_def)

lemma tolower_digit: "isdigit c \<Longrightarrow> tolower c = c"
  by (auto simp: isdigit_def tolower_def isupper_def)

lemma case_prefix_digit: "isdigit c \<Longrightarrow> \<not> isdigit p \<Longrightarrow> \<not> case_prefix (p # ps) (c # s)"
  by (auto simp: tolower_digit)

lemma takeWhile_digits: "\<forall>c \<in> set s. isdigit c \<Longrightarrow> takeWhile isdigit s = s"
  by (simp add: takeWhile_eq_all_conv)

lemma dropWhile_digits: "\<forall>c \<in> set s. isdigit c \<Longrightarrow> dropWhile isdigit s = []"
  by (simp add: dropWhile_eq_Nil_conv)

text \<open>A run of decimal digits, possibly after blanks, parses to the double nearest to the
  number it stands for, and is consumed whole.\<close>

lemma strtod_digits:
  assumes ds: "\<forall>c \<in> set ds. isdigit c" and ne: "ds \<noteq> []"
    and sp: "\<forall>c \<in> set sp. isspace c"
  shows "strtod (sp @ ds) = (mk_dbl False (round_mag (digits_val ds) 1 0), [],
           digits_val ds \<noteq> 0 \<and> snd (mag_range (digits_val ds) 1 0))"
proof -
  obtain c cs where c: "ds = c # cs" using ne by (cases ds) auto
  with ds have dc: "isdigit c" by simp
  have skip: "skip_space (sp @ ds) = ds"
    using sp by (simp add: skip_space_def c dropWhile_append2 not_isspace_digit [OF dc])
  have sign: "take_sign ds = (False, ds)"
    by (simp only: c take_sign_digit [OF dc])
  have np: "\<not> case_prefix ''infinity'' ds" "\<not> case_prefix ''inf'' ds"
      "\<not> case_prefix ''nan'' ds"
    unfolding c by (rule case_prefix_digit [OF dc], simp add: isdigit_def ord_def)+
  have nx: "\<not> case_prefix ''0x'' ds"
  proof (cases cs)
    case Nil
    then show ?thesis by (simp add: c)
  next
    case (Cons d cs')
    with ds c have "isdigit d" by simp
    then have "tolower d \<noteq> CHR ''x''"
      by (auto simp: tolower_digit isdigit_def ord_def)
    with Cons show ?thesis by (simp add: c)
  qed
  have td: "take_digits isdigit ds = (ds, 0, [])"
    using ds by (simp add: take_digits_def takeWhile_digits dropWhile_digits)
  have ex: "take_exponent CHR ''e'' [] = (0, [])"
    by (simp add: take_exponent_def)
  have mr: "mag_range n d e = (round_mag n d e, snd (mag_range n d e))" for n d e
    by (simp add: mag_range_def Let_def split: prod.splits)
  have mr1: "mag_range (digits_val ds) 1 0
      = (round_mag (digits_val ds) 1 0, snd (mag_range (digits_val ds) 1 0))"
    by (rule mr)
  show ?thesis
    unfolding strtod_def skip sign prod.case
    by (simp add: np nx td ex ne Let_def) (subst (1) mr1, simp)
qed

lemma atof_digits:
  assumes "\<forall>c \<in> set ds. isdigit c" "ds \<noteq> []" "\<forall>c \<in> set sp. isspace c"
  shows "atof (sp @ ds) = mk_dbl False (round_mag (digits_val ds) 1 0)"
  by (simp add: atof_def strtod_digits [OF assms])

end
