(* ===== verification/Rrd_File.thy ===== *)
theory Rrd_File
  imports Rrd_Format CNumber
begin

text \<open>
  An open database as \<open>rrd_open.c\<close> provides it when files are mapped into memory. The header
  structures of \<open>rrd_t\<close> are the header of the file, so a change of them is a change of the file;
  behind the header the file holds the values of the archives, modelled as a list of doubles.
  Positions are byte offsets in the file. A transfer that would touch the header or that is
  not aligned to the values is outside the model and is \<open>None\<close>.
\<close>

record rrd_file_t =
  header_len :: nat
  file_len :: nat
  pos :: nat
  vals :: "dbl list"

record world = ctx +
  db :: rrd_t
  dbfile :: rrd_file_t

definition SEEK_SET :: int where "SEEK_SET = 0"
definition SEEK_CUR :: int where "SEEK_CUR = 1"
definition SEEK_END :: int where "SEEK_END = 2"

definition rrd_seek :: "rrd_file_t \<Rightarrow> nat \<Rightarrow> int \<Rightarrow> int \<times> rrd_file_t" where
  "rrd_seek f off whence =
     (0, if whence = SEEK_SET then f\<lparr>pos := off\<rparr>
         else if whence = SEEK_CUR then f\<lparr>pos := pos f + off\<rparr>
         else if whence = SEEK_END then f\<lparr>pos := file_len f + off\<rparr>
         else f)"

definition rrd_tell :: "rrd_file_t \<Rightarrow> nat" where
  "rrd_tell f = pos f"

text \<open>The index of the value at a position.\<close>

definition value_index :: "rrd_file_t \<Rightarrow> nat \<Rightarrow> nat option" where
  "value_index f p =
     (if header_len f \<le> p \<and> (p - header_len f) mod sizeof_value = 0
      then Some ((p - header_len f) div sizeof_value) else None)"

text \<open>Read \<open>n\<close> values: the bytes transferred and the values that came whole.\<close>

definition rrd_read :: "rrd_file_t \<Rightarrow> nat \<Rightarrow> (int \<times> dbl list \<times> rrd_file_t) option" where
  "rrd_read f n =
     (let cnt0 = n * sizeof_value in
      if pos f > file_len f \<or> cnt0 = 0 then Some (0, [], f)
      else
        (let cnt = min cnt0 (file_len f - pos f) in
         if cnt = 0 then Some (0, [], f)
         else (case value_index f (pos f) of
                 None \<Rightarrow> None
               | Some i \<Rightarrow>
                   Some (int cnt, take (cnt div sizeof_value) (drop i (vals f)),
                         f\<lparr>pos := pos f + cnt\<rparr>))))"

definition overwrite :: "nat \<Rightarrow> dbl list \<Rightarrow> dbl list \<Rightarrow> dbl list" where
  "overwrite i vs xs = take i xs @ vs @ drop (i + length vs) xs"

definition rrd_write :: "world \<Rightarrow> dbl list \<Rightarrow> (int \<times> world) option" where
  "rrd_write w vs =
     (let f = dbfile w; cnt = length vs * sizeof_value in
      if cnt = 0 then Some (0, w)
      else if pos f + cnt > file_len f then
        Some (- 1, rrd_set_error ''attempting to write beyond end of file'' w)
      else (case value_index f (pos f) of
              None \<Rightarrow> None
            | Some i \<Rightarrow>
                Some (int cnt, w\<lparr>dbfile := f\<lparr>vals := overwrite i vs (vals f), pos := pos f + cnt\<rparr>\<rparr>)))"

section \<open>Opening\<close>

text \<open>What a file holds: its length, its header under the layout of the structures, and the
  values behind the header. Opening the name fails with the system's message, or gives such a
  file.\<close>

record rrd_image =
  img_len :: nat
  img_rrd :: rrd_t
  img_vals :: "dbl list"

datatype sys_open = Open_fails string | Opened rrd_image

definition RRD_COOKIE :: string where "RRD_COOKIE = ''RRD''"

definition FLOAT_COOKIE :: dbl where "FLOAT_COOKIE = dlit (8642135 * 10 ^ 124) 1"

definition RRD_VERSION :: string where "RRD_VERSION = ''0004''"

text \<open>\<open>__rrd_read\<close>: the section must end before the file does; the sum wraps as \<open>size_t\<close>
  does.\<close>

definition map_section ::
  "string \<Rightarrow> nat \<Rightarrow> ulong \<Rightarrow> nat \<Rightarrow> string + ulong \<Rightarrow> string + ulong" where
  "map_section nm sz cnt flen res =
     (case res of
        Inl m \<Rightarrow> Inl m
      | Inr offset \<Rightarrow>
          (if unat (offset + of_nat sz * cnt) > flen
           then Inl (''reached EOF while loading header '' @ nm)
           else Inr (offset + of_nat sz * cnt)))"

definition check_that :: "bool \<Rightarrow> string \<Rightarrow> string + ulong \<Rightarrow> string + ulong" where
  "check_that ok m res = (case res of Inl e \<Rightarrow> Inl e | Inr offset \<Rightarrow> if ok then Inr offset else Inl m)"

definition quoted :: "string \<Rightarrow> string" where
  "quoted s = [CHR 0x27] @ s @ [CHR 0x27]"

text \<open>The header sections in their order, with the checks between them; the result is the
  length of the header.\<close>

definition rrd_map_header :: "string \<Rightarrow> rrd_image \<Rightarrow> string + ulong" where
  "rrd_map_header file_name im =
     (let r = img_rrd im; sh = stat_head r; n = img_len im;
          ver = atoi (version sh);
          s1 = map_section ''rrd->stat_head'' sizeof_stat_head 1 n (Inr 0);
          s2 = check_that (cookie sh = RRD_COOKIE) (quoted file_name @ '' is not an RRD file'') s1;
          s3 = check_that (feq (float_cookie sh) FLOAT_COOKIE)
                 ''This RRD was created on another architecture'' s2;
          s4 = check_that (ver \<le> atoi RRD_VERSION)
                 (''can'' @ [CHR 0x27] @ ''t handle RRD file version '' @ version sh) s3;
          s5 = map_section ''rrd->ds_def'' sizeof_ds_def (ds_cnt sh) n s4;
          s6 = map_section ''rrd->rra_def'' sizeof_rra_def (rra_cnt sh) n s5;
          s7 = (if ver < 3 then map_section ''rrd->legacy_last_up'' sizeof_time 1 n s6
                else map_section ''rrd->live_head'' sizeof_live_head 1 n s6);
          s8 = map_section ''rrd->pdp_prep'' sizeof_pdp_prep (ds_cnt sh) n s7;
          s9 = map_section ''rrd->cdp_prep'' sizeof_cdp_prep (rra_cnt sh * ds_cnt sh) n s8
      in map_section ''rrd->rra_ptr'' sizeof_rra_ptr (rra_cnt sh) n s9)"

definition correct_len :: "ulong \<Rightarrow> rrd_t \<Rightarrow> ulong" where
  "correct_len hlen r =
     hlen + of_nat sizeof_value * sum_list (map row_cnt (take (n_rra r) (rra_def r)))
              * ds_cnt (stat_head r)"

definition rrd_open ::
  "string \<Rightarrow> sys_open \<Rightarrow> 'a ctx_scheme \<Rightarrow> (rrd_t \<times> rrd_file_t) option \<times> 'a ctx_scheme" where
  "rrd_open file_name so c =
     (case so of
        Open_fails m \<Rightarrow>
          (None, rrd_set_error (''opening '' @ quoted file_name @ '': '' @ m) c)
      | Opened im \<Rightarrow>
          (case rrd_map_header file_name im of
             Inl m \<Rightarrow> (None, rrd_set_error m c)
           | Inr hlen \<Rightarrow>
               (let r = img_rrd im in
                if unat (correct_len hlen r) > img_len im then
                  (None, rrd_set_error (quoted file_name @ '' is too small (should be ''
                           @ show_int (sint (correct_len hlen r)) @ '' bytes)'') c)
                else
                  (Some (if atoi (version (stat_head r)) < 3
                         then r\<lparr>live_head := \<lparr>last_up = legacy_last_up r, last_up_usec = 0\<rparr>\<rparr>
                         else r,
                         \<lparr>header_len = unat hlen, file_len = img_len im, pos = unat hlen,
                          vals = img_vals im\<rparr>), c))))"

section \<open>Where the archives lie\<close>

text \<open>The offset of an archive in the list of values, the number of values of all archives, and
  the shape of an open database: the header arrays have their lengths, the file has room for the
  archives, and every archive has a row and a current row inside it.\<close>

definition rra_size :: "rrd_t \<Rightarrow> nat \<Rightarrow> nat" where
  "rra_size r i = unat (row_cnt (rra_def r ! i)) * n_ds r"

fun rra_base :: "rrd_t \<Rightarrow> nat \<Rightarrow> nat" where
  "rra_base r 0 = 0"
| "rra_base r (Suc i) = rra_base r i + rra_size r i"

definition wf_file :: "rrd_t \<Rightarrow> rrd_file_t \<Rightarrow> bool" where
  "wf_file r f \<longleftrightarrow>
     header_len f + sizeof_value * rra_base r (n_rra r) \<le> file_len f \<and>
     length (vals f) = (file_len f - header_len f) div sizeof_value"

definition wf_rows :: "rrd_t \<Rightarrow> bool" where
  "wf_rows r \<longleftrightarrow> (\<forall>i < n_rra r. unat (rra_ptr r ! i) < unat (row_cnt (rra_def r ! i)))"

text \<open>A row of an archive.\<close>

definition rra_row :: "rrd_t \<Rightarrow> rrd_file_t \<Rightarrow> nat \<Rightarrow> nat \<Rightarrow> dbl list" where
  "rra_row r f i row = take (n_ds r) (drop (rra_base r i + row * n_ds r) (vals f))"

section \<open>Transfers\<close>

lemma value_index_aligned:
  "value_index f (header_len f + sizeof_value * k) = Some k"
  by (simp add: value_index_def sizeof_value_def)

lemma length_overwrite: "i + length vs \<le> length xs \<Longrightarrow> length (overwrite i vs xs) = length xs"
  by (simp add: overwrite_def)

lemma overwrite_same:
  "i + length vs \<le> length xs \<Longrightarrow> take (length vs) (drop i (overwrite i vs xs)) = vs"
  by (simp add: overwrite_def)

lemma overwrite_other:
  assumes "i + length vs \<le> length xs" "j + n \<le> i \<or> i + length vs \<le> j"
  shows "take n (drop j (overwrite i vs xs)) = take n (drop j xs)"
proof (rule nth_equalityI)
  show "length (take n (drop j (overwrite i vs xs))) = length (take n (drop j xs))"
    using assms(1) by (simp add: length_overwrite)
  fix k assume "k < length (take n (drop j (overwrite i vs xs)))"
  then have k: "k < n" "j + k < length xs" using assms(1) by (auto simp: length_overwrite)
  then have "j + k < i \<or> i + length vs \<le> j + k" using assms(2) by auto
  then have "overwrite i vs xs ! (j + k) = xs ! (j + k)"
    using k assms(1) by (auto simp: overwrite_def nth_append)
  then show "take n (drop j (overwrite i vs xs)) ! k = take n (drop j xs) ! k"
    using k assms(1) by (simp add: length_overwrite)
qed

text \<open>Reading and writing at an aligned position inside the file.\<close>

lemma rrd_read_aligned:
  assumes "pos f = header_len f + sizeof_value * k" "0 < n"
    and "pos f + sizeof_value * n \<le> file_len f"
  shows "rrd_read f n = Some (int (sizeof_value * n), take n (drop k (vals f)),
           f\<lparr>pos := pos f + sizeof_value * n\<rparr>)"
proof -
  have "min (n * sizeof_value) (file_len f - pos f) = sizeof_value * n"
    using assms(3) by (simp add: mult.commute)
  moreover have "value_index f (pos f) = Some k" unfolding assms(1) by (rule value_index_aligned)
  ultimately show ?thesis
    using assms(2,3) by (simp add: rrd_read_def Let_def sizeof_value_def mult.commute)
qed

lemma rrd_write_aligned:
  assumes "pos (dbfile w) = header_len (dbfile w) + sizeof_value * k" "0 < length vs"
    and "pos (dbfile w) + sizeof_value * length vs \<le> file_len (dbfile w)"
  shows "rrd_write w vs = Some (int (sizeof_value * length vs),
           w\<lparr>dbfile := (dbfile w)\<lparr>vals := overwrite k vs (vals (dbfile w)),
              pos := pos (dbfile w) + sizeof_value * length vs\<rparr>\<rparr>)"
proof -
  have "value_index (dbfile w) (pos (dbfile w)) = Some k"
    unfolding assms(1) by (rule value_index_aligned)
  then show ?thesis
    using assms(2,3) by (simp add: rrd_write_def Let_def sizeof_value_def mult.commute)
qed

section \<open>The row store as an interface\<close>

text \<open>What the writers and readers of rows rely on: a store of rows in which a row reads back
  as it was written and other rows stay.\<close>

locale row_store =
  fixes get :: "'s \<Rightarrow> nat \<Rightarrow> 'r" and put :: "nat \<Rightarrow> 'r \<Rightarrow> 's \<Rightarrow> 's"
    and ok :: "'s \<Rightarrow> bool" and fits :: "nat \<Rightarrow> 'r \<Rightarrow> bool"
  assumes put_ok: "ok s \<Longrightarrow> fits i v \<Longrightarrow> ok (put i v s)"
    and get_same: "ok s \<Longrightarrow> fits i v \<Longrightarrow> get (put i v s) i = v"
    and get_other: "ok s \<Longrightarrow> fits i v \<Longrightarrow> i \<noteq> j \<Longrightarrow> get (put i v s) j = get s j"
begin

text \<open>A sequence of writes.\<close>

fun puts :: "(nat \<times> 'r) list \<Rightarrow> 's \<Rightarrow> 's" where
  "puts [] s = s"
| "puts ((i, v) # ws) s = puts ws (put i v s)"

lemma puts_ok: "ok s \<Longrightarrow> \<forall>(i, v) \<in> set ws. fits i v \<Longrightarrow> ok (puts ws s)"
  by (induction ws s rule: puts.induct) (auto intro: put_ok)

lemma get_puts_other:
  "ok s \<Longrightarrow> \<forall>(i, v) \<in> set ws. fits i v \<Longrightarrow> j \<notin> fst ` set ws \<Longrightarrow> get (puts ws s) j = get s j"
  by (induction ws s rule: puts.induct) (auto simp: get_other intro: put_ok)

lemma get_puts_same:
  "ok s \<Longrightarrow> \<forall>(i, v) \<in> set ws. fits i v \<Longrightarrow> distinct (map fst ws) \<Longrightarrow> (j, v) \<in> set ws \<Longrightarrow>
     get (puts ws s) j = v"
proof (induction ws s rule: puts.induct)
  case (2 i u ws s)
  show ?case
  proof (cases "(j, v) = (i, u)")
    case True
    with 2 show ?thesis
      by (auto simp: get_puts_other get_same put_ok image_iff)
  next
    case False
    with 2 show ?thesis by (auto intro: put_ok)
  qed
qed simp

end

text \<open>The values of a file with rows of a fixed length are such a store.\<close>

definition get_row :: "nat \<Rightarrow> dbl list \<Rightarrow> nat \<Rightarrow> dbl list" where
  "get_row n xs i = take n (drop (i * n) xs)"

definition put_row :: "nat \<Rightarrow> nat \<Rightarrow> dbl list \<Rightarrow> dbl list \<Rightarrow> dbl list" where
  "put_row n i v xs = overwrite (i * n) v xs"

interpretation file_rows: row_store "get_row n" "put_row n"
  "\<lambda>xs. length xs = rows * n" "\<lambda>i v. i < rows \<and> length v = n" for n rows
proof
  fix s :: "dbl list" and i j and v :: "dbl list"
  assume s: "length s = rows * n" and iv: "i < rows \<and> length v = n"
  then have "Suc i * n \<le> rows * n" by (intro mult_right_mono) auto
  then have b: "i * n + length v \<le> length s" using s iv by (simp add: add.commute)
  then show "length (put_row n i v s) = rows * n"
    using s by (simp add: put_row_def length_overwrite)
  show "get_row n (put_row n i v s) i = v"
    using overwrite_same [OF b] iv by (simp add: get_row_def put_row_def)
  assume "i \<noteq> j"
  then have "Suc j * n \<le> i * n \<or> Suc i * n \<le> j * n"
    by (metis mult_le_mono1 not_less_eq_eq linorder_neqE_nat Suc_leI)
  then have "j * n + n \<le> i * n \<or> i * n + length v \<le> j * n" using iv by (simp add: add.commute)
  then show "get_row n (put_row n i v s) j = get_row n s j"
    using overwrite_other [OF b] by (simp add: get_row_def put_row_def)
qed

end
