(* ===== verification/C_Time.thy ===== *)
theory C_Time
  imports Prelude
begin

text \<open>
  Calendar time of the C library. \<open>struct tm\<close> is a record, \<open>gmtime\<close> is the proleptic
  Gregorian calendar in UTC. The local time zone is system configuration and so a parameter
  of the model, a record \<open>tzone\<close> with the two conversions the code calls; \<open>utc_zone\<close> is the
  zone of a system set to UTC, with \<open>mktime\<close> normalising out-of-range fields.
\<close>

section \<open>struct tm\<close>

record tm =
  tm_sec :: int
  tm_min :: int
  tm_hour :: int
  tm_mday :: int
  tm_mon :: int
  tm_year :: int
  tm_wday :: int
  tm_yday :: int
  tm_isdst :: int

text \<open>Days since 1970-01-01 of a date; the month counts from 0 and may be out of range, the
  day may be any integer. Years start in March, so that the leap day is the last one.\<close>

definition days_of_civil :: "int \<Rightarrow> int \<Rightarrow> int \<Rightarrow> int" where
  "days_of_civil year mon mday =
     (let y0 = year + mon div 12; m0 = mon mod 12;
          y = (if m0 < 2 then y0 - 1 else y0);
          mp = (m0 + 10) mod 12;
          era = y div 400; yoe = y mod 400;
          doy = (153 * mp + 2) div 5 + mday - 1;
          doe = yoe * 365 + yoe div 4 - yoe div 100 + doy
      in era * 146097 + doe - 719468)"

text \<open>The inverse: year, month from 0, day of the month.\<close>

definition civil_of_days :: "int \<Rightarrow> int \<times> int \<times> int" where
  "civil_of_days d =
     (let z = d + 719468; era = z div 146097; doe = z mod 146097;
          yoe = (doe - doe div 1460 + doe div 36524 - doe div 146096) div 365;
          doy = doe - (365 * yoe + yoe div 4 - yoe div 100);
          mp = (5 * doy + 2) div 153;
          mday = doy - (153 * mp + 2) div 5 + 1;
          m0 = (if mp < 10 then mp + 2 else mp - 10);
          y = yoe + era * 400 + (if m0 < 2 then 1 else 0)
      in (y, m0, mday))"

definition gmtime :: "int \<Rightarrow> tm" where
  "gmtime t =
     (let d = t div 86400; s = t mod 86400 in
      case civil_of_days d of (y, m, md) \<Rightarrow>
        \<lparr>tm_sec = s mod 60, tm_min = s div 60 mod 60, tm_hour = s div 3600,
         tm_mday = md, tm_mon = m, tm_year = y - 1900,
         tm_wday = (d + 4) mod 7, tm_yday = d - days_of_civil y 0 1, tm_isdst = 0\<rparr>)"

definition timegm :: "tm \<Rightarrow> int" where
  "timegm t = days_of_civil (tm_year t + 1900) (tm_mon t) (tm_mday t) * 86400
     + tm_hour t * 3600 + tm_min t * 60 + tm_sec t"

section \<open>The local zone\<close>

text \<open>\<open>mktime\<close> returns the time (or -1) and leaves its argument normalised.\<close>

record tzone =
  localtime :: "int \<Rightarrow> tm"
  mktime :: "tm \<Rightarrow> int \<times> tm"

text \<open>A zone at a fixed offset east of Greenwich, without daylight saving.\<close>

definition fixed_zone :: "int \<Rightarrow> tzone" where
  "fixed_zone off =
     \<lparr>localtime = (\<lambda>t. gmtime (t + off)),
      mktime = (\<lambda>t. (timegm t - off, gmtime (timegm t)))\<rparr>"

definition utc_zone :: tzone where
  "utc_zone = fixed_zone 0"

end
