(* ===== verification/Parsetime.thy ===== *)
theory Parsetime
  imports C_Time CNumber
begin

text \<open>
  The time specifications of \<open>rrd_parsetime.c\<close>: the scanner with its file-scope variables as a
  record, the productions \<open>tod\<close>, \<open>day\<close>, \<open>plus_minus\<close>, and \<open>rrd_parsetime\<close> itself. An
  exception of the parser (a returned message) is \<open>Inl\<close>. The local zone is a parameter. The
  \<open>int\<close> fields of the broken-down time wrap as the build's two's complement does.
\<close>

section \<open>Tokens\<close>

datatype (plugins only: code) tok =
    MIDNIGHT | NOON | TEATIME | PM | AM | YESTERDAY | TODAY | TOMORROW | NOW | START | END
    | EPOCH | SECONDS | MINUTES | HOURS | DAYS | WEEKS | MONTHS | YEARS | MONTHS_MINUTES
    | NUMBER | PLUS | MINUS | DOT | COLON | SLASH | ID | JUNK | JAN | FEB | MAR | APR | MAY
    | JUN | JUL | AUG | SEP | OCT | NOV | DEC | SUN | MON | TUE | WED | THU | FRI | SAT
    | TOK_EOF

definition VariousWords :: "(string \<times> tok) list" where
  "VariousWords =
    [(''midnight'', MIDNIGHT), (''noon'', NOON), (''teatime'', TEATIME), (''am'', AM),
     (''pm'', PM), (''tomorrow'', TOMORROW), (''yesterday'', YESTERDAY), (''today'', TODAY),
     (''now'', NOW), (''n'', NOW), (''start'', START), (''s'', START), (''end'', END),
     (''e'', END), (''epoch'', EPOCH), (''jan'', JAN), (''feb'', FEB), (''mar'', MAR),
     (''apr'', APR), (''may'', MAY), (''jun'', JUN), (''jul'', JUL), (''aug'', AUG),
     (''sep'', SEP), (''oct'', OCT), (''nov'', NOV), (''dec'', DEC), (''january'', JAN),
     (''february'', FEB), (''march'', MAR), (''april'', APR), (''may'', MAY), (''june'', JUN),
     (''july'', JUL), (''august'', AUG), (''september'', SEP), (''october'', OCT),
     (''november'', NOV), (''december'', DEC), (''sunday'', SUN), (''sun'', SUN),
     (''monday'', MON), (''mon'', MON), (''tuesday'', TUE), (''tue'', TUE),
     (''wednesday'', WED), (''wed'', WED), (''thursday'', THU), (''thu'', THU),
     (''friday'', FRI), (''fri'', FRI), (''saturday'', SAT), (''sat'', SAT)]"

definition TimeMultipliers :: "(string \<times> tok) list" where
  "TimeMultipliers =
    [(''second'', SECONDS), (''seconds'', SECONDS), (''sec'', SECONDS), (''s'', SECONDS),
     (''minute'', MINUTES), (''minutes'', MINUTES), (''min'', MINUTES), (''m'', MONTHS_MINUTES),
     (''hour'', HOURS), (''hours'', HOURS), (''hr'', HOURS), (''h'', HOURS), (''day'', DAYS),
     (''days'', DAYS), (''d'', DAYS), (''week'', WEEKS), (''weeks'', WEEKS), (''wk'', WEEKS),
     (''w'', WEEKS), (''month'', MONTHS), (''months'', MONTHS), (''mon'', MONTHS),
     (''year'', YEARS), (''years'', YEARS), (''yr'', YEARS), (''y'', YEARS)]"


definition month_toks :: "tok list" where
  "month_toks = [JAN, FEB, MAR, APR, MAY, JUN, JUL, AUG, SEP, OCT, NOV, DEC]"

definition day_toks :: "tok list" where
  "day_toks = [SUN, MON, TUE, WED, THU, FRI, SAT]"

fun tok_index :: "tok list \<Rightarrow> tok \<Rightarrow> int" where
  "tok_index [] t = 0"
| "tok_index (u # us) t = (if t = u then 0 else 1 + tok_index us t)"

datatype rrd_timetype_t = ABSOLUTE_TIME | RELATIVE_TO_START_TIME | RELATIVE_TO_END_TIME
  | RELATIVE_TO_EPOCH

record rrd_time_value_t =
  tv_type :: rrd_timetype_t
  tv_offset :: int
  tv_tm :: tm

section \<open>Scanner\<close>

text \<open>The scanner variables, the static variables of \<open>plus_minus\<close>, and the value under
  construction.\<close>

record scan =
  Specials :: "(string \<times> tok) list"
  scp :: "string list"
  scc :: nat
  sct :: string
  need :: bool
  sc_token :: string
  sc_tokid :: tok
  pm_op :: tok
  prev_multiplier :: "tok option"
  ptv :: rrd_time_value_t

fun mystrcasecmp :: "string \<Rightarrow> string \<Rightarrow> int" where
  "mystrcasecmp [] [] = 0"
| "mystrcasecmp [] (d # ds) = - ord (tolower d)"
| "mystrcasecmp (c # cs) [] = ord (tolower c)"
| "mystrcasecmp (c # cs) (d # ds) =
     (if tolower c = tolower d then mystrcasecmp cs ds else ord (tolower c) - ord (tolower d))"

fun find_token :: "(string \<times> tok) list \<Rightarrow> string \<Rightarrow> tok" where
  "find_token [] arg = ID"
| "find_token ((nm, v) # tab) arg = (if mystrcasecmp nm arg = 0 then v else find_token tab arg)"

definition parse_token :: "string \<Rightarrow> scan \<Rightarrow> scan" where
  "parse_token arg s = s\<lparr>sc_tokid := find_token (Specials s) arg\<rparr>"

definition init_scanner :: "string list \<Rightarrow> scan \<Rightarrow> scan" where
  "init_scanner argv s = s\<lparr>scp := argv, scc := length argv, need := True, sc_token := []\<rparr>"

definition is_blank :: "char \<Rightarrow> bool" where
  "is_blank c \<longleftrightarrow> isspace c \<or> c = CHR ''_'' \<or> c = CHR '',''"

text \<open>The token that starts with the character \<open>c\<close>, the rest of the argument being \<open>r\<close>.\<close>

definition lex :: "char \<Rightarrow> string \<Rightarrow> scan \<Rightarrow> scan" where
  "lex c r s =
     (if isdigit c then
        s\<lparr>sc_token := c # takeWhile isdigit r, sct := dropWhile isdigit r, sc_tokid := NUMBER\<rparr>
      else if isalpha c then
        (let w = c # takeWhile isalpha r
         in parse_token w (s\<lparr>sc_token := w, sct := dropWhile isalpha r\<rparr>))
      else
        (let s1 = s\<lparr>sc_token := [c], sct := r\<rparr> in
         if c = CHR '':'' then s1\<lparr>sc_tokid := COLON\<rparr>
         else if c = CHR ''.'' then s1\<lparr>sc_tokid := DOT\<rparr>
         else if c = CHR ''+'' then s1\<lparr>sc_tokid := PLUS\<rparr>
         else if c = CHR ''-'' then s1\<lparr>sc_tokid := MINUS\<rparr>
         else if c = CHR ''/'' then s1\<lparr>sc_tokid := SLASH\<rparr>
         else s1\<lparr>sct := c # r, sc_tokid := TOK_EOF\<rparr>))"

text \<open>Start on the next argument if need be. The argument list has \<open>scc\<close> entries, so that it is
  empty only when the count is.\<close>

definition at_end :: "scan \<Rightarrow> bool" where
  "at_end s \<longleftrightarrow> need s \<and> (scc s < 1 \<or> scp s = [])"

definition open_arg :: "scan \<Rightarrow> scan" where
  "open_arg s0 =
     (let s = s0\<lparr>sc_token := [], sc_tokid := TOK_EOF\<rparr>
      in if need s then s\<lparr>sct := hd (scp s), scp := tl (scp s), scc := scc s - 1, need := False\<rparr>
         else s)"

function token :: "scan \<Rightarrow> scan" where
  "token s =
     (if at_end s then s\<lparr>sc_token := [], sc_tokid := TOK_EOF\<rparr>
      else
        (case dropWhile is_blank (sct (open_arg s)) of
           [] \<Rightarrow> token ((open_arg s)\<lparr>sct := [], need := True\<rparr>)
         | c # r \<Rightarrow> lex c r (open_arg s)))"
  by pat_completeness auto
termination
  by (relation "measure (\<lambda>s. 2 * scc s + (if need s then 0 else 1))")
     (auto simp: at_end_def open_arg_def Let_def)

declare token.simps [simp del]

definition expect2 :: "tok \<Rightarrow> string \<Rightarrow> scan \<Rightarrow> string + scan" where
  "expect2 desired complain s =
     (let s1 = token s in if sc_tokid s1 \<noteq> desired then Inl complain else Inr s1)"

text \<open>\<open>try\<close>: go on after success.\<close>

fun try_then :: "string + 'b \<Rightarrow> ('b \<Rightarrow> string + 'a) \<Rightarrow> string + 'a" where
  "try_then (Inl m) f = Inl m"
| "try_then (Inr s) f = f s"

section \<open>Offsets\<close>

definition upd_tm :: "(tm \<Rightarrow> tm) \<Rightarrow> scan \<Rightarrow> scan" where
  "upd_tm f s = s\<lparr>ptv := (ptv s)\<lparr>tv_tm := f (tv_tm (ptv s))\<rparr>\<rparr>"

definition add_offset :: "int \<Rightarrow> scan \<Rightarrow> scan" where
  "add_offset d s = s\<lparr>ptv := (ptv s)\<lparr>tv_offset := tv_offset (ptv s) + d\<rparr>\<rparr>"

definition add_year :: "int \<Rightarrow> tm \<Rightarrow> tm" where
  "add_year d t = t\<lparr>tm_year := wrap_int (tm_year t + d)\<rparr>"

definition add_mon :: "int \<Rightarrow> tm \<Rightarrow> tm" where
  "add_mon d t = t\<lparr>tm_mon := wrap_int (tm_mon t + d)\<rparr>"

definition add_mday :: "int \<Rightarrow> tm \<Rightarrow> tm" where
  "add_mday d t = t\<lparr>tm_mday := wrap_int (tm_mday t + d)\<rparr>"

text \<open>The guess for the unit m: by the previous unit, or by the size of the number.\<close>

definition guess_m :: "tok option \<Rightarrow> int \<Rightarrow> tok" where
  "guess_m prev delta =
     (if prev \<in> set [Some DAYS, Some WEEKS, Some MONTHS, Some YEARS] then MONTHS
      else if prev \<in> set [Some SECONDS, Some MINUTES, Some HOURS] then MINUTES
      else if delta < 6 then MONTHS else MINUTES)"

text \<open>The effect of a unit.\<close>

definition apply_unit :: "tok \<Rightarrow> int \<Rightarrow> scan \<Rightarrow> scan" where
  "apply_unit u delta s =
     (let sgn = (\<lambda>d. if pm_op s = PLUS then d else wrap_int (- d)) in
      case u of
        YEARS \<Rightarrow> upd_tm (add_year (sgn delta)) s
      | MONTHS \<Rightarrow> upd_tm (add_mon (sgn delta)) s
      | WEEKS \<Rightarrow> upd_tm (add_mday (sgn (wrap_int (delta * 7)))) s
      | DAYS \<Rightarrow> upd_tm (add_mday (sgn delta)) s
      | HOURS \<Rightarrow> add_offset (wrap_int (wrap_int (sgn delta * 60) * 60)) s
      | MINUTES \<Rightarrow> add_offset (wrap_int (sgn delta * 60)) s
      | _ \<Rightarrow> add_offset (sgn delta) s)"

text \<open>The number and its sign; \<open>None\<close> is PREVIOUS_OP.\<close>

definition pm_number :: "tok option \<Rightarrow> scan \<Rightarrow> string + scan" where
  "pm_number doop s =
     (case doop of
        Some x \<Rightarrow>
          try_then (expect2 NUMBER
            (''There should be number after ''
               @ [CHR 0x27, if x = PLUS then CHR ''+'' else CHR ''-'', CHR 0x27])
            (s\<lparr>pm_op := x\<rparr>)) (\<lambda>s1. Inr (s1\<lparr>prev_multiplier := None\<rparr>))
      | None \<Rightarrow> Inr s)"

definition plus_minus :: "tok option \<Rightarrow> scan \<Rightarrow> string + scan" where
  "plus_minus doop s0 =
     try_then (pm_number doop s0)
       (\<lambda>s1.
          (let delta = atoi (sc_token s1);
               s2 = token s1;
               u = (if sc_tokid s2 = MONTHS_MINUTES then guess_m (prev_multiplier s2) delta
                    else sc_tokid s2)
           in Inr (apply_unit u delta (s2\<lparr>sc_tokid := u, prev_multiplier := Some u\<rparr>))))"

section \<open>Time of day\<close>

text \<open>Back to the state before the token, except for the token text, which is printed anew.\<close>

definition tod_abort :: "scan \<Rightarrow> int \<Rightarrow> scan \<Rightarrow> scan" where
  "tod_abort s0 hour s =
     s\<lparr>scc := scc s0, sct := sct s0, sc_tokid := sc_tokid s0, sc_token := show_int hour\<rparr>"

definition set_tod :: "int \<Rightarrow> int \<Rightarrow> tm \<Rightarrow> tm" where
  "set_tod hour minute t =
     (let t1 = t\<lparr>tm_hour := hour, tm_min := minute, tm_sec := 0\<rparr>
      in if tm_hour t1 = 24 then add_mday 1 (t1\<lparr>tm_hour := 0\<rparr>) else t1)"

definition tod :: "scan \<Rightarrow> string + scan" where
  "tod s0 =
     (if length (sc_token s0) > 2 then Inr s0
      else
        (let hour = atoi (sc_token s0); s1 = token s0 in
         if sc_tokid s1 = SLASH \<or> sc_tokid s1 = DOT then Inr (tod_abort s0 hour s1)
         else
           try_then
             (if sc_tokid s1 = COLON then
                try_then (expect2 NUMBER
                            ''Parsing HH:MM syntax, expecting MM as number, got none'' s1)
                  (\<lambda>s2. let minute = atoi (sc_token s2) in
                     if minute > 59
                     then Inl (''parsing HH:MM syntax, got MM = '' @ show_int minute @ '' (>59!)'')
                     else Inr (minute, token s2))
              else Inr (0, s1))
             (\<lambda>(minute, s).
                if sc_tokid s = AM \<or> sc_tokid s = PM then
                  (if hour > 12 then Inl ''there cannot be more than 12 AM or PM hours''
                   else
                     (let h = (if sc_tokid s = PM then (if hour \<noteq> 12 then hour + 12 else hour)
                               else (if hour = 12 then 0 else hour))
                      in Inr (upd_tm (set_tod h minute) (token s))))
                else if hour > 23 then Inr (tod_abort s0 hour s)
                else Inr (upd_tm (set_tod hour minute) s))))"

section \<open>Dates\<close>

definition assign_date :: "int \<Rightarrow> int \<Rightarrow> int \<Rightarrow> scan \<Rightarrow> string + scan" where
  "assign_date mday mon year s =
     (if year > 138 \<and> \<not> year > 1970 then
        Inl (''invalid year '' @ show_int (wrap_int year) @ '' (should be either 00-99 or >1900)'')
      else
        (let y = (if year > 138 then year - 1900
                  else if year \<ge> 0 \<and> year < 38 then year + 100 else year)
         in if y < 70 then Inl (''won'' @ [CHR 0x27] @ ''t handle dates before epoch (01/01/1970), sorry'')
            else Inr (upd_tm (\<lambda>t. t\<lparr>tm_mday := wrap_int mday, tm_mon := wrap_int mon,
                                     tm_year := wrap_int y\<rparr>) s)))"

text \<open>The month, the day and the year a number names, with the scanner behind them.\<close>

definition day_number :: "int \<Rightarrow> int \<Rightarrow> scan \<Rightarrow> string + (int \<times> int \<times> int \<times> scan)" where
  "day_number mon year s0 =
     (if mon > 19700101 \<and> mon < 24000101 then
        (let t = sc_token s0
         in Inr (atol (take 2 (drop 4 t)), atol (take 2 (drop 6 t)), atol (take 4 t), token s0))
      else
        (let s1 = token s0; sep = sc_tokid s1 in
         if mon \<le> 31 \<and> (sep = SLASH \<or> sep = DOT) then
           try_then (expect2 NUMBER
               (if sep = DOT then ''there should be month number after '' @ [CHR 0x27, CHR ''.'', CHR 0x27]
                else ''there should be day number after '' @ [CHR 0x27, CHR ''/'', CHR 0x27]) s1)
             (\<lambda>s2.
                (let mday = atol (sc_token s2); s3 = token s2;
                     flip = (\<lambda>y s. Inr (if sep = DOT then (mday, mon, y, s) else (mon, mday, y, s)))
                 in if sc_tokid s3 = sep
                    then try_then (expect2 NUMBER
                           (''there should be year number after ''
                              @ [CHR 0x27, if sep = DOT then CHR ''.'' else CHR ''/'', CHR 0x27]) s3)
                         (\<lambda>s4. flip (atol (sc_token s4)) (token s4))
                    else flip year s3))
         else Inr (mon, 0, year, s1)))"

definition day :: "tzone \<Rightarrow> scan \<Rightarrow> string + scan" where
  "day tz s =
     (let k = sc_tokid s; year = tm_year (tv_tm (ptv s)) in
      if k = YESTERDAY then Inr (token (upd_tm (add_mday (- 1)) s))
      else if k = TODAY then Inr (token s)
      else if k = TOMORROW then Inr (token (upd_tm (add_mday 1) s))
      else if k \<in> set month_toks then
        try_then (expect2 NUMBER ''the day of the month should follow month name'' s)
          (\<lambda>s1. let mday = atol (sc_token s1); s2 = token s1 in
             if sc_tokid s2 = NUMBER
             then assign_date mday (tok_index month_toks k) (atol (sc_token s2)) (token s2)
             else assign_date mday (tok_index month_toks k) year s2)
      else if k \<in> set day_toks then
        Inr (token (upd_tm (\<lambda>t. add_mday (tok_index day_toks k - tm_wday t) t) s))
      else if k = NUMBER then
        (let mon0 = atol (sc_token s) in
         if mon0 > 10 * 365 * 24 * 60 * 60
         then Inr (token (upd_tm (\<lambda>_. localtime tz mon0) s))
         else
           (case day_number mon0 year s of
              Inl m \<Rightarrow> Inl m
            | Inr (mon1, mday, y, s') \<Rightarrow>
                (let mon = mon1 - 1 in
                 if mon < 0 \<or> mon > 11
                 then Inl (''did you really mean month '' @ show_int (wrap_int (mon + 1)) @ ''?'')
                 else if mday < 1 \<or> mday > 31
                 then Inl (''I'' @ [CHR 0x27] @ ''m afraid that '' @ show_int (wrap_int mday)
                             @ '' is not a valid day of the month'')
                 else assign_date mday mon y s')))
      else Inr s)"

section \<open>The parser\<close>

definition zero_date :: "scan \<Rightarrow> scan" where
  "zero_date =
     upd_tm (\<lambda>t. t\<lparr>tm_sec := 0, tm_min := 0, tm_hour := 0, tm_mday := 0, tm_mon := 0, tm_year := 0\<rparr>)"

text \<open>After a reference: only an offset may follow, except that now may stand alone.\<close>

definition after_reference :: "tok \<Rightarrow> scan \<Rightarrow> string + scan" where
  "after_reference time_reference s0 =
     (let s = token s0 in
      if sc_tokid s = PLUS \<or> sc_tokid s = MINUS then Inr s
      else if time_reference \<noteq> NOW
      then Inl ([CHR 0x27] @ ''start'' @ [CHR 0x27] @ '' or '' @ [CHR 0x27] @ ''end'' @ [CHR 0x27] @ '' MUST be followed by +|- offset'')
      else if sc_tokid s \<noteq> TOK_EOF
      then Inl (''if '' @ [CHR 0x27] @ ''now'' @ [CHR 0x27] @ '' is followed by a token it must be +|- offset'')
      else Inr s)"

definition parse_numeric :: "tzone \<Rightarrow> scan \<Rightarrow> string + scan" where
  "parse_numeric tz s0 =
     (let t0 = tv_tm (ptv s0); hour_sv = tm_hour t0; year_sv = tm_year t0 in
      try_then (tod (upd_tm (\<lambda>t. t\<lparr>tm_hour := 30, tm_year := 30000\<rparr>) s0)) (\<lambda>s1.
      try_then (day tz s1) (\<lambda>s2.
      try_then (if tm_hour (tv_tm (ptv s2)) = 30 \<and> tm_year (tv_tm (ptv s2)) \<noteq> 30000
                then tod s2 else Inr s2) (\<lambda>s3.
        Inr (upd_tm (\<lambda>t. t\<lparr>tm_hour := (if tm_hour t = 30 then hour_sv else tm_hour t),
                             tm_year := (if tm_year t = 30000 then year_sv else tm_year t)\<rparr>) s3)))))"

definition parse_clock :: "tzone \<Rightarrow> int \<Rightarrow> scan \<Rightarrow> string + scan" where
  "parse_clock tz hr s =
     day tz (token (upd_tm (\<lambda>t. t\<lparr>tm_hour := hr, tm_min := 0, tm_sec := 0\<rparr>) s))"

definition set_type :: "rrd_timetype_t \<Rightarrow> scan \<Rightarrow> scan" where
  "set_type ty s = s\<lparr>ptv := (ptv s)\<lparr>tv_type := ty\<rparr>\<rparr>"

definition parse_head :: "tzone \<Rightarrow> scan \<Rightarrow> string + scan" where
  "parse_head tz s =
     (let k = sc_tokid s in
      if k = PLUS \<or> k = MINUS then Inr s
      else if k = EPOCH then after_reference k (zero_date (set_type RELATIVE_TO_EPOCH s))
      else if k = START then after_reference k (zero_date (set_type RELATIVE_TO_START_TIME s))
      else if k = END then after_reference k (zero_date (set_type RELATIVE_TO_END_TIME s))
      else if k = NOW then after_reference k s
      else if k = NUMBER then parse_numeric tz s
      else if k \<in> set month_toks then
        try_then (day tz s) (\<lambda>s1. if sc_tokid s1 \<noteq> NUMBER then Inr s1 else tod s1)
      else if k = TEATIME then parse_clock tz 16 s
      else if k = NOON then parse_clock tz 12 s
      else if k = MIDNIGHT then parse_clock tz 0 s
      else Inl (''unparsable time: '' @ sc_token s @ sct s))"

text \<open>The text still to be scanned. A token other than the end takes some of it, and no
  production gives any back, so that the loop over the offsets ends.\<close>

definition remaining :: "scan \<Rightarrow> nat" where
  "remaining s = (if need s then 0 else length (sct s)) + sum_list (map length (take (scc s) (scp s)))"

lemma remaining_lex:
  "\<not> need s \<Longrightarrow> remaining (lex c r s) \<le> Suc (length r) + sum_list (map length (take (scc s) (scp s)))
     \<and> (sc_tokid (lex c r s) \<noteq> TOK_EOF \<longrightarrow>
          remaining (lex c r s) \<le> length r + sum_list (map length (take (scc s) (scp s))))"
  by (auto simp: lex_def Let_def remaining_def parse_token_def intro: le_SucI length_dropWhile_le)

lemma remaining_token:
  "remaining (token s) \<le> remaining s \<and> (sc_tokid (token s) \<noteq> TOK_EOF \<longrightarrow> remaining (token s) < remaining s)"
proof (induction s rule: token.induct)
  case (1 s)
  show ?case
  proof (cases "at_end s")
    case True
    then show ?thesis by (subst (1 2 3) token.simps) (simp add: remaining_def)
  next
    case False
    have n1: "\<not> need (open_arg s)" by (simp add: open_arg_def Let_def)
    have r1: "remaining (open_arg s) = remaining s"
      using False by (cases "scp s"; cases "scc s") (auto simp: remaining_def open_arg_def at_end_def Let_def)
    show ?thesis
    proof (cases "dropWhile is_blank (sct (open_arg s))")
      case Nil
      have t: "token s = token ((open_arg s)\<lparr>sct := [], need := True\<rparr>)"
        using False by (subst token.simps) (simp only: Nil if_False list.case)
      have "remaining ((open_arg s)\<lparr>sct := [], need := True\<rparr>) \<le> remaining (open_arg s)"
        using n1 by (simp add: remaining_def)
      with 1 [OF False Nil] t r1 show ?thesis by (metis less_le_trans order_trans)
    next
      case (Cons c r)
      have t: "token s = lex c r (open_arg s)"
        using False Cons by (subst token.simps) simp
      have "Suc (length r) \<le> length (sct (open_arg s))"
        using length_dropWhile_le [of is_blank "sct (open_arg s)"] Cons by simp
      then have "Suc (length r) + sum_list (map length (take (scc (open_arg s)) (scp (open_arg s))))
          \<le> remaining (open_arg s)"
        using n1 by (simp add: remaining_def)
      with remaining_lex [OF n1, of c r] t r1 show ?thesis by force
    qed
  qed
qed

lemma remaining_update [simp]:
  "remaining (s\<lparr>sc_tokid := k\<rparr>) = remaining s" "remaining (s\<lparr>pm_op := k\<rparr>) = remaining s"
  "remaining (s\<lparr>prev_multiplier := p\<rparr>) = remaining s" "remaining (s\<lparr>ptv := v\<rparr>) = remaining s"
  "remaining (upd_tm f s) = remaining s" "remaining (add_offset d s) = remaining s"
  by (simp_all add: remaining_def upd_tm_def add_offset_def)

lemma expect2_remaining: "expect2 k m s = Inr s1 \<Longrightarrow> remaining s1 \<le> remaining s"
  using remaining_token [of s] by (auto simp: expect2_def Let_def split: if_splits)

lemma try_then_Inr: "try_then r f = Inr x \<longleftrightarrow> (\<exists>s. r = Inr s \<and> f s = Inr x)"
  by (cases r) auto

lemma apply_unit_remaining [simp]: "remaining (apply_unit u d s) = remaining s"
  by (cases u) (simp_all add: apply_unit_def Let_def)

lemma pm_number_remaining: "pm_number d s = Inr s1 \<Longrightarrow> remaining s1 \<le> remaining s"
  by (cases d) (auto simp: pm_number_def try_then_Inr dest: expect2_remaining)

lemma plus_minus_remaining:
  assumes "plus_minus d s = Inr s1"
  shows "remaining s1 \<le> remaining s"
proof -
  obtain s2 where s2: "pm_number d s = Inr s2" and r: "remaining s1 = remaining (token s2)"
    using assms by (auto simp: plus_minus_def try_then_Inr Let_def)
  show ?thesis using pm_number_remaining [OF s2] remaining_token [of s2] r by simp
qed

function parse_offsets :: "scan \<Rightarrow> string + scan" where
  "parse_offsets s =
     (if sc_tokid s = PLUS \<or> sc_tokid s = MINUS \<or> sc_tokid s = NUMBER then
        (case plus_minus (if sc_tokid s = NUMBER then None else Some (sc_tokid s)) s of
           Inl m \<Rightarrow> Inl m
         | Inr s1 \<Rightarrow> parse_offsets (token s1))
      else Inr s)"
  by pat_completeness auto
termination
proof (relation "measure (\<lambda>s. 2 * remaining s + (if sc_tokid s = TOK_EOF then 0 else 1))")
  fix s s1
  assume k: "sc_tokid s = PLUS \<or> sc_tokid s = MINUS \<or> sc_tokid s = NUMBER"
    and pm: "plus_minus (if sc_tokid s = NUMBER then None else Some (sc_tokid s)) s = Inr s1"
  have "sc_tokid s \<noteq> TOK_EOF" using k by auto
  then show "(token s1, s) \<in> measure (\<lambda>s. 2 * remaining s + (if sc_tokid s = TOK_EOF then 0 else 1))"
    using plus_minus_remaining [OF pm] remaining_token [of s1] by auto
qed simp

declare parse_offsets.simps [simp del]

definition parse_rest :: "tzone \<Rightarrow> scan \<Rightarrow> string + rrd_time_value_t" where
  "parse_rest tz s =
     (if sc_tokid s \<noteq> TOK_EOF
      then Inl (''unparsable trailing text: '' @ [CHR 0x27] @ ''...'' @ sc_token s @ sct s @ [CHR 0x27])
      else if tv_type (ptv s) = ABSOLUTE_TIME then
        (case mktime tz (tv_tm (ptv s)) of (t, norm) \<Rightarrow>
           if t = - 1 then Inl ''the specified time is incorrect (out of range?)''
           else Inr ((ptv s)\<lparr>tv_tm := norm\<rparr>))
      else Inr (ptv s))"

definition initial_scan :: "tzone \<Rightarrow> int \<Rightarrow> scan" where
  "initial_scan tz now =
     \<lparr>Specials = VariousWords, scp = [], scc = 0, sct = [], need = True, sc_token = [],
      sc_tokid = TOK_EOF, pm_op = PLUS, prev_multiplier = None,
      ptv = \<lparr>tv_type = ABSOLUTE_TIME, tv_offset = 0,
             tv_tm = (localtime tz now)\<lparr>tm_isdst := - 1\<rparr>\<rparr>\<rparr>"

definition parse_spec :: "tzone \<Rightarrow> int \<Rightarrow> string \<Rightarrow> string + rrd_time_value_t" where
  "parse_spec tz now tspec =
     try_then (parse_head tz (token (init_scanner [tspec] (initial_scan tz now))))
       (\<lambda>s1. try_then
          (if sc_tokid s1 = PLUS \<or> sc_tokid s1 = MINUS
           then parse_offsets (s1\<lparr>Specials := TimeMultipliers\<rparr>) else Inr s1)
          (parse_rest tz))"

definition MAX_ERR_MSG_LEN :: nat where "MAX_ERR_MSG_LEN = 1024"

text \<open>\<open>time (NULL)\<close> is a reading of the clock; messages are cut off at the size of their
  buffer.\<close>

definition rrd_parsetime ::
  "tzone \<Rightarrow> string \<Rightarrow> 'a ctx_scheme \<Rightarrow> (string + rrd_time_value_t) \<times> 'a ctx_scheme" where
  "rrd_parsetime tz tspec c =
     (case gettimeofday c of ((now, _), c1) \<Rightarrow>
        (case parse_spec tz now tspec of
           Inl m \<Rightarrow> (Inl (take (MAX_ERR_MSG_LEN - 1) m), c1)
         | Inr tv \<Rightarrow> (Inr tv, c1)))"

section \<open>Start and end\<close>

text \<open>A time relative to another one: the broken-down reference, moved by the day, month and
  year of the specification.\<close>

definition relative_to :: "tzone \<Rightarrow> int \<Rightarrow> rrd_time_value_t \<Rightarrow> int" where
  "relative_to tz t tv =
     (let u = localtime tz t; d = tv_tm tv
      in fst (mktime tz (add_year (tm_year d) (add_mon (tm_mon d) (add_mday (tm_mday d) u))))
         + tv_offset tv)"

definition absolute_of :: "tzone \<Rightarrow> rrd_time_value_t \<Rightarrow> int" where
  "absolute_of tz tv = fst (mktime tz (tv_tm tv)) + tv_offset tv"

text \<open>\<open>mktime\<close> leaves its argument normalised; the code then converts it a second time.\<close>

definition normalised :: "tzone \<Rightarrow> rrd_time_value_t \<Rightarrow> rrd_time_value_t" where
  "normalised tz tv = tv\<lparr>tv_tm := snd (mktime tz (tv_tm tv))\<rparr>"

definition rrd_proc_start_end ::
  "tzone \<Rightarrow> rrd_time_value_t \<Rightarrow> rrd_time_value_t \<Rightarrow> 'a ctx_scheme
     \<Rightarrow> (int \<times> int) option \<times> 'a ctx_scheme" where
  "rrd_proc_start_end tz start_tv end_tv c =
     (if tv_type start_tv = RELATIVE_TO_END_TIME \<and> tv_type end_tv = RELATIVE_TO_START_TIME then
        (None, rrd_set_error
           ''the start and end times cannot be specified relative to each other'' c)
      else if tv_type start_tv = RELATIVE_TO_START_TIME then
        (None, rrd_set_error ''the start time cannot be specified relative to itself'' c)
      else if tv_type end_tv = RELATIVE_TO_END_TIME then
        (None, rrd_set_error ''the end time cannot be specified relative to itself'' c)
      else if tv_type start_tv = RELATIVE_TO_END_TIME then
        (Some (relative_to tz (absolute_of tz end_tv) start_tv,
               absolute_of tz (normalised tz end_tv)), c)
      else if tv_type end_tv = RELATIVE_TO_START_TIME then
        (let start = absolute_of tz (normalised tz start_tv)
         in (Some (start, relative_to tz start end_tv), c))
      else (Some (absolute_of tz start_tv, absolute_of tz end_tv), c))"

end
