(* ===== verification/Rpn_Program.thy ===== *)
theory Rpn_Program
  imports Rrd_Format CNumber C_Time
begin

text \<open>
  RPN programs of \<open>rrd_rpncalc.c\<close>: the operator codes, the expanded nodes the calculator
  runs, the compact nodes a COMPUTE data source keeps in the \<open>par\<close> array of its definition,
  the conversions between them, and the printing of a compact program.
\<close>

section \<open>Operators and nodes\<close>

datatype (plugins only: code) op_en = OP_NUMBER | OP_VARIABLE | OP_INF | OP_PREV | OP_NEGINF
  | OP_UNKN | OP_NOW | OP_TIME | OP_ADD | OP_MOD | OP_SUB | OP_MUL
  | OP_DIV | OP_SIN | OP_DUP | OP_EXC | OP_POP
  | OP_COS | OP_LOG | OP_EXP | OP_LT | OP_LE | OP_GT | OP_GE | OP_EQ | OP_IF
  | OP_MIN | OP_MAX | OP_LIMIT | OP_FLOOR | OP_CEIL
  | OP_UN | OP_END | OP_LTIME | OP_NE | OP_ISINF | OP_PREV_OTHER | OP_COUNT
  | OP_ATAN | OP_SQRT | OP_SORT | OP_REV | OP_TREND | OP_TRENDNAN
  | OP_ATAN2 | OP_RAD2DEG | OP_DEG2RAD
  | OP_PREDICT | OP_PREDICTSIGMA
  | OP_AVG | OP_ABS | OP_ADDNAN

definition op_codes :: "op_en list" where
  "op_codes = [OP_NUMBER, OP_VARIABLE, OP_INF, OP_PREV, OP_NEGINF,
     OP_UNKN, OP_NOW, OP_TIME, OP_ADD, OP_MOD, OP_SUB, OP_MUL,
     OP_DIV, OP_SIN, OP_DUP, OP_EXC, OP_POP,
     OP_COS, OP_LOG, OP_EXP, OP_LT, OP_LE, OP_GT, OP_GE, OP_EQ, OP_IF,
     OP_MIN, OP_MAX, OP_LIMIT, OP_FLOOR, OP_CEIL,
     OP_UN, OP_END, OP_LTIME, OP_NE, OP_ISINF, OP_PREV_OTHER, OP_COUNT,
     OP_ATAN, OP_SQRT, OP_SORT, OP_REV, OP_TREND, OP_TRENDNAN,
     OP_ATAN2, OP_RAD2DEG, OP_DEG2RAD,
     OP_PREDICT, OP_PREDICTSIGMA,
     OP_AVG, OP_ABS, OP_ADDNAN]"

text \<open>The number an operator is stored as (its place in the enumeration), and back.\<close>

fun place_of :: "op_en \<Rightarrow> op_en list \<Rightarrow> nat" where
  "place_of x [] = 0"
| "place_of x (y # ys) = (if x = y then 0 else Suc (place_of x ys))"

definition op_code :: "op_en \<Rightarrow> int" where
  "op_code x = int (place_of x op_codes)"

definition op_of_code :: "int \<Rightarrow> op_en option" where
  "op_of_code k = (if 0 \<le> k \<and> k < int (length op_codes) then Some (op_codes ! nat k) else None)"

text \<open>\<open>data\<close> points into an array: the array and an index into it.\<close>

record rpnp_t =
  op :: op_en
  val :: dbl
  ptr :: int
  data :: "dbl list"
  data_pos :: int
  r_ds_cnt :: int
  step :: int

record rpn_cdefds_t =
  c_op :: int
  c_val :: int

definition zero_node :: rpnp_t where
  "zero_node = \<lparr>op = OP_NUMBER, val = 0, ptr = 0, data = [], data_pos = 0, r_ds_cnt = 0,
     step = 0\<rparr>"

definition end_node :: rpnp_t where
  "end_node = zero_node\<lparr>op := OP_END\<rparr>"

definition DS_CDEF_MAX_RPN_NODES :: nat where "DS_CDEF_MAX_RPN_NODES = 26"
definition MAX_VNAME_LEN :: nat where "MAX_VNAME_LEN = 255"
definition SHRT_MIN :: int where "SHRT_MIN = - 32768"
definition SHRT_MAX :: int where "SHRT_MAX = 32767"

text \<open>The nodes of an array before its terminator.\<close>

definition body :: "rpnp_t list \<Rightarrow> rpnp_t list" where
  "body ps = takeWhile (\<lambda>n. op n \<noteq> OP_END) ps"

section \<open>Compact form\<close>

text \<open>One node; a constant outside \<open>short\<close> is refused. The comparison of a NaN with the
  limits fails, so that NaN passes and is stored as the conversion leaves it.\<close>

definition compact_node :: "rpnp_t \<Rightarrow> rpn_cdefds_t option" where
  "compact_node n =
     (if op n = OP_NUMBER then
        (let temp = ffloor (val n) in
         if flt temp (dbl_of_int SHRT_MIN) \<or> fgt temp (dbl_of_int SHRT_MAX) then None
         else Some \<lparr>c_op = wrap_char (op_code (op n)), c_val = wrap_short (dbl_to_int temp)\<rparr>)
      else if op n = OP_VARIABLE \<or> op n = OP_PREV_OTHER then
        Some \<lparr>c_op = wrap_char (op_code (op n)), c_val = wrap_short (ptr n)\<rparr>
      else Some \<lparr>c_op = wrap_char (op_code (op n)), c_val = 0\<rparr>)"

fun compact_nodes :: "rpnp_t list \<Rightarrow> rpn_cdefds_t list option" where
  "compact_nodes [] = Some [\<lparr>c_op = op_code OP_END, c_val = 0\<rparr>]"
| "compact_nodes (n # ns) =
     (case compact_node n of None \<Rightarrow> None
      | Some c \<Rightarrow> map_option (\<lambda>cs. c # cs) (compact_nodes ns))"

text \<open>The result holds the terminator; \<open>count\<close> is its length.\<close>

definition rpn_compact ::
  "rpnp_t list \<Rightarrow> 'a ctx_scheme \<Rightarrow> rpn_cdefds_t list option \<times> 'a ctx_scheme" where
  "rpn_compact rpnp c =
     (if length (body rpnp) + 1 > DS_CDEF_MAX_RPN_NODES then
        (None, rrd_set_error ''Maximum 26 RPN nodes permitted'' c)
      else
        (case compact_nodes (body rpnp) of
           None \<Rightarrow> (None, rrd_set_error
             ''constants must be integers in the interval (-32768, 32767)'' c)
         | Some cs \<Rightarrow> (Some cs, c)))"

text \<open>Back to the expanded form: a zeroed array of 26 nodes, filled up to the terminator. An
  operator number that no constructor has can only come from a damaged file.\<close>

definition expand_node :: "rpn_cdefds_t \<Rightarrow> rpnp_t option" where
  "expand_node c =
     (case op_of_code (c_op c) of
        None \<Rightarrow> None
      | Some x \<Rightarrow>
          Some (if x = OP_NUMBER then zero_node\<lparr>op := x, val := dbl_of_int (c_val c)\<rparr>
                else if x = OP_VARIABLE \<or> x = OP_PREV_OTHER
                then zero_node\<lparr>op := x, ptr := c_val c\<rparr>
                else zero_node\<lparr>op := x\<rparr>))"

fun rpn_expand :: "rpn_cdefds_t list \<Rightarrow> rpnp_t list option" where
  "rpn_expand [] = None"
| "rpn_expand (c # cs) =
     (if c_op c = op_code OP_END then Some [end_node]
      else (case expand_node c of None \<Rightarrow> None
            | Some n \<Rightarrow> map_option (\<lambda>ns. n # ns) (rpn_expand cs)))"

section \<open>The compact program inside a data source definition\<close>

text \<open>A compact node takes four bytes (the operator, a padding byte, the value), two nodes to
  a word of \<open>par\<close>; the memory comes zeroed from \<open>calloc\<close>.\<close>

definition node_bits :: "rpn_cdefds_t \<Rightarrow> int" where
  "node_bits c = c_op c mod 256 + (c_val c mod 65536) * 65536"

definition node_of_bits :: "int \<Rightarrow> rpn_cdefds_t" where
  "node_of_bits b = \<lparr>c_op = wrap_char (b mod 256), c_val = wrap_short (b div 65536 mod 65536)\<rparr>"

definition nodes_of_par :: "unival list \<Rightarrow> rpn_cdefds_t list" where
  "nodes_of_par par =
     concat (map (\<lambda>w. [node_of_bits (uint w mod 2 ^ 32), node_of_bits (uint w div 2 ^ 32)]) par)"

text \<open>\<open>memcpy\<close> of the nodes over \<open>par\<close>: a word that gets one node keeps its upper half.\<close>

fun store_nodes :: "rpn_cdefds_t list \<Rightarrow> unival list \<Rightarrow> unival list" where
  "store_nodes [] par = par"
| "store_nodes (a # cs) [] = []"
| "store_nodes [a] (w # par) =
     word_of_int (node_bits a + (uint w div 2 ^ 32) * 2 ^ 32) # par"
| "store_nodes (a # b # cs) (w # par) =
     word_of_int (node_bits a + node_bits b * 2 ^ 32) # store_nodes cs par"

definition sizeof_cdefds :: nat where "sizeof_cdefds = 4"

section \<open>Printing\<close>

text \<open>The operators \<open>rpn_compact2str\<close> prints, with their text.\<close>

definition op_names :: "(op_en \<times> string) list" where
  "op_names = [(OP_ADD, ''+''), (OP_SUB, ''-''), (OP_MUL, ''*''), (OP_DIV, ''/''),
     (OP_MOD, ''%''), (OP_SIN, ''SIN''), (OP_COS, ''COS''), (OP_LOG, ''LOG''),
     (OP_FLOOR, ''FLOOR''), (OP_CEIL, ''CEIL''), (OP_EXP, ''EXP''), (OP_DUP, ''DUP''),
     (OP_EXC, ''EXC''), (OP_POP, ''POP''), (OP_LT, ''LT''), (OP_LE, ''LE''),
     (OP_GT, ''GT''), (OP_GE, ''GE''), (OP_EQ, ''EQ''), (OP_IF, ''IF''),
     (OP_MIN, ''MIN''), (OP_MAX, ''MAX''), (OP_LIMIT, ''LIMIT''), (OP_UNKN, ''UNKN''),
     (OP_UN, ''UN''), (OP_NEGINF, ''NEGINF''), (OP_NE, ''NE''), (OP_PREV, ''PREV''),
     (OP_INF, ''INF''), (OP_ISINF, ''ISINF''), (OP_NOW, ''NOW''), (OP_LTIME, ''LTIME''),
     (OP_TIME, ''TIME''), (OP_ATAN2, ''ATAN2''), (OP_ATAN, ''ATAN''), (OP_SQRT, ''SQRT''),
     (OP_SORT, ''SORT''), (OP_REV, ''REV''), (OP_TREND, ''TREND''),
     (OP_TRENDNAN, ''TRENDNAN''), (OP_PREDICT, ''PREDICT''),
     (OP_PREDICTSIGMA, ''PREDICTSIGMA''), (OP_RAD2DEG, ''RAD2DEG''),
     (OP_DEG2RAD, ''DEG2RAD''), (OP_AVG, ''AVG''), (OP_ABS, ''ABS''), (OP_ADDNAN, ''ADDNAN'')]"

text \<open>The output buffer: what is written so far and how many bytes are allocated. Writing
  outside the allocation is \<open>None\<close>.\<close>

record outbuf =
  text_of :: string
  room :: nat

definition put_char :: "char \<Rightarrow> outbuf \<Rightarrow> outbuf option" where
  "put_char ch b =
     (if length (text_of b) < room b then Some (b\<lparr>text_of := text_of b @ [ch]\<rparr>) else None)"

text \<open>\<open>addop2str\<close> when the operator matches: reallocate to the new text plus one byte, then
  append.\<close>

definition addop2str :: "string \<Rightarrow> outbuf \<Rightarrow> outbuf" where
  "addop2str s b = \<lparr>text_of = text_of b @ s, room = length s + 1 + length (text_of b)\<rparr>"

text \<open>The text of one node, \<open>None\<close> when no line of the function matches its operator: a
  PREV of another source is compared with OP_VARIABLE and so never matches.\<close>

definition node_text :: "ds_def_t list \<Rightarrow> rpn_cdefds_t \<Rightarrow> string option" where
  "node_text ds c =
     (if c_op c = op_code OP_NUMBER then Some (show_int (c_val c))
      else if c_op c = op_code OP_VARIABLE then Some (ds_nam (ds ! nat (c_val c)))
      else (case op_of_code (c_op c) of None \<Rightarrow> None | Some x \<Rightarrow> map_of op_names x))"

fun compact2str_loop ::
  "ds_def_t list \<Rightarrow> nat \<Rightarrow> rpn_cdefds_t list \<Rightarrow> outbuf \<Rightarrow> outbuf option" where
  "compact2str_loop ds i [] b = None"
| "compact2str_loop ds i (c # cs) b =
     (if c_op c = op_code OP_END then put_char CHR 0x00 b
      else (case (if i > 0 then put_char CHR '','' b else Some b) of
              None \<Rightarrow> None
            | Some b1 \<Rightarrow>
                compact2str_loop ds (Suc i) cs
                  (case node_text ds c of None \<Rightarrow> b1 | Some s \<Rightarrow> addop2str s b1)))"

text \<open>The callers pass a null pointer, which is an allocation of no bytes.\<close>

definition rpn_compact2str :: "rpn_cdefds_t list \<Rightarrow> ds_def_t list \<Rightarrow> string option" where
  "rpn_compact2str rpnc ds =
     map_option (\<lambda>b. butlast (text_of b)) (compact2str_loop ds 0 rpnc \<lparr>text_of = [], room = 0\<rparr>)"

end
