(* ===== verification/Double_Order.thy ===== *)
theory Double_Order
  imports Double
begin

text \<open>
  Facts about rounding and order: a positive number never rounds to zero, the magnitude order
  is the order of the represented values, and a difference has the sign of the comparison.
\<close>

lemma round_half_even_bounds:
  assumes "0 < d"
  shows "n div d \<le> round_half_even n d" "round_half_even n d \<le> n div d + 1"
  by (auto simp: round_half_even_def Let_def)

lemma scale_num_pos [simp]: "0 < scale_num k"
  by (simp add: scale_num_def)

lemma round_mag_pos:
  assumes "0 < n" "- 1074 \<le> e"
  shows "0 < round_mag n 1 e"
proof -
  obtain m q where mq: "round_to 53 (- 1074) n 1 e = (m, q)" by (cases "round_to 53 (- 1074) n 1 e")
  then have q: "- 1074 \<le> q" and m: "m = round_half_even (n * scale_num (e - q)) (scale_num (q - e))"
    by (auto simp: round_to_def Let_def)
  have "0 \<le> n * scale_num (e - q) div scale_num (q - e)"
    using assms(1) by (intro pos_imp_zdiv_nonneg_iff [THEN iffD2]) (simp_all add: zero_le_mult_iff less_imp_le)
  then have m0: "0 \<le> m" using round_half_even_bounds(1) [of "scale_num (q - e)"] m by (metis order_trans scale_num_pos)
  have "0 < (q + 1074) * 2 ^ 52 + m"
  proof (cases "q = - 1074")
    case True
    then have "scale_num (q - e) = 1" using assms(2) by (auto simp: scale_num_def)
    then have "n * scale_num (e - q) \<le> m"
      using m round_half_even_bounds(1) [of 1 "n * scale_num (e - q)"] by simp
    moreover have "0 < n * scale_num (e - q)" using assms(1) by simp
    ultimately show ?thesis using True by simp
  next
    case False
    with q m0 show ?thesis by simp
  qed
  then show ?thesis
    using assms(1) mq by (simp add: round_mag_def inf_mag_def)
qed

lemma round_mag_le: "round_mag n d e \<le> inf_mag"
  by (auto simp: round_mag_def inf_mag_def split: prod.splits)

lemma round_mag_zero [simp]: "round_mag 0 d e = 0"
  by (simp add: round_mag_def)

lemma sig_exp_mono:
  assumes "0 \<le> a" "a < b" "sig_exp a = (sa, ea)" "sig_exp b = (sb, eb)" "e \<le> ea" "e \<le> eb"
  shows "sa * scale_num (ea - e) < sb * scale_num (eb - e)"
proof -
  have s: "scale_num (ea - e) = 2 ^ nat (ea - e)" "scale_num (eb - e) = 2 ^ nat (eb - e)"
    using assms by (simp_all add: scale_num_def)
  consider (sub) "b < 2 ^ 52" | (mixed) "a < 2 ^ 52" "2 ^ 52 \<le> b" | (norm) "2 ^ 52 \<le> a" "2 ^ 52 \<le> b"
    using assms(2) by linarith
  then show ?thesis
  proof cases
    case sub
    with assms s show ?thesis by (auto simp: sig_exp_def)
  next
    case mixed
    then have "1 \<le> b div 2 ^ 52" using zdiv_mono1 [of "2^52" b "2^52"] by simp
    with mixed assms have e: "sa < 2 ^ 52" "ea \<le> eb" "2 ^ 52 \<le> sb" by (auto simp: sig_exp_def)
    then have "sa < sb" "0 < sb" by simp_all
    moreover have "(2::int) ^ nat (ea - e) \<le> 2 ^ nat (eb - e)" using e by (intro power_increasing) auto
    ultimately show ?thesis unfolding s
      by (smt (verit) mult_less_cancel_right_pos mult_left_mono zero_less_power)
  next
    case norm
    have d: "a div 2 ^ 52 \<le> b div 2 ^ 52" using assms by (intro zdiv_mono1) auto
    from norm assms have v: "sa = 2 ^ 52 + a mod 2 ^ 52" "sb = 2 ^ 52 + b mod 2 ^ 52"
        "ea = a div 2 ^ 52 - 1075" "eb = b div 2 ^ 52 - 1075" by (auto simp: sig_exp_def)
    show ?thesis
    proof (cases "a div 2 ^ 52 = b div 2 ^ 52")
      case True
      have "a mod 2 ^ 52 < b mod 2 ^ 52"
        unfolding minus_div_mult_eq_mod [symmetric] True using assms(2) by simp
      with v True s show ?thesis by simp
    next
      case False
      with d have "a div 2 ^ 52 < b div 2 ^ 52" by linarith
      then have "ea < eb" using v(3,4) by linarith
      then have l: "nat (ea - e) < nat (eb - e)" using assms(5) by linarith
      have "sa < 2 * 2 ^ 52" "2 ^ 52 \<le> sb" using v by auto
      then have "sa * 2 ^ nat (ea - e) < 2 * 2 ^ 52 * 2 ^ nat (ea - e)" by simp
      also have "\<dots> = 2 ^ 52 * 2 ^ Suc (nat (ea - e))" by simp
      also have "\<dots> \<le> 2 ^ 52 * 2 ^ nat (eb - e)" using l by (intro mult_left_mono power_increasing) auto
      also have "\<dots> \<le> sb * 2 ^ nat (eb - e)" using \<open>2 ^ 52 \<le> sb\<close> by (intro mult_right_mono) auto
      finally show ?thesis unfolding s .
    qed
  qed
qed

lemma exp_of_ge: "- 1074 \<le> exp_of x"
  by (auto simp: exp_of_def sig_exp_def pos_imp_zdiv_pos_iff)

lemma sig_nonneg: "0 \<le> fst (sig_exp (mag x))"
  by (auto simp: sig_exp_def)

lemma mag_pos: "mag x \<noteq> 0 \<longleftrightarrow> 0 < mag x"
  using mag_nonneg [of x] by linarith

lemma signed_sig_mono:
  assumes "key x < key y" "e \<le> exp_of x" "e \<le> exp_of y"
  shows "signed_sig x * scale_num (exp_of x - e) < signed_sig y * scale_num (exp_of y - e)"
proof -
  obtain sx ex sy ey where se: "sig_exp (mag x) = (sx, ex)" "sig_exp (mag y) = (sy, ey)" by fastforce
  then have ee: "exp_of x = ex" "exp_of y = ey" by (simp_all add: exp_of_def)
  have nn: "0 \<le> sx" "0 \<le> sy" using sig_nonneg [of x] sig_nonneg [of y] se by simp_all
  have zx: "mag x = 0 \<Longrightarrow> sx = 0" and zy: "mag y = 0 \<Longrightarrow> sy = 0"
    using se by (auto simp: sig_exp_def)
  have px: "mag x \<noteq> 0 \<Longrightarrow> 0 < sx" and py: "mag y \<noteq> 0 \<Longrightarrow> 0 < sy"
    using se by (auto simp: mag_pos sig_exp_def add_pos_nonneg split: if_splits)
  have xy: "mag x < mag y \<Longrightarrow> sx * scale_num (ex - e) < sy * scale_num (ey - e)"
    using sig_exp_mono [OF mag_nonneg _ se] assms ee by simp
  have yx: "mag y < mag x \<Longrightarrow> sy * scale_num (ey - e) < sx * scale_num (ex - e)"
    using sig_exp_mono [OF mag_nonneg _ se(2,1)] assms ee by simp
  have P: "0 \<le> sx * scale_num (ex - e)" "0 \<le> sy * scale_num (ey - e)"
    using nn by (simp_all add: less_imp_le)
  have Q: "mag x \<noteq> 0 \<Longrightarrow> 0 < sx * scale_num (ex - e)" "mag y \<noteq> 0 \<Longrightarrow> 0 < sy * scale_num (ey - e)"
    using px py by simp_all
  show ?thesis
    using assms(1) xy yx P Q se ee mag_nonneg [of x] mag_nonneg [of y]
    by (cases "sign_of x"; cases "sign_of y"; cases "mag x = 0"; cases "mag y = 0")
       (auto simp: key_def signed_sig_def)
qed

lemma key_round_signed:
  assumes "- 1074 \<le> e"
  shows "\<not> isnan (round_signed z i e)" "key (round_signed z i e) < 0 \<longleftrightarrow> i < 0"
    "0 < key (round_signed z i e) \<longleftrightarrow> 0 < i"
proof -
  have b: "i \<noteq> 0 \<Longrightarrow> 0 < round_mag \<bar>i\<bar> 1 e" using round_mag_pos [of "\<bar>i\<bar>" e] assms by simp
  have m: "i \<noteq> 0 \<Longrightarrow> mag (round_signed z i e) = round_mag \<bar>i\<bar> 1 e"
    using b round_mag_le by (simp add: round_signed_def mag_mk_dbl_small less_imp_le)
  have m0: "i = 0 \<Longrightarrow> mag (round_signed z i e) = 0"
    by (simp add: round_signed_def mag_mk_dbl)
  have s: "i \<noteq> 0 \<Longrightarrow> sign_of (round_signed z i e) \<longleftrightarrow> i < 0"
    by (simp add: round_signed_def)
  show "\<not> isnan (round_signed z i e)"
    using m m0 round_mag_le [of "\<bar>i\<bar>" 1 e] by (cases "i = 0") (auto simp: isnan_def inf_mag_def)
  show "key (round_signed z i e) < 0 \<longleftrightarrow> i < 0" "0 < key (round_signed z i e) \<longleftrightarrow> 0 < i"
    using b m m0 s by (cases "i = 0"; auto simp: key_def)+
qed

lemma key_zero [simp]: "key 0 = 0"
  by (simp add: key_def mag_def sign_of_def)

text \<open>A difference is negative or positive exactly when its operands are ordered so: gradual
  underflow never rounds a difference of distinct values to zero.\<close>

lemma fsub_sign:
  assumes "\<not> isnan x" "\<not> isnan y"
  shows "flt (fsub x y) 0 \<longleftrightarrow> flt x y" "flt 0 (fsub x y) \<longleftrightarrow> flt y x"
proof -
  have sgn: "signed_sig (fneg y) = - signed_sig y" "exp_of (fneg y) = exp_of y"
    by (simp_all add: signed_sig_def exp_of_def)
  have "(flt (fsub x y) 0 \<longleftrightarrow> flt x y) \<and> (flt 0 (fsub x y) \<longleftrightarrow> flt y x)"
  proof (cases "isinf x \<or> isinf y")
    case True
    have lt: "\<not> isinf z \<Longrightarrow> \<not> isnan z \<Longrightarrow> - inf_mag < key z \<and> key z < inf_mag" for z
      using mag_nonneg [of z] unfolding isinf_def isnan_def key_def inf_mag_def
      by (cases "sign_of z"; simp only: if_True if_False; linarith)
    have ik: "isinf z \<Longrightarrow> key z = (if sign_of z then - inf_mag else inf_mag)" for z
      by (simp add: isinf_def key_def)
    have p: "0 < inf_mag" by (simp add: inf_mag_def)
    show ?thesis
    proof (cases "isinf x")
      case True
      note X = this
      show ?thesis
      proof (cases "isinf y")
        case True
        have "isinf (fneg y)" using True by (simp add: isinf_def)
        then show ?thesis using X True assms ik [of x] ik [of y] p
          by (cases "sign_of x"; cases "sign_of y") (auto simp: fsub_def fadd_def flt_def)
      next
        case False
        then have "\<not> isinf (fneg y)" by (simp add: isinf_def)
        then show ?thesis using X False assms ik [of x] lt [of y] p
          by (cases "sign_of x") (auto simp: fsub_def fadd_def flt_def)
      qed
    next
      case False
      with True have "isinf y" by simp
      then have "isinf (fneg y)" by (simp add: isinf_def)
      then show ?thesis using False \<open>isinf y\<close> assms ik [of y] lt [of x] p
        by (cases "sign_of y") (auto simp: fsub_def fadd_def flt_def key_fneg)
    qed
  next
    case False
    then have ni: "\<not> isinf x" "\<not> isinf (fneg y)" by (auto simp: isinf_def)
    define e where "e = min (exp_of x) (exp_of y)"
    define i where "i = signed_sig x * scale_num (exp_of x - e) - signed_sig y * scale_num (exp_of y - e)"
    have "fsub x y = round_signed (sign_of x \<and> \<not> sign_of y) i e"
      using assms ni by (simp add: fsub_def fadd_def Let_def sgn e_def i_def)
    moreover have "- 1074 \<le> e" using exp_of_ge by (simp add: e_def)
    moreover have "i < 0 \<longleftrightarrow> key x < key y" "0 < i \<longleftrightarrow> key y < key x"
    proof -
      have 1: "key x < key y \<Longrightarrow> i < 0" using signed_sig_mono [of x y e] by (simp add: i_def e_def)
      have 2: "key y < key x \<Longrightarrow> 0 < i" using signed_sig_mono [of y x e] by (simp add: i_def e_def)
      have 3: "key x = key y \<Longrightarrow> i = 0"
      proof -
        assume k: "key x = key y"
        have mm: "mag x = mag y"
        proof (cases "sign_of x = sign_of y")
          case True
          with k show ?thesis by (auto simp: key_def split: if_splits)
        next
          case False
          then have "mag x + mag y = 0" using k by (auto simp: key_def split: if_splits)
          then show ?thesis using mag_nonneg [of x] mag_nonneg [of y] by linarith
        qed
        moreover have "sign_of x = sign_of y \<or> mag x = 0"
          using k mm by (auto simp: key_def split: if_splits)
        ultimately show ?thesis by (auto simp: i_def e_def signed_sig_def exp_of_def sig_exp_def)
      qed
      show "i < 0 \<longleftrightarrow> key x < key y" "0 < i \<longleftrightarrow> key y < key x"
        by (cases "key x" "key y" rule: linorder_cases; use 1 2 3 in force)+
    qed
    ultimately show ?thesis using assms key_round_signed by (simp add: flt_def)
  qed
  then show "flt (fsub x y) 0 \<longleftrightarrow> flt x y" "flt 0 (fsub x y) \<longleftrightarrow> flt y x" by simp_all
qed

end
