(* ===== verification/Rpn_Calc.thy ===== *)
theory Rpn_Calc
  imports Rpn_Program Double_Order "HOL-Library.Multiset"
begin

text \<open>
  The calculator \<open>rpn_calc\<close> of \<open>rrd_rpncalc.c\<close>. The stack memory is the list of its used
  cells, the top first, together with the number of cells allocated; \<open>stptr\<close> is the length of
  the list minus one. A node's \<open>data\<close> pointer is an array and an index, and a read outside the
  array, a division by zero or a call of the C library outside its contract is the outcome
  \<open>RCrash\<close>. \<open>RErr\<close> is a return of -1 with its message.
\<close>

datatype 'a rpn_res = ROk 'a | RErr string | RCrash

fun rbind :: "'a rpn_res \<Rightarrow> ('a \<Rightarrow> 'b rpn_res) \<Rightarrow> 'b rpn_res" where
  "rbind (ROk x) f = f x"
| "rbind (RErr m) f = RErr m"
| "rbind RCrash f = RCrash"

text \<open>What the calculator reads from its surroundings.\<close>

record rpn_env =
  env_libm :: libm
  env_zone :: tzone
  env_now :: int

definition underflow :: "'a rpn_res" where
  "underflow = RErr ''RPN stack underflow''"

text \<open>\<open>stackunderflow (MINSIZE)\<close> with \<open>stptr\<close> one less than the number of cells in use.\<close>

definition stack_below :: "'a list \<Rightarrow> int \<Rightarrow> bool" where
  "stack_below st m \<longleftrightarrow> int (length st) - 1 < m"

fun un1 :: "(dbl \<Rightarrow> dbl) \<Rightarrow> dbl list \<Rightarrow> dbl list rpn_res" where
  "un1 f (x # st) = ROk (f x # st)"
| "un1 f _ = underflow"

fun bin :: "(dbl \<Rightarrow> dbl \<Rightarrow> dbl) \<Rightarrow> dbl list \<Rightarrow> dbl list rpn_res" where
  "bin f (y # x # st) = ROk (f x y # st)"
| "bin f _ = underflow"

fun tri :: "(dbl \<Rightarrow> dbl \<Rightarrow> dbl \<Rightarrow> dbl) \<Rightarrow> dbl list \<Rightarrow> dbl list rpn_res" where
  "tri f (z # y # x # st) = ROk (f x y z # st)"
| "tri f _ = underflow"

section \<open>Operands\<close>

definition deref :: "dbl list \<Rightarrow> int \<Rightarrow> dbl option" where
  "deref a k = (if 0 \<le> k \<and> k < int (length a) then Some (a ! nat k) else None)"

text \<open>The offset of local time from UTC.\<close>

definition tzoffset :: "tzone \<Rightarrow> int \<Rightarrow> int" where
  "tzoffset z now =
     (let g = gmtime now; l = localtime z now;
          off = (tm_sec l - tm_sec g) + (tm_min l - tm_min g) * 60
                + (tm_hour l - tm_hour g) * 3600
      in if tm_yday l > tm_yday g \<or> tm_year l > tm_year g then off + 24 * 3600
         else if tm_yday l < tm_yday g \<or> tm_year l < tm_year g then off - 24 * 3600
         else off)"

text \<open>The operators that push: the node may change, because reading a variable moves its
  data pointer one row on when the index is a multiple of its step.\<close>

definition push_variable ::
  "int \<Rightarrow> int \<Rightarrow> rpnp_t \<Rightarrow> dbl list \<Rightarrow> (rpnp_t \<times> dbl list) rpn_res" where
  "push_variable data_idx output_idx n st =
     (if r_ds_cnt n = 0 then RErr ''VDEF made it into rpn_calc... aborting''
      else
        (case (if op n = OP_VARIABLE then deref (data n) (data_pos n)
               else if output_idx \<le> 0 then Some DNAN
               else deref (data n) (data_pos n - r_ds_cnt n)) of
           None \<Rightarrow> RCrash
         | Some v \<Rightarrow>
             (if step n = 0 then RCrash
              else ROk (if data_idx mod step n = 0
                        then n\<lparr>data_pos := data_pos n + r_ds_cnt n\<rparr> else n, v # st))))"

definition rpn_push ::
  "rpn_env \<Rightarrow> int \<Rightarrow> dbl list \<Rightarrow> int \<Rightarrow> rpnp_t \<Rightarrow> dbl list \<Rightarrow> (rpnp_t \<times> dbl list) rpn_res" where
  "rpn_push env data_idx output output_idx n st =
     (case op n of
        OP_NUMBER \<Rightarrow> ROk (n, val n # st)
      | OP_VARIABLE \<Rightarrow> push_variable data_idx output_idx n st
      | OP_PREV_OTHER \<Rightarrow> push_variable data_idx output_idx n st
      | OP_COUNT \<Rightarrow> ROk (n, dbl_of_int (wrap_int (output_idx + 1)) # st)
      | OP_PREV \<Rightarrow>
          (if output_idx \<le> 0 then ROk (n, DNAN # st)
           else (case deref output (output_idx - 1) of
                   None \<Rightarrow> RCrash | Some v \<Rightarrow> ROk (n, v # st)))
      | OP_UNKN \<Rightarrow> ROk (n, DNAN # st)
      | OP_INF \<Rightarrow> ROk (n, DINF # st)
      | OP_NEGINF \<Rightarrow> ROk (n, fneg DINF # st)
      | OP_NOW \<Rightarrow> ROk (n, dbl_of_int (env_now env) # st)
      | OP_TIME \<Rightarrow> ROk (n, dbl_of_int data_idx # st)
      | OP_LTIME \<Rightarrow>
          ROk (n, fadd (dbl_of_int (tzoffset (env_zone env) data_idx)) (dbl_of_int data_idx) # st)
      | _ \<Rightarrow> RCrash)"

section \<open>Arithmetic and comparison\<close>

definition addnan :: "dbl \<Rightarrow> dbl \<Rightarrow> dbl" where
  "addnan x y = (if isnan x then y else if isnan y then x else fadd x y)"

definition rpn_arith :: "rpn_env \<Rightarrow> op_en \<Rightarrow> dbl list \<Rightarrow> dbl list rpn_res" where
  "rpn_arith env x st =
     (case x of
        OP_ADD \<Rightarrow> bin fadd st
      | OP_ADDNAN \<Rightarrow> bin addnan st
      | OP_SUB \<Rightarrow> bin fsub st
      | OP_MUL \<Rightarrow> bin fmul st
      | OP_DIV \<Rightarrow> bin fdiv st
      | OP_MOD \<Rightarrow> bin ffmod st
      | OP_SIN \<Rightarrow> un1 (lm_sin (env_libm env)) st
      | OP_ATAN \<Rightarrow> un1 (lm_atan (env_libm env)) st
      | OP_RAD2DEG \<Rightarrow> un1 (fmul (dlit 5729577951 (10 ^ 8))) st
      | OP_DEG2RAD \<Rightarrow> un1 (fmul (dlit 174532952 (10 ^ 10))) st
      | OP_ATAN2 \<Rightarrow> bin (lm_atan2 (env_libm env)) st
      | OP_COS \<Rightarrow> un1 (lm_cos (env_libm env)) st
      | OP_CEIL \<Rightarrow> un1 fceil st
      | OP_FLOOR \<Rightarrow> un1 ffloor st
      | OP_LOG \<Rightarrow> un1 (lm_log (env_libm env)) st
      | OP_DUP \<Rightarrow> (case st of v # _ \<Rightarrow> ROk (v # st) | [] \<Rightarrow> underflow)
      | OP_POP \<Rightarrow> (case st of _ # st' \<Rightarrow> ROk st' | [] \<Rightarrow> underflow)
      | OP_EXC \<Rightarrow> (case st of v # w # st' \<Rightarrow> ROk (w # v # st') | _ \<Rightarrow> underflow)
      | OP_EXP \<Rightarrow> un1 (lm_exp (env_libm env)) st
      | _ \<Rightarrow> RCrash)"

text \<open>A comparison yields an unknown operand, the left one first, or 1.0 or 0.0.\<close>

definition rpn_compare :: "(dbl \<Rightarrow> dbl \<Rightarrow> bool) \<Rightarrow> dbl \<Rightarrow> dbl \<Rightarrow> dbl" where
  "rpn_compare p x y = (if isnan x then x else if isnan y then y else if p x y then D1 else 0)"

definition rpn_if :: "dbl \<Rightarrow> dbl \<Rightarrow> dbl \<Rightarrow> dbl" where
  "rpn_if c a b = (if isnan c \<or> feq c 0 then b else a)"

definition rpn_min :: "dbl \<Rightarrow> dbl \<Rightarrow> dbl" where
  "rpn_min x y = (if isnan x then x else if isnan y then y else if fgt x y then y else x)"

definition rpn_max :: "dbl \<Rightarrow> dbl \<Rightarrow> dbl" where
  "rpn_max x y = (if isnan x then x else if isnan y then y else if flt x y then y else x)"

definition rpn_limit :: "dbl \<Rightarrow> dbl \<Rightarrow> dbl \<Rightarrow> dbl" where
  "rpn_limit v lo hi =
     (if isnan v then v else if isnan lo then lo else if isnan hi then hi
      else if flt v lo then DNAN else if fgt v hi then DNAN else v)"

definition rpn_logic :: "rpn_env \<Rightarrow> op_en \<Rightarrow> dbl list \<Rightarrow> dbl list rpn_res" where
  "rpn_logic env x st =
     (case x of
        OP_LT \<Rightarrow> bin (rpn_compare flt) st
      | OP_LE \<Rightarrow> bin (rpn_compare fle) st
      | OP_GT \<Rightarrow> bin (rpn_compare fgt) st
      | OP_GE \<Rightarrow> bin (rpn_compare fge) st
      | OP_NE \<Rightarrow> bin (rpn_compare (\<lambda>a b. \<not> feq a b)) st
      | OP_EQ \<Rightarrow> bin (rpn_compare feq) st
      | OP_IF \<Rightarrow> tri rpn_if st
      | OP_MIN \<Rightarrow> bin rpn_min st
      | OP_MAX \<Rightarrow> bin rpn_max st
      | OP_LIMIT \<Rightarrow> tri rpn_limit st
      | OP_UN \<Rightarrow> un1 (\<lambda>v. if isnan v then D1 else 0) st
      | OP_ISINF \<Rightarrow> un1 (\<lambda>v. if isinf v then D1 else 0) st
      | OP_SQRT \<Rightarrow> un1 (lm_sqrt (env_libm env)) st
      | OP_ABS \<Rightarrow> un1 fabs st
      | _ \<Rightarrow> RCrash)"

section \<open>Sorting, reversing, averaging\<close>

definition rpn_compare_double :: "dbl \<Rightarrow> dbl \<Rightarrow> int" where
  "rpn_compare_double x y =
     (let diff = fsub x y in if flt diff 0 then - 1 else if fgt diff 0 then 1 else 0)"

text \<open>\<open>qsort\<close> of the C library: a merge sort that splits in the middle and prefers the left
  half on ties.\<close>

fun qsort_merge :: "('a \<Rightarrow> 'a \<Rightarrow> int) \<Rightarrow> 'a list \<Rightarrow> 'a list \<Rightarrow> 'a list" where
  "qsort_merge cmp [] ys = ys"
| "qsort_merge cmp xs [] = xs"
| "qsort_merge cmp (x # xs) (y # ys) =
     (if cmp x y \<le> 0 then x # qsort_merge cmp xs (y # ys) else y # qsort_merge cmp (x # xs) ys)"

fun qsort :: "('a \<Rightarrow> 'a \<Rightarrow> int) \<Rightarrow> 'a list \<Rightarrow> 'a list" where
  "qsort cmp xs =
     (if length xs \<le> 1 then xs
      else qsort_merge cmp (qsort cmp (take (length xs div 2) xs))
                           (qsort cmp (drop (length xs div 2) xs)))"

declare qsort.simps [simp del]

lemma mset_qsort_merge: "mset (qsort_merge cmp xs ys) = mset xs + mset ys"
  by (induction cmp xs ys rule: qsort_merge.induct) auto

lemma mset_qsort: "mset (qsort cmp xs) = mset xs"
proof (induction cmp xs rule: qsort.induct)
  case (1 cmp xs)
  show ?case
    by (subst qsort.simps) (auto simp: 1 mset_qsort_merge simp flip: mset_append)
qed

lemma merge_induct [case_names nil_left nil_right both]:
  fixes cmp :: "'a \<Rightarrow> 'a \<Rightarrow> int"
  assumes "\<And>ys. P [] ys" "\<And>x xs. P (x # xs) []"
    and "\<And>x xs y ys. (cmp x y \<le> 0 \<Longrightarrow> P xs (y # ys)) \<Longrightarrow> (\<not> cmp x y \<le> 0 \<Longrightarrow> P (x # xs) ys) \<Longrightarrow>
           P (x # xs) (y # ys)"
  shows "P xs ys"
proof -
  have "c = cmp \<Longrightarrow> P xs ys" for c
  proof (induction c xs ys rule: qsort_merge.induct)
    case (3 c x xs y ys)
    then show ?case using assms(3) [of x y xs ys] by blast
  qed (auto intro: assms(1,2))
  then show ?thesis by simp
qed

lemma set_qsort: "set (qsort cmp xs) = set xs"
  using mset_qsort by (metis set_mset_mset)

text \<open>What \<open>qsort\<close> needs of its comparison function, on the values it is called with, to sort by
  an order: the function may call equal values greater in both directions.\<close>

locale sorter =
  fixes cmp :: "'a \<Rightarrow> 'a \<Rightarrow> int" and le :: "'a \<Rightarrow> 'a \<Rightarrow> bool" and ok :: "'a \<Rightarrow> bool"
  assumes le_trans: "ok x \<Longrightarrow> ok y \<Longrightarrow> ok z \<Longrightarrow> le x y \<Longrightarrow> le y z \<Longrightarrow> le x z"
    and cmp_le: "ok x \<Longrightarrow> ok y \<Longrightarrow> cmp x y \<le> 0 \<Longrightarrow> le x y"
    and cmp_gt: "ok x \<Longrightarrow> ok y \<Longrightarrow> \<not> cmp x y \<le> 0 \<Longrightarrow> le y x"
begin

lemma set_merge: "set (qsort_merge cmp xs ys) = set xs \<union> set ys"
  by (induction cmp xs ys rule: qsort_merge.induct) auto

lemma merge_sorted:
  "sorted_wrt le xs \<Longrightarrow> sorted_wrt le ys \<Longrightarrow> \<forall>x \<in> set xs. ok x \<Longrightarrow> \<forall>y \<in> set ys. ok y \<Longrightarrow>
     sorted_wrt le (qsort_merge cmp xs ys)"
proof (induction xs ys rule: merge_induct [where cmp = cmp])
  case (both x xs y ys)
  have o: "\<forall>z \<in> set xs. le x z" "\<forall>z \<in> set ys. le y z" "sorted_wrt le xs" "sorted_wrt le ys"
    using both.prems(1,2) by simp_all
  have k: "ok x" "ok y" "\<forall>z \<in> set xs. ok z" "\<forall>z \<in> set ys. ok z" using both.prems(3,4) by simp_all
  show ?case
  proof (cases "cmp x y \<le> 0")
    case True
    then have xy: "le x y" using cmp_le [of x y] k by simp
    have "le x z" if "z \<in> set ys" for z
      by (rule le_trans [of x y z]) (use that o k xy in simp_all)
    with True xy o both.IH(1) both.prems show ?thesis by (simp add: set_merge) blast
  next
    case False
    then have yx: "le y x" using cmp_gt [of x y] k by simp
    have "le y z" if "z \<in> set xs" for z
      by (rule le_trans [of y x z]) (use that o k yx in simp_all)
    with False yx o both.IH(2) both.prems show ?thesis by (simp add: set_merge) blast
  qed
qed auto

lemma qsort_sorted: "\<forall>x \<in> set xs. ok x \<Longrightarrow> sorted_wrt le (qsort cmp xs)"
proof (induction "length xs" arbitrary: xs rule: less_induct)
  case less
  show ?case
  proof (cases "length xs \<le> 1")
    case True
    then show ?thesis by (subst qsort.simps) (cases xs; auto)
  next
    case False
    let ?a = "take (length xs div 2) xs" and ?b = "drop (length xs div 2) xs"
    from less.prems have "\<forall>x \<in> set ?a. ok x" "\<forall>x \<in> set ?b. ok x"
      by (auto dest: in_set_takeD in_set_dropD)
    moreover from this False have "sorted_wrt le (qsort cmp ?a)" "sorted_wrt le (qsort cmp ?b)"
      by (auto intro!: less.hyps)
    ultimately have "sorted_wrt le (qsort_merge cmp (qsort cmp ?a) (qsort cmp ?b))"
      by (intro merge_sorted) (auto simp: set_qsort)
    with False show ?thesis by (subst qsort.simps) simp
  qed
qed

end

text \<open>The contract of the C library, where the function itself is the order, gives that.\<close>

locale comparator =
  fixes cmp :: "'a \<Rightarrow> 'a \<Rightarrow> int" and ok :: "'a \<Rightarrow> bool"
  assumes cmp_trans: "ok x \<Longrightarrow> ok y \<Longrightarrow> ok z \<Longrightarrow> cmp x y \<le> 0 \<Longrightarrow> cmp y z \<le> 0 \<Longrightarrow> cmp x z \<le> 0"
    and cmp_total: "ok x \<Longrightarrow> ok y \<Longrightarrow> \<not> cmp x y \<le> 0 \<Longrightarrow> cmp y x \<le> 0"

sublocale comparator \<subseteq> by_cmp: sorter cmp "\<lambda>x y. cmp x y \<le> 0" ok
  by unfold_locales (auto intro: cmp_trans cmp_total)

context comparator
begin

lemma qsort_ordered: "\<forall>x \<in> set xs. ok x \<Longrightarrow> sorted_wrt (\<lambda>x y. cmp x y \<le> 0) (qsort cmp xs)"
  by (rule by_cmp.qsort_sorted)

end

lemma rpn_compare_double_le:
  "\<not> isnan x \<Longrightarrow> \<not> isnan y \<Longrightarrow> rpn_compare_double x y \<le> 0 \<longleftrightarrow> fle x y"
  by (simp add: rpn_compare_double_def Let_def fsub_sign) (auto simp: flt_def fle_def)

text \<open>The comparison of doubles meets the contract on values that are not NaN.\<close>

interpretation dcmp: comparator rpn_compare_double "\<lambda>x. \<not> isnan x"
  by unfold_locales (auto simp: rpn_compare_double_le fle_def)

text \<open>The cells the cnt on top of the stack names, in memory order (the top is last). A
  negative cnt passes the underflow test; \<open>qsort\<close> then gets it as an unsigned size.\<close>

definition rpn_sort :: "dbl list \<Rightarrow> dbl list rpn_res" where
  "rpn_sort st0 =
     (case st0 of [] \<Rightarrow> underflow
      | tp # st \<Rightarrow>
          (let spn = dbl_to_int tp in
           if stack_below st (wrap_int (spn - 1)) then underflow
           else if spn < 0 then RCrash
           else ROk (rev (qsort rpn_compare_double (rev (take (nat spn) st)))
                     @ drop (nat spn) st)))"

definition rpn_rev :: "dbl list \<Rightarrow> dbl list rpn_res" where
  "rpn_rev st0 =
     (case st0 of [] \<Rightarrow> underflow
      | tp # st \<Rightarrow>
          (let spn = dbl_to_int tp in
           if stack_below st (wrap_int (spn - 1)) then underflow
           else ROk (rev (take (nat spn) st) @ drop (nat spn) st)))"

fun avg_loop :: "dbl list \<Rightarrow> dbl \<Rightarrow> int \<Rightarrow> dbl \<times> int" where
  "avg_loop [] tot cnt = (tot, cnt)"
| "avg_loop (v # vs) tot cnt =
     (if isnan v then avg_loop vs tot cnt else avg_loop vs (fadd tot v) (cnt + 1))"

definition rpn_avg :: "dbl list \<Rightarrow> dbl list rpn_res" where
  "rpn_avg st0 =
     (case st0 of [] \<Rightarrow> underflow
      | tp # st \<Rightarrow>
          (let i = dbl_to_int tp in
           if stack_below st (wrap_int (i - 1)) then underflow
           else (case avg_loop (take (nat i) st) 0 0 of (tot, cnt) \<Rightarrow>
                   ROk ((if cnt > 0 then fdiv tot (dbl_of_int cnt) else DNAN)
                        # drop (nat i) st))))"

section \<open>Trends and predictions\<close>

text \<open>\<open>(int) ceil ((float) a / (float) b)\<close>.\<close>

definition ceil_ratio :: "int \<Rightarrow> int \<Rightarrow> int" where
  "ceil_ratio a b = dbl_to_int (fceil (f32_div (f32_of_int a) (f32_of_int b)))"

text \<open>The rows behind the data pointer, newest first, while time is left. Without a positive
  step the loop walks out of the array.\<close>

function trend_loop ::
  "rpnp_t \<Rightarrow> bool \<Rightarrow> int \<Rightarrow> int \<Rightarrow> int \<Rightarrow> dbl \<Rightarrow> int \<Rightarrow> (dbl \<times> int) rpn_res" where
  "trend_loop n ignorenan stp dur i accum cnt =
     (case deref (data n) (data_pos n + r_ds_cnt n * i) of
        None \<Rightarrow> RCrash
      | Some v \<Rightarrow>
          (let take_it = (ignorenan \<or> \<not> isnan v);
               accum' = (if take_it then fadd accum v else accum);
               cnt' = (if take_it then cnt + 1 else cnt)
           in if dur - stp \<le> 0 then ROk (accum', cnt')
              else if stp \<le> 0 then RCrash
              else trend_loop n ignorenan stp (dur - stp) (i - 1) accum' cnt'))"
  by pat_completeness auto
termination
  by (relation "measure (\<lambda>(n, ig, stp, dur, i, a, c). nat dur)") auto

declare trend_loop.simps [simp del]

definition rpn_trend :: "rpnp_t list \<Rightarrow> nat \<Rightarrow> int \<Rightarrow> dbl list \<Rightarrow> dbl list rpn_res" where
  "rpn_trend rpnp rpi output_idx st =
     (case st of
        tp # v # st' \<Rightarrow>
          (if rpi < 2 \<or> op (rpnp ! (rpi - 2)) \<noteq> OP_VARIABLE then RErr ''malformed trend arguments''
           else
             (let n = rpnp ! (rpi - 2); dur = dbl_to_long tp; stp = step n in
              if output_idx > ceil_ratio dur stp then
                rbind (trend_loop n (op (rpnp ! rpi) = OP_TREND) stp dur 0 0 0)
                  (\<lambda>(accum, cnt).
                     ROk ((if cnt = 0 then DNAN else fdiv accum (dbl_of_int cnt)) # st'))
              else ROk (DNAN # st')))
      | _ \<Rightarrow> underflow)"

text \<open>One window of a prediction: the known values at the offsets \<open>shiftstep + i\<close> behind the
  data pointer.\<close>

fun predict_window ::
  "rpnp_t \<Rightarrow> int \<Rightarrow> int \<Rightarrow> int list \<Rightarrow> dbl \<times> dbl \<times> int \<Rightarrow> (dbl \<times> dbl \<times> int) rpn_res" where
  "predict_window n output_idx shiftstep [] acc = ROk acc"
| "predict_window n output_idx shiftstep (i # is) (tot, tot2, cnt) =
     (let offset = wrap_int (shiftstep + i) in
      if 0 \<le> offset \<and> offset < output_idx then
        (case deref (data n) (data_pos n - wrap_int (r_ds_cnt n) * offset) of
           None \<Rightarrow> RCrash
         | Some v \<Rightarrow>
             predict_window n output_idx shiftstep is
               (if isnan v then (tot, tot2, cnt)
                else (fadd tot v, fadd tot2 (fmul v v), cnt + 1)))
      else predict_window n output_idx shiftstep is (tot, tot2, cnt))"

text \<open>\<open>shifts\<close> gives the shift of each window, already as the \<open>int\<close> the code converts it
  to.\<close>

fun predict_shifts ::
  "rpnp_t \<Rightarrow> int \<Rightarrow> int \<Rightarrow> int list \<Rightarrow> dbl \<times> dbl \<times> int \<Rightarrow> (dbl \<times> dbl \<times> int) rpn_res" where
  "predict_shifts n output_idx locstep [] acc = ROk acc"
| "predict_shifts n output_idx locstep (shiftstep # ss) acc =
     (if shiftstep < 0
      then RErr (''negative shift step not allowed: '' @ show_int shiftstep)
      else rbind (predict_window n output_idx (ceil_ratio shiftstep (step n)) [0..locstep] acc)
             (predict_shifts n output_idx locstep ss))"

definition predict_result :: "libm \<Rightarrow> op_en \<Rightarrow> dbl \<times> dbl \<times> int \<Rightarrow> dbl" where
  "predict_result lm x acc =
     (case acc of (tot, tot2, cnt) \<Rightarrow>
        if x = OP_PREDICT then (if cnt > 0 then fdiv tot (dbl_of_int cnt) else DNAN)
        else if cnt > 1 then
          (let v = fsub (fmul (dbl_of_int cnt) tot2) (fmul tot tot) in
           if flt v 0 then DNAN
           else lm_sqrt lm (fdiv v (fmul (f32_of_int cnt) (fsub (f32_of_int cnt) D1))))
        else DNAN)"

text \<open>The stack holds the shifts, their number, the window and the value of the source, top
  last; a negative number of shifts means that one cell below it holds a multiplier.\<close>

definition rpn_predict :: "rpn_env \<Rightarrow> rpnp_t list \<Rightarrow> nat \<Rightarrow> int \<Rightarrow> dbl list \<Rightarrow> dbl list rpn_res" where
  "rpn_predict env rpnp rpi output_idx st =
     (case st of
        _ # window # number # rest \<Rightarrow>
          (let locstepsize = dbl_to_int window; shifts = dbl_to_int number in
           if stack_below (number # rest) shifts then underflow
           else if shifts < 0 \<and> rest = [] then RCrash
           else if rpi = 0 then RCrash
           else
             (let n = rpnp ! (rpi - 1);
                  locstep = ceil_ratio locstepsize (step n);
                  ss = (if shifts < 0
                        then map (\<lambda>k. dbl_to_int (fmul (dbl_of_int k) (hd rest)))
                               [0..wrap_int (- shifts) - 1]
                        else map dbl_to_int (rev (take (nat shifts) rest)));
                  below = (if shifts < 0 then tl rest
                           else drop (nat shifts) rest)
              in rbind (predict_shifts n output_idx locstep ss (0, 0, 0))
                   (\<lambda>acc. ROk (predict_result (env_libm env) (op (rpnp ! rpi)) acc # below))))
      | _ \<Rightarrow> underflow)"

section \<open>The machine\<close>

record rpn_state =
  nodes :: "rpnp_t list"
  stk :: "dbl list"
  dc_stacksize :: int

definition dc_stackblock :: int where "dc_stackblock = 100"

definition is_push_op :: "op_en \<Rightarrow> bool" where
  "is_push_op x \<longleftrightarrow> x \<in> set [OP_NUMBER, OP_VARIABLE, OP_PREV_OTHER, OP_COUNT, OP_PREV, OP_UNKN,
     OP_INF, OP_NEGINF, OP_NOW, OP_TIME, OP_LTIME]"

definition is_arith_op :: "op_en \<Rightarrow> bool" where
  "is_arith_op x \<longleftrightarrow> x \<in> set [OP_ADD, OP_ADDNAN, OP_SUB, OP_MUL, OP_DIV, OP_MOD, OP_SIN,
     OP_ATAN, OP_RAD2DEG, OP_DEG2RAD, OP_ATAN2, OP_COS, OP_CEIL, OP_FLOOR, OP_LOG, OP_DUP,
     OP_POP, OP_EXC, OP_EXP]"

text \<open>Grow the stack when fewer than four cells are free above the top.\<close>

definition grow :: "rpn_state \<Rightarrow> rpn_state" where
  "grow s = (if int (length (stk s)) - 1 + 5 > dc_stacksize s
             then s\<lparr>dc_stacksize := dc_stacksize s + dc_stackblock\<rparr> else s)"

definition rpn_op ::
  "rpn_env \<Rightarrow> int \<Rightarrow> dbl list \<Rightarrow> int \<Rightarrow> nat \<Rightarrow> rpn_state \<Rightarrow> rpn_state rpn_res" where
  "rpn_op env data_idx output output_idx rpi s =
     (let n = nodes s ! rpi; x = op n; st = stk s;
          put = (\<lambda>st'. ROk (s\<lparr>stk := st'\<rparr>)) in
      if is_push_op x then
        rbind (rpn_push env data_idx output output_idx n st)
          (\<lambda>(n', st'). ROk (s\<lparr>nodes := (nodes s)[rpi := n'], stk := st'\<rparr>))
      else if is_arith_op x then rbind (rpn_arith env x st) put
      else if x = OP_SORT then rbind (rpn_sort st) put
      else if x = OP_REV then rbind (rpn_rev st) put
      else if x = OP_PREDICT \<or> x = OP_PREDICTSIGMA
      then rbind (rpn_predict env (nodes s) rpi output_idx st) put
      else if x = OP_TREND \<or> x = OP_TRENDNAN
      then rbind (rpn_trend (nodes s) rpi output_idx st) put
      else if x = OP_AVG then rbind (rpn_avg st) put
      else rbind (rpn_logic env x st) put)"

text \<open>The loop over the nodes up to the terminator.\<close>

function rpn_loop ::
  "rpn_env \<Rightarrow> int \<Rightarrow> dbl list \<Rightarrow> int \<Rightarrow> nat \<Rightarrow> rpn_state
     \<Rightarrow> (string option \<times> rpn_state) option" where
  "rpn_loop env data_idx output output_idx rpi s =
     (if length (nodes s) \<le> rpi then None
      else if op (nodes s ! rpi) = OP_END then Some (None, s)
      else (case rpn_op env data_idx output output_idx rpi (grow s) of
              ROk s' \<Rightarrow> (if length (nodes s') = length (nodes s)
                          then rpn_loop env data_idx output output_idx (Suc rpi) s' else None)
            | RErr m \<Rightarrow> Some (Some m, grow s)
            | RCrash \<Rightarrow> None))"
  by pat_completeness auto
termination
  by (relation "measure (\<lambda>(env, d, out, oi, rpi, s). length (nodes s) - rpi)") auto

declare rpn_loop.simps [simp del]

text \<open>The function: \<open>None\<close> is undefined behaviour, otherwise the return value, the nodes, the
  size of the stack, the output array and the library state.\<close>

definition rpn_calc ::
  "rpn_env \<Rightarrow> rpnp_t list \<Rightarrow> int \<Rightarrow> int \<Rightarrow> dbl list \<Rightarrow> int \<Rightarrow> 'a ctx_scheme
     \<Rightarrow> (int \<times> rpnp_t list \<times> int \<times> dbl list \<times> 'a ctx_scheme) option" where
  "rpn_calc env rpnp stacksize data_idx output output_idx c =
     (case rpn_loop env data_idx output output_idx 0
             \<lparr>nodes = rpnp, stk = [], dc_stacksize = stacksize\<rparr> of
        None \<Rightarrow> None
      | Some (Some m, s) \<Rightarrow> Some (- 1, nodes s, dc_stacksize s, output, rrd_set_error m c)
      | Some (None, s) \<Rightarrow>
          (if length (stk s) \<noteq> 1
           then Some (- 1, nodes s, dc_stacksize s, output,
                      rrd_set_error ''RPN final stack size != 1'' c)
           else if 0 \<le> output_idx \<and> output_idx < int (length output)
           then Some (0, nodes s, dc_stacksize s, output[nat output_idx := hd (stk s)], c)
           else None))"

section \<open>The states of a run\<close>

text \<open>The machine as a step relation: the states the loop passes through.\<close>

inductive rpn_reach ::
  "rpn_env \<Rightarrow> int \<Rightarrow> dbl list \<Rightarrow> int \<Rightarrow> rpn_state \<Rightarrow> nat \<Rightarrow> rpn_state \<Rightarrow> bool"
  for env d out oi s0 where
  reach_start: "rpn_reach env d out oi s0 0 s0"
| reach_step: "rpn_reach env d out oi s0 rpi s \<Longrightarrow> rpi < length (nodes s) \<Longrightarrow>
     op (nodes s ! rpi) \<noteq> OP_END \<Longrightarrow>
     rpn_op env d out oi rpi (grow s) = ROk s' \<Longrightarrow>
     rpn_reach env d out oi s0 (Suc rpi) s'"

inductive_cases rpn_reach_SucE: "rpn_reach env d out oi s0 (Suc rpi) s"

lemma rbind_ROk: "rbind r f = ROk x \<longleftrightarrow> (\<exists>y. r = ROk y \<and> f y = ROk x)"
  by (cases r) auto

lemma un1_height: "un1 f st = ROk st' \<Longrightarrow> length st' = length st"
  by (cases st) (auto simp: underflow_def)

lemma bin_height: "bin f st = ROk st' \<Longrightarrow> Suc (length st') = length st"
  by (induction f st rule: bin.induct) (auto simp: underflow_def)

lemma tri_height: "tri f st = ROk st' \<Longrightarrow> Suc (Suc (length st')) = length st"
  by (induction f st rule: tri.induct) (auto simp: underflow_def)

lemma rpn_push_height:
  "rpn_push env d out oi n st = ROk (n', st') \<Longrightarrow> length st' = Suc (length st)"
  by (cases "op n")
     (auto simp: rpn_push_def push_variable_def Let_def split: option.splits if_splits)

lemma le_Suc_of: "a = b \<Longrightarrow> a \<le> Suc b" "Suc a = b \<Longrightarrow> a \<le> Suc b" "Suc (Suc a) = b \<Longrightarrow> a \<le> Suc b"
  by simp_all

lemma rpn_arith_height: "rpn_arith env x st = ROk st' \<Longrightarrow> length st' \<le> Suc (length st)"
  by (cases x)
     (auto simp: rpn_arith_def underflow_def intro: le_Suc_of dest!: un1_height bin_height
        split: list.splits)

lemma rpn_logic_height: "rpn_logic env x st = ROk st' \<Longrightarrow> length st' \<le> Suc (length st)"
  by (cases x)
     (auto simp: rpn_logic_def intro: le_Suc_of dest!: un1_height bin_height tri_height)

lemma length_qsort_merge [simp]: "length (qsort_merge cmp xs ys) = length xs + length ys"
  by (induction cmp xs ys rule: qsort_merge.induct) auto

lemma length_qsort [simp]: "length (qsort cmp xs) = length xs"
proof (induction cmp xs rule: qsort.induct)
  case (1 cmp xs)
  show ?case by (subst qsort.simps) (auto simp: 1)
qed

lemma rpn_sort_height: "rpn_sort st = ROk st' \<Longrightarrow> length st' \<le> Suc (length st)"
  by (cases st) (auto simp: rpn_sort_def underflow_def Let_def split: if_splits)

lemma rpn_rev_height: "rpn_rev st = ROk st' \<Longrightarrow> length st' \<le> Suc (length st)"
  by (cases st) (auto simp: rpn_rev_def underflow_def Let_def split: if_splits)

lemma rpn_avg_height: "rpn_avg st = ROk st' \<Longrightarrow> length st' \<le> Suc (length st)"
  by (cases st) (auto simp: rpn_avg_def underflow_def Let_def split: if_splits prod.splits)

lemma rpn_trend_height: "rpn_trend ns rpi oi st = ROk st' \<Longrightarrow> length st' \<le> Suc (length st)"
  by (auto simp: rpn_trend_def underflow_def Let_def rbind_ROk split: list.splits if_splits)

lemma rpn_predict_height: "rpn_predict env ns rpi oi st = ROk st' \<Longrightarrow> length st' \<le> Suc (length st)"
  by (auto simp: rpn_predict_def underflow_def Let_def rbind_ROk split: list.splits if_splits)

lemmas rpn_heights = rpn_arith_height rpn_logic_height rpn_sort_height rpn_rev_height
  rpn_avg_height rpn_trend_height rpn_predict_height

lemma rpn_op_height:
  assumes "rpn_op env d out oi rpi s = ROk s'"
  shows "length (stk s') \<le> Suc (length (stk s)) \<and> dc_stacksize s' = dc_stacksize s
     \<and> length (nodes s') = length (nodes s)"
proof -
  have "(\<exists>n' st'. rpn_push env d out oi (nodes s ! rpi) (stk s) = ROk (n', st')
           \<and> s' = s\<lparr>nodes := (nodes s)[rpi := n'], stk := st'\<rparr>)
      \<or> (\<exists>st'. length st' \<le> Suc (length (stk s)) \<and> s' = s\<lparr>stk := st'\<rparr>)"
    using assms by (auto simp: rpn_op_def Let_def rbind_ROk dest: rpn_heights split: if_splits)
  then show ?thesis by (auto dest: rpn_push_height)
qed

lemma rpn_op_keeps_ops:
  assumes "rpn_op env d out oi rpi s = ROk s'" "rpi < length (nodes s)"
  shows "map op (nodes s') = map op (nodes s)"
proof -
  have "op n' = op n" if "rpn_push env d out oi n st = ROk (n', st')" for n n' st st'
    using that by (cases "op n")
      (auto simp: rpn_push_def push_variable_def Let_def split: option.splits if_splits)
  then have "(\<exists>n'. op n' = op (nodes s ! rpi) \<and> nodes s' = (nodes s)[rpi := n'])
      \<or> nodes s' = nodes s"
    using assms(1) by (fastforce simp: rpn_op_def Let_def rbind_ROk split: if_splits)
  then show ?thesis
    using assms(2) by (auto simp: map_update) (metis list_update_id nth_map)
qed

lemma nodes_grow [simp]: "nodes (grow s) = nodes s" and stk_grow [simp]: "stk (grow s) = stk s"
  by (simp_all add: grow_def)

lemma grow_room: "int (length (stk s)) \<le> dc_stacksize s \<Longrightarrow> int (length (stk s)) + 4 \<le> dc_stacksize (grow s)"
  by (auto simp: grow_def dc_stackblock_def)

lemma reach_room:
  assumes "rpn_reach env d out oi s0 rpi s" "int (length (stk s0)) \<le> dc_stacksize s0"
  shows "int (length (stk s)) \<le> dc_stacksize s \<and> map op (nodes s) = map op (nodes s0)"
  using assms
proof (induction rule: rpn_reach.induct)
  case (reach_step rpi s s')
  then have "int (length (stk s)) + 4 \<le> dc_stacksize (grow s)" by (simp add: grow_room)
  with reach_step rpn_op_height [OF reach_step.hyps(4)] rpn_op_keeps_ops [OF reach_step.hyps(4)]
  show ?case by auto
qed simp

text \<open>The loop ends in a reachable state: behind the last node, or where the error was.\<close>

lemma loop_reaches:
  assumes "rpn_reach env d out oi s0 rpi s" "rpn_loop env d out oi rpi s = Some (e, s')"
  shows "\<exists>rpi' t. rpn_reach env d out oi s0 rpi' t \<and> rpi' < length (nodes t)
     \<and> (if e = None then s' = t \<and> op (nodes t ! rpi') = OP_END
        else s' = grow t \<and> op (nodes t ! rpi') \<noteq> OP_END)"
  using assms
proof (induction env d out oi rpi s rule: rpn_loop.induct)
  case (1 env d out oi rpi s)
  have l: "rpi < length (nodes s)" using 1(3) by (subst (asm) rpn_loop.simps) (auto split: if_splits)
  show ?case
  proof (cases "op (nodes s ! rpi) = OP_END")
    case True
    with 1(2,3) l show ?thesis by (subst (asm) rpn_loop.simps) auto
  next
    case False
    show ?thesis
    proof (cases "rpn_op env d out oi rpi (grow s)")
      case (ROk s1)
      have "length (nodes s1) = length (nodes s)" using rpn_op_height [OF ROk] by simp
      moreover have "rpn_reach env d out oi s0 (Suc rpi) s1"
        by (rule reach_step [OF 1(2) l False ROk])
      ultimately show ?thesis
        using 1(1) [OF _ False ROk] 1(3) l False ROk by (subst (asm) rpn_loop.simps) auto
    next
      case (RErr m)
      with 1(2,3) l False show ?thesis by (subst (asm) rpn_loop.simps) auto
    next
      case RCrash
      with 1(3) l False show ?thesis by (subst (asm) rpn_loop.simps) auto
    qed
  qed
qed
section \<open>Expressions\<close>








lemmas op_class_defs = rpn_op_def Let_def is_push_op_def is_arith_op_def





lemma dbl_to_int_range: "- (2 ^ 31) \<le> dbl_to_int x \<and> dbl_to_int x < 2 ^ 31"
  by (simp add: dbl_to_int_def dbl_to_sint_def)




section \<open>Properties\<close>

text \<open>C22. However deep a program drives the stack, it never holds more cells than are
  allocated: in every state the loop passes through the used cells fit, and after the growth
  test at least four more do. The operators of the nodes never change.\<close>

theorem rpn_stack_fits:
  assumes "rpn_reach env d out oi s0 rpi s" "stk s0 = []" "0 \<le> dc_stacksize s0"
  shows "int (length (stk s)) \<le> dc_stacksize s
     \<and> int (length (stk s)) + 4 \<le> dc_stacksize (grow s)
     \<and> map op (nodes s) = map op (nodes s0)"
  using reach_room [OF assms(1)] assms(2,3) grow_room by auto

definition sample_env :: rpn_env where
  "sample_env = \<lparr>env_libm = \<lparr>lm_sin = id, lm_cos = id, lm_log = id, lm_exp = id, lm_atan = id,
     lm_atan2 = (\<lambda>x y. x), lm_sqrt = id\<rparr>, env_zone = utc_zone, env_now = 0\<rparr>"

definition sample_start :: rpn_state where
  "sample_start = \<lparr>nodes = [zero_node\<lparr>op := OP_UNKN\<rparr>, end_node], stk = [], dc_stacksize = 0\<rparr>"

lemma sample_run:
  "rpn_reach sample_env 0 [0] 0 sample_start 1
     (sample_start\<lparr>stk := [DNAN], dc_stacksize := 100\<rparr>)"
  using reach_step [OF reach_start, of sample_start sample_env 0 "[0]" 0
      "sample_start\<lparr>stk := [DNAN], dc_stacksize := 100\<rparr>"]
  by (simp add: sample_start_def zero_node_def end_node_def op_class_defs rpn_push_def grow_def
      dc_stackblock_def)

theorem rpn_stack_fits_witness:
  "int (length (stk (sample_start\<lparr>stk := [DNAN], dc_stacksize := 100\<rparr>))) \<le> 100"
  using rpn_stack_fits [OF sample_run] by (simp add: sample_start_def)



text \<open>C27. SORT: with a count the stack can serve, none of the cells being unknown, it leaves
  the same cells in ascending order from the bottom to the top, and everything below them as
  it was.\<close>

theorem rpn_sort_spec:
  assumes "0 \<le> dbl_to_int cnt" "dbl_to_int cnt \<le> int (length st)" "dbl_to_int cnt > - (2 ^ 31)"
    and "\<forall>v \<in> set (take (nat (dbl_to_int cnt)) st). \<not> isnan v"
  shows "\<exists>cells. rpn_sort (cnt # st) = ROk (rev cells @ drop (nat (dbl_to_int cnt)) st)
     \<and> mset cells = mset (take (nat (dbl_to_int cnt)) st) \<and> sorted_wrt fle cells"
proof -
  let ?k = "nat (dbl_to_int cnt)"
  let ?cells = "qsort rpn_compare_double (rev (take ?k st))"
  have "wrap_int (dbl_to_int cnt - 1) = dbl_to_int cnt - 1"
    using assms dbl_to_int_range [of cnt] by (simp add: wrap_int_id)
  then have "rpn_sort (cnt # st) = ROk (rev ?cells @ drop ?k st)"
    using assms by (simp add: rpn_sort_def Let_def stack_below_def)
  moreover have "sorted_wrt fle ?cells"
  proof -
    have "sorted_wrt (\<lambda>x y. rpn_compare_double x y \<le> 0) ?cells"
      by (rule dcmp.qsort_ordered) (use assms(4) in auto)
    then show ?thesis
      by (rule sorted_wrt_mono_rel [rotated])
         (use assms(4) in \<open>auto simp: set_qsort rpn_compare_double_le\<close>)
  qed
  ultimately show ?thesis by (auto simp: mset_qsort intro!: exI [of _ ?cells])
qed

theorem rpn_sort_spec_witness:
  "\<exists>cells. rpn_sort (dbl_of_int 2 # [D1, DINF, 0]) = ROk (rev cells @ [0])
     \<and> mset cells = mset [D1, DINF] \<and> sorted_wrt fle cells"
proof -
  have k: "dbl_to_int (dbl_of_int 2) = 2" by code_simp
  have n: "\<not> isnan D1" by (simp add: isnan_def D1_def mag_def inf_mag_def)
  show ?thesis using rpn_sort_spec [of "dbl_of_int 2" "[D1, DINF, 0]"] n by (simp add: k)
qed

end
