(* ===== verification/Update_Parse.thy ===== *)
theory Update_Parse
  imports Rrd_File Parsetime Rpn_Calc
begin

text \<open>
  Reading the arguments of an update (\<open>rrd_update.c\<close>): the clock, the template, the splitting of
  an argument into readings, and its time stamp. \<open>None\<close> is undefined behaviour; \<open>Inl\<close> stands for
  a return of -1, with the message in the library state.
\<close>

section \<open>Clock\<close>

definition normalize_time :: "int \<times> int \<Rightarrow> int \<times> int" where
  "normalize_time t = (case t of (s, us) \<Rightarrow> if us < 0 then (s - 1, us + 1000000) else (s, us))"

definition initialize_time :: "int \<Rightarrow> 'a ctx_scheme \<Rightarrow> (int \<times> int) \<times> 'a ctx_scheme" where
  "initialize_time ver c =
     (case gettimeofday c of (t, c1) \<Rightarrow>
        (case normalize_time t of (s, us) \<Rightarrow> ((s, if ver \<ge> 3 then us else 0), c1)))"

section \<open>Template\<close>

text \<open>The default redirection: entry 0 is the time, then the data sources that take a reading.
  An unknown type is no COMPUTE source, but leaves its message.\<close>

fun default_template :: "ds_def_t list \<Rightarrow> nat \<Rightarrow> 'a ctx_scheme \<Rightarrow> nat list \<times> 'a ctx_scheme" where
  "default_template [] i c = ([], c)"
| "default_template (d # ds) i c =
     (case dst_conv (dst d) c of (t, c1) \<Rightarrow>
        (case default_template ds (Suc i) c1 of (is, c2) \<Rightarrow>
           (if t \<noteq> Some DST_CDEF then i # is else is, c2)))"

text \<open>The names of the template one after the other; \<open>idx\<close> is the redirection so far.\<close>

fun template_names ::
  "rrd_t \<Rightarrow> string list \<Rightarrow> nat list \<Rightarrow> 'a ctx_scheme \<Rightarrow> nat list option \<times> 'a ctx_scheme" where
  "template_names r [] idx c = (Some idx, c)"
| "template_names r (nm # nms) idx c =
     (if length idx > n_ds r then
        (None, rrd_set_error ''tmplt contains more DS definitions than RRD'' c)
      else (case ds_match r nm c of (k, c1) \<Rightarrow>
              if k + 1 = 0 then (None, rrd_set_error (''unknown DS name '' @ quoted nm) c1)
              else template_names r nms (idx @ [nat (k + 1)]) c1))"

definition parse_template ::
  "rrd_t \<Rightarrow> string \<Rightarrow> 'a ctx_scheme \<Rightarrow> nat list option \<times> 'a ctx_scheme" where
  "parse_template r tmplt c = template_names r (split_all CHR '':'' tmplt) [0] c"

text \<open>The redirection, whose length is \<open>tmpl_cnt\<close>; the allocations succeed.\<close>

definition allocate_data_structures ::
  "rrd_t \<Rightarrow> string option \<Rightarrow> 'a ctx_scheme \<Rightarrow> nat list option \<times> 'a ctx_scheme" where
  "allocate_data_structures r tmplt c =
     (case default_template (take (n_ds r) (ds_def r)) 1 c of (is, c1) \<Rightarrow>
        (case tmplt of None \<Rightarrow> (Some (0 # is), c1) | Some t \<Rightarrow> parse_template r t c1))"

section \<open>Time stamps\<close>

definition f1e6 :: dbl where "f1e6 = dbl_of_int 1000000"
definition f1em6 :: dbl where "f1em6 = dlit 8796093 (2 ^ 43)"

text \<open>The message of the C library for ERANGE.\<close>

definition erange_text :: string where "erange_text = ''Numerical result out of range''"

text \<open>A number: seconds, with a fraction; a negative one counts back from now.\<close>

definition numeric_time ::
  "string \<Rightarrow> 'a ctx_scheme \<Rightarrow> (int \<times> ulong) option \<times> 'a ctx_scheme" where
  "numeric_time txt c =
     (let old_locale = lc_numeric c; c1 = setlocale ''C'' c in
      case strtod txt of (v, _, erange) \<Rightarrow>
        if erange then
          (None, rrd_set_error (''converting '' @ quoted txt @ '' to float: '' @ erange_text) c1)
        else
          (let c2 = setlocale old_locale c1;
               (tmp, c3) =
                 (if flt v 0 then
                    (case gettimeofday c2 of ((s, us), c') \<Rightarrow>
                       (fadd (fadd (dbl_of_int s) (fmul (dbl_of_int us) f1em6)) v, c'))
                  else (v, c2));
               t = dbl_to_long (ffloor tmp)
           in (Some (t, word_of_int (dbl_to_long (fmul (fsub tmp (dbl_of_int t)) f1e6))), c3)))"

definition reading_time ::
  "tzone \<Rightarrow> char \<Rightarrow> string \<Rightarrow> 'a ctx_scheme \<Rightarrow> (int \<times> ulong) option \<times> 'a ctx_scheme" where
  "reading_time tz timesyntax txt c =
     (if timesyntax = CHR ''@'' then
        (case rrd_parsetime tz txt c of
           (Inl m, c1) \<Rightarrow> (None, rrd_set_error (''ds time: '' @ txt @ '': '' @ m) c1)
         | (Inr tv, c1) \<Rightarrow>
             (if tv_type tv = RELATIVE_TO_END_TIME \<or> tv_type tv = RELATIVE_TO_START_TIME then
                (None, rrd_set_error (''specifying time relative to the '' @ quoted ''start''
                   @ '' or '' @ quoted ''end'' @ '' makes no sense here: '' @ txt) c1)
              else (Some (absolute_of tz tv, 0), c1)))
      else if txt = ''N'' then
        (case gettimeofday c of (t, c1) \<Rightarrow>
           (case normalize_time t of (s, us) \<Rightarrow> (Some (s, word_of_int us), c1)))
      else numeric_time txt c)"

definition get_time_from_reading ::
  "tzone \<Rightarrow> rrd_t \<Rightarrow> char \<Rightarrow> string \<Rightarrow> int \<Rightarrow> 'a ctx_scheme
     \<Rightarrow> (int \<times> ulong) option \<times> 'a ctx_scheme" where
  "get_time_from_reading tz r timesyntax txt ver c =
     (case reading_time tz timesyntax txt c of
        (None, c1) \<Rightarrow> (None, c1)
      | (Some (t, us0), c1) \<Rightarrow>
          (let us = (if ver < 3 then 0 else us0); lh = live_head r in
           if t < last_up lh \<or> (t = last_up lh \<and> sint us \<le> last_up_usec lh) then
             (None, rrd_set_error (''illegal attempt to update using time '' @ show_int t
                @ '' when last update time is '' @ show_int (last_up lh)
                @ '' (minimum one second step)'') c1)
           else (Some (t, us), c1)))"

section \<open>Readings\<close>

text \<open>The readings behind the time, from the second one on: \<open>i\<close> counts the redirections used,
  \<open>rest\<close> is the text behind the colon.\<close>

fun assign_readings ::
  "nat list \<Rightarrow> nat \<Rightarrow> string list \<Rightarrow> string list \<Rightarrow> string + (nat \<times> string list)" where
  "assign_readings tmpl i [] updvals = Inr (i, updvals)"
| "assign_readings tmpl i (v # vs) updvals =
     (if i < length tmpl then assign_readings tmpl (Suc i) vs (updvals[tmpl ! i := v])
      else Inl (''found extra data on update argument: '' @ concat (v # map (\<lambda>x. CHR '':'' # x) vs)))"

definition find_time_end :: "string \<Rightarrow> (char \<times> string \<times> string) option" where
  "find_time_end input =
     (case split_at CHR ''@'' input of
        Some (a, b) \<Rightarrow> Some (CHR ''@'', a, b)
      | None \<Rightarrow>
          (case split_at CHR '':'' input of
             Some (a, b) \<Rightarrow> Some (CHR '':'', a, b)
           | None \<Rightarrow> None))"

text \<open>The values by data source (entry 0 is the time text), the time and its microseconds. Without
  any data source in the redirection the first reading would go to an entry never set.\<close>

definition parse_ds ::
  "tzone \<Rightarrow> rrd_t \<Rightarrow> nat list \<Rightarrow> string \<Rightarrow> int \<Rightarrow> 'a ctx_scheme
     \<Rightarrow> ((string list \<times> int \<times> ulong) option \<times> 'a ctx_scheme) option" where
  "parse_ds tz r tmpl input ver c =
     (case find_time_end input of
        None \<Rightarrow> Some (None, rrd_set_error
          (''expected timestamp not found in data source from '' @ input) c)
      | Some (timesyntax, txt, rest) \<Rightarrow>
          (if length tmpl < 2 then None
           else
             (case assign_readings tmpl 1 (split_all CHR '':'' rest)
                     (txt # replicate (n_ds r) ''U'') of
                Inl m \<Rightarrow> Some (None, rrd_set_error m c)
              | Inr (i, updvals) \<Rightarrow>
                  (if i \<noteq> length tmpl then
                     Some (None, rrd_set_error (''expected '' @ show_nat (length tmpl - 1)
                       @ '' data source readings (got '' @ show_nat (i - 1) @ '') from '' @ txt) c)
                   else
                     (case get_time_from_reading tz r timesyntax (hd updvals) ver c of
                        (None, c1) \<Rightarrow> Some (None, c1)
                      | (Some (t, us), c1) \<Rightarrow> Some (Some (updvals, t, us), c1))))))"

end
