(* ===== verification/Rrd_Diff.thy ===== *)
theory Rrd_Diff
  imports CNumber
begin

text \<open>
  The difference of two decimal numbers given as text (\<open>rrd_diff.c\<close>), digit by digit, so that
  counters wider than any machine integer can be subtracted. The two arguments are cut off in
  place behind their digits; the model returns the shortened strings. The result buffer has
  \<open>LAST_DS_LEN + 1\<close> bytes and a write behind it is \<open>None\<close>.
\<close>

definition DIFF_LEN :: nat where "DIFF_LEN = 30"

text \<open>The scan to the first digit: the blanked prefix, whether a minus sign was in it, and the
  digits that follow.\<close>

definition not_digit :: "char \<Rightarrow> bool" where
  "not_digit c \<longleftrightarrow> \<not> isdigit c"

definition diff_prefix :: "string \<Rightarrow> string" where
  "diff_prefix s = takeWhile not_digit s"

definition diff_neg :: "string \<Rightarrow> bool" where
  "diff_neg s \<longleftrightarrow> CHR ''-'' \<in> set (diff_prefix s)"

definition diff_digits :: "string \<Rightarrow> string" where
  "diff_digits s = takeWhile isdigit (dropWhile not_digit s)"

text \<open>One column: the two digits (as character codes, if the number reaches that far) and the
  borrow. A column no number reaches does not occur.\<close>

definition diff_column :: "char list \<Rightarrow> char list \<Rightarrow> int \<Rightarrow> int" where
  "diff_column a b c =
     (case (a, b) of
        (x # _, y # _) \<Rightarrow> ord x - c - ord y + 48
      | (x # _, []) \<Rightarrow> ord x - c
      | ([], y # _) \<Rightarrow> 48 - ord y - c + 48
      | ([], []) \<Rightarrow> 48 - c)"

text \<open>The columns from the least significant one; the result digits as character codes in the
  same order, and the last borrow.\<close>

fun diff_loop :: "nat \<Rightarrow> char list \<Rightarrow> char list \<Rightarrow> int \<Rightarrow> int list \<times> int" where
  "diff_loop 0 a b c = ([], c)"
| "diff_loop (Suc m) a b c =
     (let r = diff_column a b c;
          (d, c') = (if r < 48 then (r + 10, 1) else if r > 57 then (r - 10, 1) else (r, 0));
          (ds, c'') = diff_loop m (tl a) (tl b) c'
      in (d # ds, c''))"

text \<open>The complement when a borrow is left over.\<close>

fun diff_complement :: "int list \<Rightarrow> int \<Rightarrow> int list" where
  "diff_complement [] c = []"
| "diff_complement (d # ds) c =
     (if 48 \<le> d \<and> d \<le> 57 then
        (let r = 57 - d + c + 48
         in if r > 57 then (r - 10) # diff_complement ds 1 else r # diff_complement ds 0)
      else d # ds)"

definition char_of_code :: "int \<Rightarrow> char" where
  "char_of_code k = char_of (nat k)"

text \<open>The text of the result buffer: two blanks, then the digits.\<close>

definition diff_text :: "int list \<Rightarrow> string" where
  "diff_text ds = '' '' @ '' '' @ map char_of_code (rev ds)"

definition rrd_diff :: "string \<Rightarrow> string \<Rightarrow> (dbl \<times> string \<times> string) option" where
  "rrd_diff a b =
     (let da = diff_digits a; db = diff_digits b;
          a' = diff_prefix a @ da; b' = diff_prefix b @ db;
          m = max (length da) (length db) in
      if da = [] \<or> db = [] then Some (DNAN, a', b')
      else if diff_neg a \<noteq> diff_neg b then Some (DNAN, a', b')
      else if m > DIFF_LEN then Some (DNAN, a', b')
      else if m + 2 > DIFF_LEN then None
      else
        (case diff_loop m (rev da) (rev db) 0 of
           (ds, c) \<Rightarrow>
             (let result = (if c \<noteq> 0 then fneg (atof (diff_text (diff_complement ds c)))
                            else atof (diff_text ds))
              in Some (if diff_neg a \<and> diff_neg b then fneg result else result, a', b'))))"

end
