(* ===== verification/Rpn_Parse.thy ===== *)
theory Rpn_Parse
  imports Rpn_Program
begin

text \<open>
  \<open>rpn_parse\<close> and \<open>parseCDEF_DS\<close> of \<open>rrd_rpncalc.c\<close>. The expression is read from left to
  right; each step recognises a number, an operator name, \<open>PREV(name)\<close> or a variable in the
  order of the source. The state is the pending expression and the library state, whose
  LC_NUMERIC locale the parser switches to "C" and back.
\<close>

section \<open>Recognisers\<close>

text \<open>The operator names before and after the \<open>PREV(name)\<close> test, in the order of the tests.\<close>

definition ops_before_prev :: "(op_en \<times> string) list" where
  "ops_before_prev = [(OP_ADD, ''+''), (OP_SUB, ''-''), (OP_MUL, ''*''), (OP_DIV, ''/''),
     (OP_MOD, ''%''), (OP_SIN, ''SIN''), (OP_COS, ''COS''), (OP_LOG, ''LOG''),
     (OP_FLOOR, ''FLOOR''), (OP_CEIL, ''CEIL''), (OP_EXP, ''EXP''), (OP_DUP, ''DUP''),
     (OP_EXC, ''EXC''), (OP_POP, ''POP''), (OP_LTIME, ''LTIME''), (OP_LT, ''LT''),
     (OP_LE, ''LE''), (OP_GT, ''GT''), (OP_GE, ''GE''), (OP_EQ, ''EQ''), (OP_IF, ''IF''),
     (OP_MIN, ''MIN''), (OP_MAX, ''MAX''), (OP_LIMIT, ''LIMIT''), (OP_UNKN, ''UNKN''),
     (OP_UN, ''UN''), (OP_NEGINF, ''NEGINF''), (OP_NE, ''NE''), (OP_COUNT, ''COUNT'')]"

definition ops_after_prev :: "(op_en \<times> string) list" where
  "ops_after_prev = [(OP_PREV, ''PREV''), (OP_INF, ''INF''), (OP_ISINF, ''ISINF''),
     (OP_NOW, ''NOW''), (OP_TIME, ''TIME''), (OP_ATAN2, ''ATAN2''), (OP_ATAN, ''ATAN''),
     (OP_SQRT, ''SQRT''), (OP_SORT, ''SORT''), (OP_REV, ''REV''), (OP_TREND, ''TREND''),
     (OP_TRENDNAN, ''TRENDNAN''), (OP_PREDICT, ''PREDICT''),
     (OP_PREDICTSIGMA, ''PREDICTSIGMA''), (OP_RAD2DEG, ''RAD2DEG''),
     (OP_DEG2RAD, ''DEG2RAD''), (OP_AVG, ''AVG''), (OP_ABS, ''ABS''), (OP_ADDNAN, ''ADDNAN'')]"

text \<open>\<open>match_op\<close>: the name, followed by a comma or the end.\<close>

definition at_delim :: "string \<Rightarrow> bool" where
  "at_delim s \<longleftrightarrow> (case s of [] \<Rightarrow> True | c # _ \<Rightarrow> c = CHR '','')"

fun match_op :: "(op_en \<times> string) list \<Rightarrow> string \<Rightarrow> (op_en \<times> string) option" where
  "match_op [] expr = None"
| "match_op ((x, nm) # tab) expr =
     (if take (length nm) expr = nm \<and> at_delim (drop (length nm) expr)
      then Some (x, drop (length nm) expr) else match_op tab expr)"

text \<open>\<open>sscanf (expr, "%lf%n")\<close> together with the test for a comma behind the number. Unlike
  \<open>strtod\<close>, the scanner does not read the parenthesis of a NaN.\<close>

definition match_number :: "string \<Rightarrow> (dbl \<times> string) option" where
  "match_number expr =
     (case strtod expr of (v, r, _) \<Rightarrow>
        if r \<noteq> expr \<and> r \<noteq> [] \<and> hd r = CHR '','' \<and> \<not> (isnan v \<and> CHR ''('' \<in> set (take (length expr - length r) expr))
        then Some (v, r) else None)"

definition is_name_char :: "char \<Rightarrow> bool" where
  "is_name_char c \<longleftrightarrow> isalpha c \<or> isdigit c \<or> c = CHR ''-'' \<or> c = CHR ''_''"

text \<open>\<open>%255[-_A-Za-z0-9]\<close>: at least one character, at most 255.\<close>

definition scan_name :: "string \<Rightarrow> string option" where
  "scan_name s = (let n = take MAX_VNAME_LEN (takeWhile is_name_char s)
                  in if n = [] then None else Some n)"

section \<open>One step\<close>

text \<open>
  The outcomes of the loop body: a node and the pending text; \<open>return NULL\<close> with the locale
  restored; \<open>return NULL\<close> as \<open>match_op_param\<close> does it, without restoring it; and a read
  behind the terminating NUL, which an unclosed \<open>PREV(\<close> at the end of the text leads to.
\<close>

datatype parse_step = PNode rpnp_t string | PNull | PNull_leak | PCrash

definition parse_step :: "(string \<Rightarrow> int) \<Rightarrow> string \<Rightarrow> parse_step" where
  "parse_step lookup expr =
     (case match_number expr of
        Some (v, r) \<Rightarrow> PNode (zero_node\<lparr>op := OP_NUMBER, val := v\<rparr>) r
      | None \<Rightarrow>
     (case match_op ops_before_prev expr of
        Some (x, r) \<Rightarrow> PNode (zero_node\<lparr>op := x\<rparr>) r
      | None \<Rightarrow>
     (case (if take 5 expr = ''PREV('' then scan_name (drop 5 expr) else None) of
        Some vname \<Rightarrow>
          (let len = 4 + length vname + 2 in
           if len > length expr then PCrash
           else if at_delim (drop len expr) then
             (let p = lookup vname in
              if p < 0 then PNull_leak
              else PNode (zero_node\<lparr>op := OP_PREV_OTHER, ptr := p\<rparr>) (drop len expr))
           else PNull)
      | None \<Rightarrow>
     (case match_op ops_after_prev expr of
        Some (x, r) \<Rightarrow> PNode (zero_node\<lparr>op := x\<rparr>) r
      | None \<Rightarrow>
     (case scan_name expr of
        Some vname \<Rightarrow>
          (if lookup vname \<noteq> - 1
           then PNode (zero_node\<lparr>op := OP_VARIABLE, ptr := lookup vname\<rparr>)
                  (drop (length vname) expr)
           else PNull)
      | None \<Rightarrow> PNull)))))"

section \<open>The loop\<close>

datatype parse_res = Parsed "rpnp_t list" | ParseNull | ParseNull_leak | ParseCrash

fun prepend_node :: "rpnp_t \<Rightarrow> parse_res \<Rightarrow> parse_res" where
  "prepend_node n (Parsed ns) = Parsed (n # ns)"
| "prepend_node n r = r"

lemma match_op_shorter:
  "match_op tab expr = Some (x, r) \<Longrightarrow> (\<forall>(y, nm) \<in> set tab. nm \<noteq> []) \<Longrightarrow> length r < length expr"
proof (induction tab)
  case (Cons p tab)
  obtain y nm where p: "p = (y, nm)" by (cases p)
  show ?case
  proof (cases "take (length nm) expr = nm \<and> at_delim (drop (length nm) expr)")
    case True
    with Cons.prems p have "nm \<noteq> []" "r = drop (length nm) expr" by auto
    moreover from True have "length nm \<le> length expr"
      by (metis length_take min.cobounded1 nat_le_linear take_all)
    ultimately show ?thesis by (cases nm; cases expr) simp_all
  next
    case False
    with Cons p show ?thesis by auto
  qed
qed simp

lemma scan_name_length: "scan_name s = Some n \<Longrightarrow> 0 < length n \<and> length n \<le> length s"
proof -
  assume "scan_name s = Some n"
  then have n: "n = take MAX_VNAME_LEN (takeWhile is_name_char s)" "n \<noteq> []"
    by (auto simp: scan_name_def Let_def split: if_splits)
  have "length (takeWhile is_name_char s) \<le> length s" by (rule length_takeWhile_le)
  with n show ?thesis by simp
qed

lemma match_number_shorter:
  "match_number expr = Some (v, r) \<Longrightarrow> r \<noteq> expr"
  by (auto simp: match_number_def split: prod.splits if_splits)

text \<open>The number parser never returns more than it was given.\<close>

lemma length_take_sign: "take_sign s = (b, r) \<Longrightarrow> length r \<le> length s"
  by (cases s) (auto split: if_splits)

lemma take_digits_length: "take_digits p s = (d, k, r) \<Longrightarrow> length r \<le> length s"
proof -
  assume td: "take_digits p s = (d, k, r)"
  have dw: "length (dropWhile p xs) \<le> length xs" for xs by (rule length_dropWhile_le)
  show ?thesis
  proof (cases "dropWhile p s")
    case Nil
    with td show ?thesis by (auto simp: take_digits_def Let_def)
  next
    case (Cons c r')
    with dw [of s] have "Suc (length r') \<le> length s" by simp
    moreover from td Cons have "r = dropWhile p r' \<or> r = dropWhile p s \<or> r = s"
      by (auto simp: take_digits_def Let_def split: if_splits)
    ultimately show ?thesis using dw [of r'] dw [of s] by auto
  qed
qed

lemma take_exponent_length: "take_exponent m s = (x, r) \<Longrightarrow> length r \<le> length s"
proof (cases s)
  case (Cons c s')
  assume te: "take_exponent m s = (x, r)"
  obtain neg r' where ts: "take_sign s' = (neg, r')" by (cases "take_sign s'")
  have "length (dropWhile isdigit r') \<le> length r'" by (rule length_dropWhile_le)
  moreover have "length r' \<le> length s'" using length_take_sign [OF ts] .
  ultimately show ?thesis using te Cons ts
    by (auto simp: take_exponent_def Let_def split: if_splits)
qed (simp add: take_exponent_def)

lemma skip_space_length: "length (skip_space s) \<le> length s"
  by (simp add: skip_space_def length_dropWhile_le)

lemma strtod_length: "strtod s = (v, r, e) \<Longrightarrow> length r \<le> length s"
proof -
  assume st: "strtod s = (v, r, e)"
  obtain neg t where ts: "take_sign (skip_space s) = (neg, t)" by (cases "take_sign (skip_space s)")
  have lt: "length t \<le> length s"
    using length_take_sign [OF ts] skip_space_length [of s] by simp
  consider (inf) "case_prefix ''infinity'' t" | (inf3) "case_prefix ''inf'' t" "\<not> case_prefix ''infinity'' t"
    | (nan) "case_prefix ''nan'' t" "\<not> case_prefix ''inf'' t" "\<not> case_prefix ''infinity'' t"
    | (num) "\<not> case_prefix ''nan'' t" "\<not> case_prefix ''inf'' t" "\<not> case_prefix ''infinity'' t"
    by blast
  then show ?thesis
  proof cases
    case inf
    with st ts lt show ?thesis by (auto simp: strtod_def)
  next
    case inf3
    with st ts lt show ?thesis by (auto simp: strtod_def)
  next
    case nan
    have d3: "length (drop 3 t) \<le> length s" using lt by simp
    have dw: "length (dropWhile q xs) \<le> length xs" for q and xs :: string
      by (rule length_dropWhile_le)
    from nan st ts have "r = drop 3 t \<or> (\<exists>q r'. drop 3 t = CHR ''('' # r' \<and>
        dropWhile q r' = CHR '')'' # r)"
      by (auto simp: strtod_def Let_def split: list.splits char.splits bool.splits if_splits)
    then show ?thesis
    proof
      assume "r = drop 3 t" with d3 show ?thesis by simp
    next
      assume "\<exists>q r'. drop 3 t = CHR ''('' # r' \<and> dropWhile q r' = CHR '')'' # r"
      then obtain q r' where q: "drop 3 t = CHR ''('' # r'" "dropWhile q r' = CHR '')'' # r" by blast
      from dw [of q r'] q(2) have "Suc (length r) \<le> length r'" by simp
      moreover from q(1) d3 have "Suc (length r') \<le> length s" by simp
      ultimately show ?thesis by simp
    qed
  next
    case num
    show ?thesis
    proof (cases "case_prefix ''0x'' t \<and> fst (take_digits is_xdigit (drop 2 t)) \<noteq> []")
      case True
      obtain ds k r1 where td: "take_digits is_xdigit (drop 2 t) = (ds, k, r1)"
        by (cases "take_digits is_xdigit (drop 2 t)")
      obtain x r2 where te: "take_exponent CHR ''p'' r1 = (x, r2)"
        by (cases "take_exponent CHR ''p'' r1")
      from st num ts True td te have "r = r2"
        by (simp add: strtod_def split: prod.splits)
      with take_digits_length [OF td] take_exponent_length [OF te] lt show ?thesis by simp
    next
      case False
      obtain ds k r1 where td: "take_digits isdigit t = (ds, k, r1)"
        by (cases "take_digits isdigit t")
      obtain x r2 where te: "take_exponent CHR ''e'' r1 = (x, r2)"
        by (cases "take_exponent CHR ''e'' r1")
      have "r = r2 \<or> r = s"
        using st num ts td te False
        by (cases "ds = []") (auto simp: strtod_def Let_def split: prod.splits)
      with take_digits_length [OF td] take_exponent_length [OF te] lt show ?thesis by auto
    qed
  qed
qed

lemma parse_step_length: "parse_step lookup expr = PNode n r \<Longrightarrow> length r \<le> length expr"
proof -
  assume ps: "parse_step lookup expr = PNode n r"
  have tabs: "\<forall>(y, nm) \<in> set ops_before_prev. nm \<noteq> []"
      "\<forall>(y, nm) \<in> set ops_after_prev. nm \<noteq> []"
    by (simp_all add: ops_before_prev_def ops_after_prev_def)
  have num: "match_number expr = Some (v, r') \<Longrightarrow> length r' \<le> length expr" for v r'
    by (auto simp: match_number_def dest: strtod_length split: prod.splits if_splits)
  have opr: "match_op ops_before_prev expr = Some (x, r') \<Longrightarrow> length r' \<le> length expr"
      "match_op ops_after_prev expr = Some (x, r') \<Longrightarrow> length r' \<le> length expr" for x r'
    using match_op_shorter tabs by (meson less_imp_le_nat)+
  from ps show ?thesis
    by (auto simp: parse_step_def Let_def dest: num opr split: option.splits if_splits prod.splits)
qed

text \<open>The loop of \<open>rpn_parse\<close>, with the array it fills: after a node either the text ends, or
  a comma leads to the next one, or the text is refused.\<close>

function parse_loop :: "(string \<Rightarrow> int) \<Rightarrow> string \<Rightarrow> parse_res" where
  "parse_loop lookup expr =
     (if expr = [] then Parsed [end_node]
      else (case parse_step lookup expr of
              PNode n r \<Rightarrow>
                (if r = [] then Parsed [n, end_node]
                 else if hd r = CHR '','' then prepend_node n (parse_loop lookup (tl r))
                 else ParseNull)
            | PNull \<Rightarrow> ParseNull
            | PNull_leak \<Rightarrow> ParseNull_leak
            | PCrash \<Rightarrow> ParseCrash))"
  by pat_completeness auto
termination
proof (relation "measure (\<lambda>(lookup, expr). length expr)")
  fix lookup expr n r
  assume ps: "parse_step lookup expr = PNode n r" and "r \<noteq> []"
  then have "length (tl r) < length r" by (cases r) simp_all
  with parse_step_length [OF ps]
  show "((lookup, tl r), (lookup, expr)) \<in> measure (\<lambda>(lookup, expr). length expr)" by simp
qed simp

declare parse_loop.simps [simp del]

text \<open>An empty expression never allocates the array, whose terminator is then written through
  a null pointer.\<close>

definition rpn_parse :: "(string \<Rightarrow> int) \<Rightarrow> string \<Rightarrow> 'a ctx_scheme \<Rightarrow> parse_res \<times> 'a ctx_scheme"
where
  "rpn_parse lookup expr c =
     (let old_locale = lc_numeric c; c1 = setlocale ''C'' c in
      if expr = [] then (ParseCrash, c1)
      else (case parse_loop lookup expr of
              Parsed ns \<Rightarrow> (Parsed ns, setlocale old_locale c1)
            | ParseNull \<Rightarrow> (ParseNull, setlocale old_locale c1)
            | ParseNull_leak \<Rightarrow> (ParseNull, c1)
            | ParseCrash \<Rightarrow> (ParseCrash, c1)))"

section \<open>COMPUTE data sources\<close>

definition lookup_DS :: "rrd_t \<Rightarrow> string \<Rightarrow> int" where
  "lookup_DS r nm =
     (case index_of_name (take (n_ds r) (ds_def r)) nm 0 of Some i \<Rightarrow> int i | None \<Rightarrow> - 1)"

definition cdef_forbidden :: "op_en \<Rightarrow> bool" where
  "cdef_forbidden x \<longleftrightarrow> x = OP_TIME \<or> x = OP_LTIME \<or> x = OP_PREV \<or> x = OP_COUNT"

text \<open>The function returns nothing; \<open>None\<close> stands for undefined behaviour: a crash of the
  parser, or a copy that does not fit the eighty bytes of \<open>par\<close>.\<close>

definition parseCDEF_DS :: "string \<Rightarrow> rrd_t \<Rightarrow> nat \<Rightarrow> 'a ctx_scheme \<Rightarrow> (rrd_t \<times> 'a ctx_scheme) option"
where
  "parseCDEF_DS def r ds_idx c =
     (case rpn_parse (lookup_DS r) def c of
        (ParseCrash, _) \<Rightarrow> None
      | (Parsed rpnp, c1) \<Rightarrow>
          (if \<exists>n \<in> set (body rpnp). cdef_forbidden (op n) then
             Some (r, rrd_set_error
               ''operators time, ltime, prev and count not supported with DS COMPUTE'' c1)
           else (case rpn_compact rpnp c1 of
                   (None, c2) \<Rightarrow> Some (r, c2)
                 | (Some rpnc, c2) \<Rightarrow>
                     (let d = ds_def r ! ds_idx in
                      if length rpnc * sizeof_cdefds > 8 * length (ds_par d) then None
                      else Some (r\<lparr>ds_def := (ds_def r)[ds_idx :=
                                   d\<lparr>ds_par := store_nodes rpnc (ds_par d)\<rparr>]\<rparr>, c2))))
      | (_, c1) \<Rightarrow> Some (r, rrd_set_error ''failed to parse computed data source'' c1))"

end
