(* ===== verification/Update_Pdp.thy ===== *)
theory Update_Pdp
  imports Update_Parse Rrd_Diff Rpn_Parse
begin

text \<open>
  From readings to primary data points (\<open>rrd_update.c\<close>): the interpretation of a reading by the
  type of its data source, the number of steps that passed, and the primary data point of a step,
  with the COMPUTE data sources.
\<close>

section \<open>Readings to amounts\<close>

definition strncpy_last :: "string \<Rightarrow> string" where
  "strncpy_last v = strncpy_nul v (LAST_DS_LEN - 1)"

definition set_pdp :: "nat \<Rightarrow> (pdp_prep_t \<Rightarrow> pdp_prep_t) \<Rightarrow> world \<Rightarrow> world" where
  "set_pdp i f w = w\<lparr>db := (db w)\<lparr>pdp_prep := (pdp_prep (db w))[i := f (pdp_prep (db w) ! i)]\<rparr>\<rparr>"

definition set_last_ds :: "nat \<Rightarrow> string \<Rightarrow> world \<Rightarrow> world" where
  "set_last_ds i v = set_pdp i (\<lambda>p. p\<lparr>last_ds := v\<rparr>)"

definition ds_par_of :: "rrd_t \<Rightarrow> nat \<Rightarrow> nat \<Rightarrow> unival" where
  "ds_par_of r i k = ds_par (ds_def r ! i) ! k"

text \<open>\<open>s[0] != 'U'\<close>, which also holds of the empty string.\<close>

definition not_U :: "string \<Rightarrow> bool" where
  "not_U v \<longleftrightarrow> (case v of [] \<Rightarrow> True | c # _ \<Rightarrow> c \<noteq> CHR ''U'')"

definition simple_integer :: "bool \<Rightarrow> string \<Rightarrow> bool" where
  "simple_integer minus_ok v \<longleftrightarrow>
     (case v of [] \<Rightarrow> True
      | c # cs \<Rightarrow> ((minus_ok \<and> c = CHR ''-'') \<or> isdigit c) \<and> (\<forall>x \<in> set cs. isdigit x))"

definition two32 :: dbl where "two32 = dbl_of_int 4294967296"
definition two64_32 :: dbl where "two64_32 = dbl_of_int 18446744069414584320"

text \<open>The overflow correction of a COUNTER.\<close>

definition unwrap_counter :: "dbl \<Rightarrow> dbl" where
  "unwrap_counter x =
     (let y = (if flt x 0 then fadd x two32 else x)
      in if flt y 0 then fadd y two64_32 else y)"

text \<open>The amount and the rate of a reading, together with the reading as \<open>rrd_diff\<close> leaves it.
  \<open>Inl\<close> is the message.\<close>

definition counter_reading ::
  "bool \<Rightarrow> string \<Rightarrow> string \<Rightarrow> dbl \<Rightarrow> (string + (dbl \<times> dbl \<times> string \<times> string)) option" where
  "counter_reading derive v last_v interval =
     (if \<not> simple_integer derive v then
        Some (Inl (''not a simple '' @ (if derive then ''signed'' else ''unsigned'') @ '' integer: ''
                     @ quoted v))
      else if not_U last_v then
        (case rrd_diff v last_v of
           None \<Rightarrow> None
         | Some (d, v', last_v') \<Rightarrow>
             (let x = (if derive then d else unwrap_counter d)
              in Some (Inr (x, fdiv x interval, v', last_v'))))
      else Some (Inr (DNAN, DNAN, v, last_v)))"

definition float_reading ::
  "bool \<Rightarrow> string \<Rightarrow> dbl \<Rightarrow> 'a ctx_scheme \<Rightarrow> (dbl \<times> dbl) option \<times> 'a ctx_scheme" where
  "float_reading gauge v interval c =
     (let old_locale = lc_numeric c; c1 = setlocale ''C'' c in
      case strtod v of (x0, tail, erange) \<Rightarrow>
        if erange then
          (None, rrd_set_error (''converting '' @ quoted v @ '' to float: '' @ erange_text) c1)
        else
          (let c2 = setlocale old_locale c1; x = (if gauge then fmul x0 interval else x0)
           in if tail \<noteq> [] then
                (None, rrd_set_error (''conversion of '' @ quoted v @ '' to float not complete: tail ''
                   @ quoted tail) c2)
              else (Some (x, fdiv x interval), c2)))"

definition in_limits :: "rrd_t \<Rightarrow> nat \<Rightarrow> dbl \<Rightarrow> bool" where
  "in_limits r i rate \<longleftrightarrow>
     (let mx = ds_par_of r i DS_max_val; mn = ds_par_of r i DS_min_val in
      \<not> (\<not> isnan rate \<and> ((\<not> isnan mx \<and> fgt rate mx) \<or> (\<not> isnan mn \<and> flt rate mn))))"

text \<open>The amount of the reading \<open>v\<close> of data source \<open>i\<close>: \<open>None\<close> inside is a return of -1.\<close>

definition read_value ::
  "nat \<Rightarrow> string \<Rightarrow> dbl \<Rightarrow> dst_en option \<Rightarrow> world \<Rightarrow> ((dbl \<times> string) option \<times> world) option" where
  "read_value i v interval d w =
     (let finish = (\<lambda>x rate v' w'.
            if rrd_test_error w' then Some (None, w')
            else Some (Some (if in_limits (db w') i rate then x else DNAN, v'), w'))
      in case d of
           Some DST_COUNTER \<Rightarrow>
             (case counter_reading False v (last_ds (pdp_prep (db w) ! i)) interval of
                None \<Rightarrow> None
              | Some (Inl m) \<Rightarrow> Some (None, rrd_set_error m w)
              | Some (Inr (x, rate, v', l')) \<Rightarrow> finish x rate v' (set_last_ds i l' w))
         | Some DST_DERIVE \<Rightarrow>
             (case counter_reading True v (last_ds (pdp_prep (db w) ! i)) interval of
                None \<Rightarrow> None
              | Some (Inl m) \<Rightarrow> Some (None, rrd_set_error m w)
              | Some (Inr (x, rate, v', l')) \<Rightarrow> finish x rate v' (set_last_ds i l' w))
         | Some DST_ABSOLUTE \<Rightarrow>
             (case float_reading False v interval w of
                (None, w') \<Rightarrow> Some (None, w') | (Some (x, rate), w') \<Rightarrow> finish x rate v w')
         | Some DST_GAUGE \<Rightarrow>
             (case float_reading True v interval w of
                (None, w') \<Rightarrow> Some (None, w') | (Some (x, rate), w') \<Rightarrow> finish x rate v w')
         | _ \<Rightarrow> Some (None, rrd_set_error (''rrd contains unknown DS type : ''
                                @ quoted (dst (ds_def (db w) ! i))) w))"

text \<open>The body of the loop over the data sources: the amount and the text kept for the next
  run.\<close>

definition pdp_prep_ds ::
  "nat \<Rightarrow> string \<Rightarrow> dbl \<Rightarrow> world \<Rightarrow> (dbl option \<times> world) option" where
  "pdp_prep_ds i v interval w0 =
     (case dst_conv (dst (ds_def (db w0) ! i)) w0 of (d, w1) \<Rightarrow>
        let mrhb = dbl_of_ulong (ds_par_of (db w1) i DS_mrhb_cnt);
            w2 = (if flt mrhb interval then set_last_ds i ''U'' w1 else w1) in
        if not_U v \<and> d \<noteq> Some DST_CDEF \<and> fge mrhb interval then
          (case read_value i v interval d w2 of
             None \<Rightarrow> None
           | Some (None, w3) \<Rightarrow> Some (None, w3)
           | Some (Some (x, v'), w3) \<Rightarrow> Some (Some x, set_last_ds i (strncpy_last v') w3))
        else Some (Some DNAN, set_last_ds i (strncpy_last v) w2))"

text \<open>\<open>pdp_new\<close> in the order of the data sources; \<open>updvals\<close> starts with the time.\<close>

fun update_pdp_prep ::
  "nat list \<Rightarrow> string list \<Rightarrow> dbl \<Rightarrow> world \<Rightarrow> (dbl list option \<times> world) option" where
  "update_pdp_prep [] updvals interval w = Some (Some [], w)"
| "update_pdp_prep (i # is) updvals interval w =
     (case pdp_prep_ds i (updvals ! Suc i) interval w of
        None \<Rightarrow> None
      | Some (None, w') \<Rightarrow> Some (None, w')
      | Some (Some x, w') \<Rightarrow>
          (case update_pdp_prep is updvals interval w' of
             None \<Rightarrow> None
           | Some (res, w'') \<Rightarrow> Some (map_option ((#) x) res, w'')))"

section \<open>Elapsed steps\<close>

record elapsed =
  el_steps :: ulong
  el_pre_int :: dbl
  el_post_int :: dbl
  el_proc_pdp_cnt :: ulong

text \<open>The times are \<open>unsigned long\<close> here; the number of steps passes through an \<open>int\<close>.\<close>

definition calculate_elapsed_steps ::
  "rrd_t \<Rightarrow> int \<Rightarrow> ulong \<Rightarrow> dbl \<Rightarrow> elapsed option" where
  "calculate_elapsed_steps r t us interval =
     (let st = pdp_step (stat_head r); last_t = last_up (live_head r);
          last_w = word_of_int last_t; cur = word_of_int t :: ulong;
          proc_pdp_st = last_w - last_w mod st;
          occu_pdp_age = cur mod st;
          occu_pdp_st = cur - occu_pdp_age
      in if st = 0 then None
         else Some
           \<lparr>el_steps = word_of_int (wrap_int (uint ((occu_pdp_st - proc_pdp_st) div st))),
            el_pre_int =
              (if occu_pdp_st > proc_pdp_st
               then fsub (dbl_of_int (sint occu_pdp_st - last_t))
                         (fdiv (dbl_of_int (last_up_usec (live_head r))) f1e6)
               else interval),
            el_post_int =
              (if occu_pdp_st > proc_pdp_st
               then fadd (dbl_of_ulong occu_pdp_age) (fdiv (dbl_of_ulong us) f1e6)
               else 0),
            el_proc_pdp_cnt = proc_pdp_st div st\<rparr>)"

section \<open>Inside a step\<close>

definition pdp_scr :: "rrd_t \<Rightarrow> nat \<Rightarrow> nat \<Rightarrow> unival" where
  "pdp_scr r i k = pdp_scratch (pdp_prep r ! i) ! k"

definition set_pdp_scr :: "nat \<Rightarrow> nat \<Rightarrow> unival \<Rightarrow> world \<Rightarrow> world" where
  "set_pdp_scr i k v = set_pdp i (\<lambda>p. p\<lparr>pdp_scratch := (pdp_scratch p)[k := v]\<rparr>)"

definition simple_update_ds :: "dbl \<Rightarrow> nat \<Rightarrow> dbl \<Rightarrow> world \<Rightarrow> world" where
  "simple_update_ds interval i x w =
     (if isnan x then
        set_pdp_scr i PDP_unkn_sec_cnt
          (dbl_to_ulong (fadd (dbl_of_ulong (pdp_scr (db w) i PDP_unkn_sec_cnt)) (ffloor interval))) w
      else if isnan (pdp_scr (db w) i PDP_val) then set_pdp_scr i PDP_val x w
      else set_pdp_scr i PDP_val (fadd (pdp_scr (db w) i PDP_val) x) w)"

fun simple_update :: "nat list \<Rightarrow> dbl \<Rightarrow> dbl list \<Rightarrow> world \<Rightarrow> world" where
  "simple_update [] interval pdp_new w = w"
| "simple_update (i # is) interval pdp_new w =
     simple_update is interval pdp_new (simple_update_ds interval i (pdp_new ! i) w)"

section \<open>The end of a step\<close>

text \<open>The rate of the step: unknown when the interval exceeds the heartbeat or more than half of
  the step is unknown. The subtraction of the unknown seconds is unsigned.\<close>

definition pdp_rate :: "rrd_t \<Rightarrow> nat \<Rightarrow> dbl \<Rightarrow> ulong \<Rightarrow> dbl \<Rightarrow> dbl" where
  "pdp_rate r i interval diff_pdp_st pre_unknown =
     (let unkn = pdp_scr r i PDP_unkn_sec_cnt in
      if fgt interval (dbl_of_ulong (ds_par_of r i DS_mrhb_cnt))
         \<or> flt (fdiv (dbl_of_ulong (pdp_step (stat_head r))) D2) (dbl_of_int (wrap_int (uint unkn)))
      then DNAN
      else fdiv (pdp_scr r i PDP_val) (fsub (dbl_of_ulong (diff_pdp_st - unkn)) pre_unknown))"

text \<open>The variables of a COMPUTE program are the data points of the same step.\<close>

fun bind_variables :: "dbl list \<Rightarrow> rpnp_t list \<Rightarrow> rpnp_t list option" where
  "bind_variables pdp_temp [] = Some []"
| "bind_variables pdp_temp (n # ns) =
     (if op n = OP_END then Some (n # ns)
      else if op n = OP_VARIABLE then
        (case deref pdp_temp (ptr n) of
           None \<Rightarrow> None
         | Some v \<Rightarrow> map_option ((#) (n\<lparr>op := OP_NUMBER, val := v\<rparr>)) (bind_variables pdp_temp ns))
      else map_option ((#) n) (bind_variables pdp_temp ns))"

text \<open>The inner boolean tells whether the calculation succeeded.\<close>

definition compute_ds ::
  "rpn_env \<Rightarrow> nat \<Rightarrow> dbl list \<Rightarrow> world \<Rightarrow> (bool \<times> dbl list \<times> world) option" where
  "compute_ds env i pdp_temp w =
     (case rpn_expand (nodes_of_par (ds_par (ds_def (db w) ! i))) of
        None \<Rightarrow> None
      | Some ns \<Rightarrow>
          (case bind_variables pdp_temp ns of
             None \<Rightarrow> None
           | Some ns' \<Rightarrow>
               (case rpn_calc env ns' 0 0 pdp_temp (wrap_int (int i)) w of
                  None \<Rightarrow> None
                | Some (rc, _, _, out, w') \<Rightarrow> Some (rc \<noteq> - 1, out, w'))))"

definition process_pdp_st ::
  "rpn_env \<Rightarrow> nat \<Rightarrow> dbl \<Rightarrow> dbl \<Rightarrow> dbl \<Rightarrow> ulong \<Rightarrow> dbl list \<Rightarrow> dbl list \<Rightarrow> world
     \<Rightarrow> (bool \<times> dbl list \<times> world) option" where
  "process_pdp_st env i interval pre_int post_int diff_pdp_st pdp_new pdp_temp w0 =
     (let x = pdp_new ! i;
          pre_unknown = (if isnan x then pre_int else 0);
          old = pdp_scr (db w0) i PDP_val;
          w1 = (if isnan x then w0
                else set_pdp_scr i PDP_val
                       (fadd (if isnan old then 0 else old) (fmul (fdiv x interval) pre_int)) w0);
          temp1 = pdp_temp[i := pdp_rate (db w1) i interval diff_pdp_st pre_unknown]
      in case dst_conv (dst (ds_def (db w1) ! i)) w1 of (d, w2) \<Rightarrow>
           (case (if d = Some DST_CDEF then compute_ds env i temp1 w2 else Some (True, temp1, w2)) of
              None \<Rightarrow> None
            | Some (False, temp2, w3) \<Rightarrow> Some (False, temp2, w3)
            | Some (True, temp2, w3) \<Rightarrow>
                Some (True, temp2,
                  (if isnan x
                   then set_pdp_scr i PDP_val DNAN
                          (set_pdp_scr i PDP_unkn_sec_cnt (dbl_to_ulong (ffloor post_int)) w3)
                   else set_pdp_scr i PDP_val (fmul (fdiv x interval) post_int)
                          (set_pdp_scr i PDP_unkn_sec_cnt 0 w3)))))"

fun process_all_pdp_st ::
  "rpn_env \<Rightarrow> nat list \<Rightarrow> dbl \<Rightarrow> elapsed \<Rightarrow> dbl list \<Rightarrow> dbl list \<Rightarrow> world
     \<Rightarrow> (bool \<times> dbl list \<times> world) option" where
  "process_all_pdp_st env [] interval el pdp_new pdp_temp w = Some (True, pdp_temp, w)"
| "process_all_pdp_st env (i # is) interval el pdp_new pdp_temp w =
     (case process_pdp_st env i interval (el_pre_int el) (el_post_int el)
             (el_steps el * pdp_step (stat_head (db w))) pdp_new pdp_temp w of
        None \<Rightarrow> None
      | Some (False, temp, w') \<Rightarrow> Some (False, temp, w')
      | Some (True, temp, w') \<Rightarrow> process_all_pdp_st env is interval el pdp_new temp w')"

end
