(* ===== verification/Hw_Math.thy ===== *)
theory Hw_Math
  imports Rrd_Format
begin

text \<open>
  The arithmetic of the Holt-Winters models (\<open>rrd_hw_math.c\<close>): the additive and the
  multiplicative method, and the container of functions (\<open>hw_functions_t\<close>) through which the
  update routines call them.
\<close>

definition hw_additive_calculate_prediction :: "dbl \<Rightarrow> dbl \<Rightarrow> int \<Rightarrow> dbl \<Rightarrow> dbl" where
  "hw_additive_calculate_prediction intercept slope null_count seasonal_coef =
     fadd (fadd intercept (fmul slope (dbl_of_int null_count))) seasonal_coef"

text \<open>The baseline extrapolated over the unknown steps, as both methods compute it.\<close>

definition extrapolated :: "unival list \<Rightarrow> dbl" where
  "extrapolated coefs =
     fadd (coefs ! CDP_hw_intercept)
       (fmul (coefs ! CDP_hw_slope) (dbl_of_ulong (coefs ! CDP_null_count)))"

definition hw_additive_calculate_intercept :: "dbl \<Rightarrow> dbl \<Rightarrow> dbl \<Rightarrow> unival list \<Rightarrow> dbl" where
  "hw_additive_calculate_intercept hw_alpha observed seasonal_coef coefs =
     fadd (fmul hw_alpha (fsub observed seasonal_coef))
       (fmul (fsub D1 hw_alpha) (extrapolated coefs))"

definition hw_additive_calculate_seasonality :: "dbl \<Rightarrow> dbl \<Rightarrow> dbl \<Rightarrow> dbl \<Rightarrow> dbl" where
  "hw_additive_calculate_seasonality hw_gamma observed intercept seasonal_coef =
     fadd (fmul hw_gamma (fsub observed intercept)) (fmul (fsub D1 hw_gamma) seasonal_coef)"

definition hw_additive_init_seasonality :: "dbl \<Rightarrow> dbl \<Rightarrow> dbl" where
  "hw_additive_init_seasonality seasonal_coef intercept = fsub seasonal_coef intercept"

definition hw_multiplicative_calculate_prediction :: "dbl \<Rightarrow> dbl \<Rightarrow> int \<Rightarrow> dbl \<Rightarrow> dbl" where
  "hw_multiplicative_calculate_prediction intercept slope null_count seasonal_coef =
     fmul (fadd intercept (fmul slope (dbl_of_int null_count))) seasonal_coef"

definition hw_multiplicative_calculate_intercept :: "dbl \<Rightarrow> dbl \<Rightarrow> dbl \<Rightarrow> unival list \<Rightarrow> dbl" where
  "hw_multiplicative_calculate_intercept hw_alpha observed seasonal_coef coefs =
     (if fle seasonal_coef 0 then DNAN
      else fadd (fmul hw_alpha (fdiv observed seasonal_coef))
             (fmul (fsub D1 hw_alpha) (extrapolated coefs)))"

definition hw_multiplicative_calculate_seasonality :: "dbl \<Rightarrow> dbl \<Rightarrow> dbl \<Rightarrow> dbl \<Rightarrow> dbl" where
  "hw_multiplicative_calculate_seasonality hw_gamma observed intercept seasonal_coef =
     (if fle intercept 0 then DNAN
      else fadd (fmul hw_gamma (fdiv observed intercept)) (fmul (fsub D1 hw_gamma) seasonal_coef))"

definition hw_multiplicative_init_seasonality :: "dbl \<Rightarrow> dbl \<Rightarrow> dbl" where
  "hw_multiplicative_init_seasonality seasonal_coef intercept =
     (if fle intercept 0 then DNAN else fdiv seasonal_coef intercept)"

definition hw_calculate_slope :: "dbl \<Rightarrow> unival list \<Rightarrow> dbl" where
  "hw_calculate_slope hw_beta coefs =
     fadd (fmul hw_beta (fsub (coefs ! CDP_hw_intercept) (coefs ! CDP_hw_last_intercept)))
       (fmul (fsub D1 hw_beta) (coefs ! CDP_hw_slope))"

definition hw_calculate_seasonal_deviation :: "dbl \<Rightarrow> dbl \<Rightarrow> dbl \<Rightarrow> dbl \<Rightarrow> dbl" where
  "hw_calculate_seasonal_deviation hw_gamma prediction observed last_dev =
     fadd (fmul hw_gamma (fabs (fsub prediction observed))) (fmul (fsub D1 hw_gamma) last_dev)"

definition hw_init_seasonal_deviation :: "dbl \<Rightarrow> dbl \<Rightarrow> dbl" where
  "hw_init_seasonal_deviation prediction observed = fabs (fsub prediction observed)"

record hw_functions_t =
  hwf_predict :: "dbl \<Rightarrow> dbl \<Rightarrow> int \<Rightarrow> dbl \<Rightarrow> dbl"
  hwf_intercept :: "dbl \<Rightarrow> dbl \<Rightarrow> dbl \<Rightarrow> unival list \<Rightarrow> dbl"
  hwf_slope :: "dbl \<Rightarrow> unival list \<Rightarrow> dbl"
  hwf_seasonality :: "dbl \<Rightarrow> dbl \<Rightarrow> dbl \<Rightarrow> dbl \<Rightarrow> dbl"
  hwf_init_seasonality :: "dbl \<Rightarrow> dbl \<Rightarrow> dbl"
  hwf_seasonal_deviation :: "dbl \<Rightarrow> dbl \<Rightarrow> dbl \<Rightarrow> dbl \<Rightarrow> dbl"
  hwf_init_seasonal_deviation :: "dbl \<Rightarrow> dbl \<Rightarrow> dbl"
  hwf_identity :: dbl

definition hw_multiplicative_functions :: hw_functions_t where
  "hw_multiplicative_functions =
     \<lparr>hwf_predict = hw_multiplicative_calculate_prediction,
      hwf_intercept = hw_multiplicative_calculate_intercept,
      hwf_slope = hw_calculate_slope,
      hwf_seasonality = hw_multiplicative_calculate_seasonality,
      hwf_init_seasonality = hw_multiplicative_init_seasonality,
      hwf_seasonal_deviation = hw_calculate_seasonal_deviation,
      hwf_init_seasonal_deviation = hw_init_seasonal_deviation,
      hwf_identity = D1\<rparr>"

definition hw_additive_functions :: hw_functions_t where
  "hw_additive_functions =
     \<lparr>hwf_predict = hw_additive_calculate_prediction,
      hwf_intercept = hw_additive_calculate_intercept,
      hwf_slope = hw_calculate_slope,
      hwf_seasonality = hw_additive_calculate_seasonality,
      hwf_init_seasonality = hw_additive_init_seasonality,
      hwf_seasonal_deviation = hw_calculate_seasonal_deviation,
      hwf_init_seasonal_deviation = hw_init_seasonal_deviation,
      hwf_identity = 0\<rparr>"

section \<open>The interface of the update routines\<close>

text \<open>What the update routines rely on: the slope, the seasonality and the deviation do not
  come out known when what they are computed from is unknown, and predictions with unknown
  coefficients are unknown.\<close>

locale hw_interface =
  fixes fs :: hw_functions_t
  assumes predict_nan: "isnan i \<or> isnan s \<or> isnan c \<Longrightarrow> isnan (hwf_predict fs i s n c)"
    and intercept_nan: "isnan x \<or> isnan c \<Longrightarrow> isnan (hwf_intercept fs al x c coefs)"
    and seasonality_nan: "isnan x \<or> isnan i \<or> isnan c \<Longrightarrow> isnan (hwf_seasonality fs g x i c)"
    and init_seasonality_nan: "isnan c \<or> isnan i \<Longrightarrow> isnan (hwf_init_seasonality fs c i)"
    and deviation_nan: "isnan p \<or> isnan x \<or> isnan l \<Longrightarrow> isnan (hwf_seasonal_deviation fs g p x l)"
    and init_deviation_nan: "isnan p \<or> isnan x \<Longrightarrow> isnan (hwf_init_seasonal_deviation fs p x)"
    and identity_known: "\<not> isnan (hwf_identity fs)"

lemmas hw_math_defs = hw_additive_calculate_prediction_def hw_additive_calculate_intercept_def
  hw_additive_calculate_seasonality_def hw_additive_init_seasonality_def
  hw_multiplicative_calculate_prediction_def hw_multiplicative_calculate_intercept_def
  hw_multiplicative_calculate_seasonality_def hw_multiplicative_init_seasonality_def
  hw_calculate_slope_def hw_calculate_seasonal_deviation_def hw_init_seasonal_deviation_def

lemma not_isnan_D1 [simp, nan_simps]: "\<not> isnan D1"
  by (simp add: isnan_def D1_def mag_def inf_mag_def)

interpretation hw_add: hw_interface hw_additive_functions
  by unfold_locales (auto simp: hw_additive_functions_def hw_math_defs)

interpretation hw_mult: hw_interface hw_multiplicative_functions
  by unfold_locales (auto simp: hw_multiplicative_functions_def hw_math_defs)

end
