(* ===== verification/Hw_Update.thy ===== *)
theory Hw_Update
  imports Hw_Math
begin

text \<open>
  The update routines of the aberrant-behaviour archives (\<open>rrd_hw_update.c\<close>). A \<open>cdp_prep\<close>
  area is addressed by its index; \<open>scratch\<close> and \<open>set_scratch\<close> read and write one of its ten
  words. The FAILURES routine uses the same words as an array of eighty bytes.
\<close>

section \<open>Scratch areas\<close>

definition scratch :: "rrd_t \<Rightarrow> nat \<Rightarrow> nat \<Rightarrow> unival" where
  "scratch r cdp_idx k = cdp_prep r ! cdp_idx ! k"

definition set_scratch :: "nat \<Rightarrow> nat \<Rightarrow> unival \<Rightarrow> rrd_t \<Rightarrow> rrd_t" where
  "set_scratch cdp_idx k v r =
     r\<lparr>cdp_prep := (cdp_prep r)[cdp_idx := (cdp_prep r ! cdp_idx)[k := v]]\<rparr>"

definition par_of :: "rrd_t \<Rightarrow> nat \<Rightarrow> nat \<Rightarrow> unival" where
  "par_of r rra_idx k = rra_par (rra_def r ! rra_idx) ! k"

text \<open>\<open>par[RRA_dependent_rra_idx].u_cnt\<close>, and the scratch area of a data source in an
  archive.\<close>

definition hw_dep_idx :: "rrd_t \<Rightarrow> nat \<Rightarrow> nat" where
  "hw_dep_idx r rra_idx = unat (par_of r rra_idx RRA_dependent_rra_idx)"

definition cdp_index :: "rrd_t \<Rightarrow> nat \<Rightarrow> nat \<Rightarrow> nat" where
  "cdp_index r rra_idx ds_idx = rra_idx * n_ds r + ds_idx"

text \<open>The \<open>null_count\<close> parameter of the predictors is an \<open>int\<close>.\<close>

definition null_int :: "unival \<Rightarrow> int" where
  "null_int w = wrap_int (uint w)"

lemma set_scratch_defs [simp]:
  "stat_head (set_scratch i k v r) = stat_head r" "ds_def (set_scratch i k v r) = ds_def r"
  "rra_def (set_scratch i k v r) = rra_def r" "rra_ptr (set_scratch i k v r) = rra_ptr r"
  "pdp_prep (set_scratch i k v r) = pdp_prep r" "live_head (set_scratch i k v r) = live_head r"
  "legacy_last_up (set_scratch i k v r) = legacy_last_up r"
  "length (cdp_prep (set_scratch i k v r)) = length (cdp_prep r)"
  by (simp_all add: set_scratch_def)

lemma par_of_set_scratch [simp]: "par_of (set_scratch i k v r) = par_of r"
  by (simp add: par_of_def fun_eq_iff)

lemma cdp_index_set_scratch [simp]: "cdp_index (set_scratch i k v r) = cdp_index r"
  by (simp add: cdp_index_def fun_eq_iff)

lemma scratch_set_same:
  "i < length (cdp_prep r) \<Longrightarrow> k < length (cdp_prep r ! i) \<Longrightarrow> scratch (set_scratch i k v r) i k = v"
  by (simp add: scratch_def set_scratch_def)

lemma scratch_set_other:
  "i \<noteq> j \<or> k \<noteq> l \<Longrightarrow> scratch (set_scratch i k v r) j l = scratch r j l"
  by (cases "i < length (cdp_prep r)"; cases "i = j")
     (auto simp: scratch_def set_scratch_def list_update_beyond)

lemma wf_set_scratch [wf_intros]: "wf_rrd r \<Longrightarrow> wf_rrd (set_scratch i k v r)"
proof (cases "i < length (cdp_prep r)")
  case True
  assume wf: "wf_rrd r"
  with True have "length (cdp_prep r ! i) = 10" by (simp add: wf_rrd_def)
  with wf have "\<forall>p \<in> set ((cdp_prep r)[i := (cdp_prep r ! i)[k := v]]). length p = 10"
    by (metis set_update_subset_insert insert_iff subsetD length_list_update wf_rrd_def)
  then show ?thesis unfolding set_scratch_def by (intro wf_cdp_prep_update [OF wf]) simp_all
qed (simp add: set_scratch_def list_update_beyond)

lemma same_defs_set_scratch [simp]: "same_defs r (set_scratch i k v r)"
  by (simp add: same_defs_def)

section \<open>Intercept and slope\<close>

definition init_slope_intercept :: "nat \<Rightarrow> nat \<Rightarrow> rrd_t \<Rightarrow> rrd_t" where
  "init_slope_intercept cdp_idx CDP_scratch_idx r =
     (let v = scratch r cdp_idx CDP_scratch_idx;
          r = set_scratch cdp_idx CDP_hw_intercept v r;
          r = set_scratch cdp_idx CDP_hw_last_intercept v r;
          r = set_scratch cdp_idx CDP_hw_slope 0 r;
          r = set_scratch cdp_idx CDP_hw_last_slope 0 r;
          r = set_scratch cdp_idx CDP_null_count 1 r
      in set_scratch cdp_idx CDP_last_null_count 1 r)"

definition hw_is_violation :: "dbl \<Rightarrow> dbl \<Rightarrow> dbl \<Rightarrow> dbl \<Rightarrow> dbl \<Rightarrow> bool" where
  "hw_is_violation observed prediction deviation delta_pos delta_neg \<longleftrightarrow>
     fgt observed (fadd prediction (fmul delta_pos deviation))
     \<or> flt observed (fsub prediction (fmul delta_neg deviation))"

definition save_coefficients :: "nat \<Rightarrow> rrd_t \<Rightarrow> rrd_t" where
  "save_coefficients i r =
     (let r = set_scratch i CDP_hw_last_intercept (scratch r i CDP_hw_intercept) r;
          r = set_scratch i CDP_hw_last_slope (scratch r i CDP_hw_slope) r
      in set_scratch i CDP_last_null_count (scratch r i CDP_null_count) r)"

definition update_hwpredict ::
  "nat \<Rightarrow> nat \<Rightarrow> nat \<Rightarrow> nat \<Rightarrow> hw_functions_t \<Rightarrow> rrd_t \<Rightarrow> int \<times> rrd_t" where
  "update_hwpredict i rra_idx ds_idx CDP_scratch_idx fs r0 =
     (let r = save_coefficients i r0;
          dep = hw_dep_idx r rra_idx;
          s = cdp_index r dep ds_idx;
          seasonal_coef = (if dep < rra_idx then scratch r s CDP_hw_last_seasonal
                           else scratch r s CDP_hw_seasonal);
          intercept = scratch r i CDP_hw_intercept; slope = scratch r i CDP_hw_slope;
          (prediction, r1) =
            (if isnan intercept \<or> isnan slope \<or> isnan seasonal_coef then
               (DNAN, if isnan intercept \<and> \<not> isnan (scratch r i CDP_scratch_idx)
                      then init_slope_intercept i CDP_scratch_idx r else r)
             else
               (hwf_predict fs intercept slope (null_int (scratch r i CDP_null_count)) seasonal_coef,
                if isnan (scratch r i CDP_scratch_idx)
                then set_scratch i CDP_null_count (scratch r i CDP_null_count + 1) r
                else
                  (let r2 = set_scratch i CDP_hw_intercept
                              (hwf_intercept fs (par_of r rra_idx RRA_hw_alpha)
                                 (scratch r i CDP_scratch_idx) seasonal_coef (cdp_prep r ! i)) r;
                       r3 = set_scratch i CDP_hw_slope
                              (hwf_slope fs (par_of r2 rra_idx RRA_hw_beta) (cdp_prep r2 ! i)) r2
                   in set_scratch i CDP_null_count 1 r3)))
      in (0, set_scratch i CDP_scratch_idx prediction r1))"

section \<open>Seasonal coefficients\<close>

definition update_seasonal ::
  "nat \<Rightarrow> nat \<Rightarrow> nat \<Rightarrow> nat \<Rightarrow> dbl list \<Rightarrow> hw_functions_t \<Rightarrow> rrd_t \<Rightarrow> int \<times> rrd_t" where
  "update_seasonal i rra_idx ds_idx CDP_scratch_idx seasonal_coef fs r0 =
     (let dep = hw_dep_idx r0 rra_idx;
          hw = cdp_index r0 dep ds_idx;
          seasonal = scratch r0 i CDP_hw_seasonal;
          r1 = set_scratch i CDP_hw_last_seasonal seasonal r0;
          r = set_scratch i CDP_hw_seasonal (seasonal_coef ! ds_idx) r1;
          x = scratch r i CDP_scratch_idx; gamma = par_of r rra_idx RRA_seasonal_gamma
      in (0, set_scratch i CDP_scratch_idx
        (if isnan x then seasonal
         else if dep < rra_idx then
           (if isnan (scratch r hw CDP_hw_last_intercept) \<or> isnan (scratch r hw CDP_hw_last_slope)
            then DNAN
            else if isnan seasonal
            then hwf_init_seasonality fs x (scratch r hw CDP_hw_last_intercept)
            else hwf_seasonality fs gamma x (scratch r hw CDP_hw_intercept) seasonal)
         else
           (if isnan (scratch r hw CDP_hw_intercept) \<or> isnan (scratch r hw CDP_hw_slope)
            then hwf_identity fs
            else if isnan seasonal
            then hwf_init_seasonality fs x (scratch r hw CDP_hw_intercept)
            else hwf_seasonality fs gamma x
                   (hwf_intercept fs (par_of r dep RRA_hw_alpha) x seasonal (cdp_prep r ! hw))
                   seasonal)) r))"

section \<open>Deviations\<close>

definition update_devpredict :: "nat \<Rightarrow> nat \<Rightarrow> nat \<Rightarrow> nat \<Rightarrow> rrd_t \<Rightarrow> int \<times> rrd_t" where
  "update_devpredict i rra_idx ds_idx CDP_scratch_idx r =
     (let dep = hw_dep_idx r rra_idx; s = cdp_index r dep ds_idx
      in (0, set_scratch i CDP_scratch_idx
               (if dep < rra_idx then scratch r s CDP_last_seasonal_deviation
                else scratch r s CDP_seasonal_deviation) r))"

definition update_devseasonal ::
  "nat \<Rightarrow> nat \<Rightarrow> nat \<Rightarrow> nat \<Rightarrow> dbl list \<Rightarrow> hw_functions_t \<Rightarrow> rrd_t \<Rightarrow> int \<times> rrd_t" where
  "update_devseasonal i rra_idx ds_idx CDP_scratch_idx seasonal_dev fs r0 =
     (let hw_rra = hw_dep_idx r0 rra_idx;
          hw = cdp_index r0 hw_rra ds_idx;
          r1 = set_scratch i CDP_last_seasonal_deviation (scratch r0 i CDP_seasonal_deviation) r0;
          r = set_scratch i CDP_seasonal_deviation (seasonal_dev ! ds_idx) r1;
          sdep = hw_dep_idx r hw_rra;
          s = cdp_index r sdep ds_idx;
          seasonal_coef = (if sdep < rra_idx then scratch r s CDP_hw_last_seasonal
                           else scratch r s CDP_hw_seasonal);
          (intercept, slope, nulls) =
            (if hw_rra < rra_idx
             then (scratch r hw CDP_hw_last_intercept, scratch r hw CDP_hw_last_slope,
                   scratch r hw CDP_last_null_count)
             else (scratch r hw CDP_hw_intercept, scratch r hw CDP_hw_slope,
                   scratch r hw CDP_null_count));
          x = scratch r i CDP_scratch_idx; old = scratch r i CDP_last_seasonal_deviation
      in (0, set_scratch i CDP_scratch_idx
        (if isnan intercept \<or> isnan slope \<or> isnan seasonal_coef then DNAN
         else
           (let prediction = hwf_predict fs intercept slope (null_int nulls) seasonal_coef in
            if isnan x then old
            else if isnan old then hwf_init_seasonal_deviation fs prediction x
            else hwf_seasonal_deviation fs (par_of r rra_idx RRA_seasonal_gamma) prediction x old))
        r))"

section \<open>Failures\<close>

text \<open>The scratch area as bytes, lowest byte of a word first.\<close>

definition scratch_byte :: "unival list \<Rightarrow> nat \<Rightarrow> int" where
  "scratch_byte ws k = uint (ws ! (k div 8)) div 256 ^ (k mod 8) mod 256"

definition set_byte :: "nat \<Rightarrow> int \<Rightarrow> unival list \<Rightarrow> unival list" where
  "set_byte k b ws =
     ws[k div 8 := word_of_int (uint (ws ! (k div 8))
        + (b mod 256 - scratch_byte ws k) * 256 ^ (k mod 8))]"

text \<open>The shift of the window by one place, from its end; each entry shifted is counted into
  the \<open>unsigned short\<close>.\<close>

fun shift_violations :: "nat \<Rightarrow> unival list \<Rightarrow> int \<Rightarrow> unival list \<times> int" where
  "shift_violations i ws violation_cnt =
     (if i > 1 then
        (let ws' = set_byte (i - 1) (scratch_byte ws (i - 2)) ws
         in shift_violations (i - 1) ws'
              ((violation_cnt + wrap_char (scratch_byte ws' (i - 1))) mod 2 ^ 16))
      else (ws, violation_cnt))"

declare shift_violations.simps [simp del]

definition is_violation_now ::
  "nat \<Rightarrow> nat \<Rightarrow> nat \<Rightarrow> nat \<Rightarrow> hw_functions_t \<Rightarrow> rrd_t \<Rightarrow> bool" where
  "is_violation_now i rra_idx ds_idx CDP_scratch_idx fs r =
     (let dev_rra = hw_dep_idx r rra_idx;
          hw_rra = hw_dep_idx r dev_rra;
          seasonal_rra = hw_dep_idx r hw_rra;
          d = cdp_index r dev_rra ds_idx; s = cdp_index r seasonal_rra ds_idx;
          h = cdp_index r hw_rra ds_idx;
          deviation = (if rra_idx < seasonal_rra then scratch r d CDP_seasonal_deviation
                       else scratch r d CDP_last_seasonal_deviation)
      in if isnan deviation then False
         else
           (let seasonal_coef = (if rra_idx < seasonal_rra then scratch r s CDP_hw_seasonal
                                 else scratch r s CDP_hw_last_seasonal);
                prediction =
                  (if rra_idx < hw_rra
                   then hwf_predict fs (scratch r h CDP_hw_intercept) (scratch r h CDP_hw_slope)
                          (null_int (scratch r h CDP_null_count)) seasonal_coef
                   else hwf_predict fs (scratch r h CDP_hw_last_intercept)
                          (scratch r h CDP_hw_last_slope)
                          (null_int (scratch r h CDP_last_null_count)) seasonal_coef);
                x = scratch r i CDP_scratch_idx
            in if \<not> isnan x
               then hw_is_violation x prediction deviation (par_of r rra_idx RRA_delta_pos)
                      (par_of r rra_idx RRA_delta_neg)
               else True))"

definition update_failures ::
  "nat \<Rightarrow> nat \<Rightarrow> nat \<Rightarrow> nat \<Rightarrow> hw_functions_t \<Rightarrow> rrd_t \<Rightarrow> int \<times> rrd_t" where
  "update_failures i rra_idx ds_idx CDP_scratch_idx fs r =
     (let violation = (if is_violation_now i rra_idx ds_idx CDP_scratch_idx fs r then 1 else 0);
          window = unat (par_of r rra_idx RRA_window_len) mod 2 ^ 16;
          (ws, violation_cnt) = shift_violations window (cdp_prep r ! i) violation;
          r1 = r\<lparr>cdp_prep := (cdp_prep r)[i := set_byte 0 violation ws]\<rparr>;
          failed = (violation_cnt \<ge> uint (par_of r rra_idx RRA_failure_threshold))
      in ((if failed then 1 else 0),
          set_scratch i CDP_scratch_idx (if failed then D1 else 0) r1))"

end
