(* ===== verification/Hw.thy ===== *)
theory Hw
  imports Hw_Update Rrd_File "HOL-Library.Monad_Syntax"
begin

text \<open>
  Support for the aberrant-behaviour archives (\<open>rrd_hw.c\<close>): the lookup of seasonal rows, the
  reset of the coefficients, the moving-average smoother with its FIFO queues, and the dispatch
  to the update routines. \<open>None\<close> is undefined behaviour.
\<close>

section \<open>Queues\<close>

record FIFOqueue =
  queue :: "dbl list"
  capacity :: int
  q_head :: int
  q_tail :: int

definition queue_alloc :: "int \<Rightarrow> FIFOqueue" where
  "queue_alloc cap =
     \<lparr>queue = replicate (nat cap) 0, capacity = cap, q_head = cap, q_tail = 0\<rparr>"

definition queue_isempty :: "FIFOqueue \<Rightarrow> bool" where
  "queue_isempty q \<longleftrightarrow> q_head q mod capacity q = q_tail q"

definition queue_push :: "dbl \<Rightarrow> FIFOqueue \<Rightarrow> FIFOqueue" where
  "queue_push v q =
     q\<lparr>queue := (queue q)[nat (q_tail q) := v], q_tail := (q_tail q + 1) mod capacity q\<rparr>"

definition queue_pop :: "FIFOqueue \<Rightarrow> dbl \<times> FIFOqueue" where
  "queue_pop q =
     (let h = q_head q mod capacity q in (queue q ! nat h, q\<lparr>q_head := h + 1\<rparr>))"

text \<open>What the smoother relies on: a queue that holds fewer elements than its capacity takes one
  more, and elements come out in the order they went in.\<close>

locale fifo =
  fixes push :: "'a \<Rightarrow> 'q \<Rightarrow> 'q" and pop :: "'q \<Rightarrow> 'a \<times> 'q"
    and holds :: "'q \<Rightarrow> 'a list \<Rightarrow> bool" and cap :: nat
  assumes push_holds: "holds q xs \<Longrightarrow> length xs < cap \<Longrightarrow> holds (push v q) (xs @ [v])"
    and pop_first: "holds q (x # xs) \<Longrightarrow> fst (pop q) = x"
    and pop_holds: "holds q (x # xs) \<Longrightarrow> holds (snd (pop q)) xs"
begin

text \<open>A window of fixed width: once \<open>w\<close> elements are in, a push followed by a pop gives the
  element that came \<open>w\<close> pushes before.\<close>

lemma slide:
  assumes "holds q xs" "length xs < cap" "xs \<noteq> []"
  shows "fst (pop (push v q)) = hd xs" "holds (snd (pop (push v q))) (tl xs @ [v])"
proof -
  from assms(3) obtain y ys where xs: "xs = y # ys" by (cases xs) auto
  have h: "holds (push v q) (y # (ys @ [v]))" using push_holds [OF assms(1,2)] xs by simp
  show "fst (pop (push v q)) = hd xs" using pop_first [OF h] xs by simp
  show "holds (snd (pop (push v q))) (tl xs @ [v])" using pop_holds [OF h] xs by simp
qed

lemma push_all: "holds q xs \<Longrightarrow> length xs + length vs \<le> cap \<Longrightarrow> holds (foldl (\<lambda>q v. push v q) q vs) (xs @ vs)"
proof (induction vs arbitrary: q xs)
  case (Cons v vs)
  then have "holds (push v q) (xs @ [v])" by (intro push_holds) auto
  with Cons show ?case by (auto dest: Cons.IH)
qed simp

end

definition fifo_holds :: "nat \<Rightarrow> FIFOqueue \<Rightarrow> dbl list \<Rightarrow> bool" where
  "fifo_holds n q xs \<longleftrightarrow>
     0 < n \<and> capacity q = int n \<and> length (queue q) = n \<and> length xs \<le> n \<and> 0 \<le> q_head q
     \<and> q_tail q = (q_head q + int (length xs)) mod int n
     \<and> (\<forall>k < length xs. queue q ! nat ((q_head q + int k) mod int n) = xs ! k)"

lemma mod_step: "(a mod n + 1 + b) mod n = (a + (1 + b)) mod (n :: int)"
  by (metis add.assoc mod_add_left_eq)

interpretation fq: fifo queue_push queue_pop "fifo_holds n" n for n
proof
  fix q :: FIFOqueue and xs and v x :: dbl
  show "fifo_holds n (queue_push v q) (xs @ [v])" if h: "fifo_holds n q xs" and l: "length xs < n"
  proof -
    have ne: "(q_head q + int k) mod int n \<noteq> q_tail q" if k: "k < length xs" for k
    proof
      assume "(q_head q + int k) mod int n = q_tail q"
      then have "int n dvd int k - int (length xs)"
        using h by (auto simp: fifo_holds_def mod_eq_dvd_iff)
      then have "int n dvd int (length xs) - int k" by (subst dvd_diff_commute)
      moreover have "0 < int (length xs) - int k" "int (length xs) - int k < int n" using k l by auto
      ultimately show False using zdvd_imp_le by fastforce
    qed
    have t: "nat (q_tail q) < n" "0 \<le> q_tail q"
      using h by (auto simp: fifo_holds_def nat_less_iff)
    have "queue (queue_push v q) ! nat ((q_head q + int k) mod int n) = (xs @ [v]) ! k"
      if k: "k < length (xs @ [v])" for k
    proof (cases "k < length xs")
      case True
      with ne [of k] t have "nat ((q_head q + int k) mod int n) \<noteq> nat (q_tail q)"
        using h by (simp add: fifo_holds_def nat_eq_iff2)
      with True h show ?thesis by (simp add: fifo_holds_def queue_push_def nth_append)
    next
      case False
      with k have "k = length xs" by simp
      with h t show ?thesis by (simp add: fifo_holds_def queue_push_def nth_append)
    qed
    with h l show ?thesis
      by (simp add: fifo_holds_def queue_push_def mod_simps ac_simps)
  qed
  assume h: "fifo_holds n q (x # xs)"
  then show "fst (queue_pop q) = x"
    by (auto simp: fifo_holds_def queue_pop_def Let_def)
  have "queue q ! nat ((q_head q mod int n + 1 + int k) mod int n) = xs ! k" if "k < length xs" for k
  proof -
    have "\<forall>k < length (x # xs). queue q ! nat ((q_head q + int k) mod int n) = (x # xs) ! k"
      using h unfolding fifo_holds_def by blast
    then have "queue q ! nat ((q_head q + int (Suc k)) mod int n) = (x # xs) ! Suc k"
      using that by (metis Suc_less_eq length_Cons)
    moreover have "(q_head q mod int n + 1 + int k) mod int n = (q_head q + int (Suc k)) mod int n"
      by (simp add: mod_step)
    ultimately show ?thesis by simp
  qed
  moreover have "(q_head q mod int n + 1 + int (length xs)) mod int n
      = (q_head q + int (length (x # xs))) mod int n"
    by (simp add: mod_step)
  ultimately show "fifo_holds n (snd (queue_pop q)) xs"
    using h by (simp add: fifo_holds_def queue_pop_def Let_def)
qed

lemma queue_alloc_holds: "0 < n \<Longrightarrow> fifo_holds n (queue_alloc (int n)) []"
  by (simp add: fifo_holds_def queue_alloc_def)

section \<open>Seasonal rows\<close>

definition row_bytes :: "rrd_t \<Rightarrow> nat" where
  "row_bytes r = n_ds r * sizeof_value"

text \<open>\<open>cur_row + offset\<close> with its wrap-around; without rows the remainder is undefined.\<close>

definition seasonal_row :: "rrd_t \<Rightarrow> nat \<Rightarrow> ulong \<Rightarrow> ulong option" where
  "seasonal_row r rra_idx off =
     (let row_idx = rra_ptr r ! rra_idx + off; n = row_cnt (rra_def r ! rra_idx)
      in if row_idx \<ge> n then (if n = 0 then None else Some (row_idx mod n)) else Some row_idx)"

text \<open>The buffer of coefficients is allocated on first use and then reused; a short read fills
  only its start.\<close>

definition lookup_seasonal ::
  "nat \<Rightarrow> nat \<Rightarrow> ulong \<Rightarrow> dbl list \<Rightarrow> world \<Rightarrow> (int \<times> dbl list \<times> world) option" where
  "lookup_seasonal rra_idx rra_start off buf w =
     do {
       row_idx \<leftarrow> seasonal_row (db w) rra_idx off;
       let pos_tmp = rra_start + unat row_idx * row_bytes (db w);
       (got, vs, f) \<leftarrow> rrd_read (snd (rrd_seek (dbfile w) pos_tmp SEEK_SET)) (n_ds (db w));
       let buf' = vs @ drop (length vs) buf;
       let w' = w\<lparr>dbfile := f\<rparr>;
       if got = int (row_bytes (db w)) then Some (0, buf', w')
       else Some (- 1, buf', rrd_set_error
              (''read operation failed in lookup_seasonal(): '' @ show_nat pos_tmp @ [CHR 0x0A]) w')
     }"

section \<open>Initialisation and erasure\<close>

definition init_hwpredict_cdp :: "cdp_prep_t \<Rightarrow> cdp_prep_t" where
  "init_hwpredict_cdp s =
     s[CDP_hw_intercept := DNAN, CDP_hw_last_intercept := DNAN, CDP_hw_slope := DNAN,
       CDP_hw_last_slope := DNAN, CDP_null_count := 1, CDP_last_null_count := 1]"

definition init_seasonal_cdp :: "cdp_prep_t \<Rightarrow> cdp_prep_t" where
  "init_seasonal_cdp s =
     s[CDP_hw_seasonal := DNAN, CDP_hw_last_seasonal := DNAN, CDP_init_seasonal := 1]"

fun clear_bytes :: "nat \<Rightarrow> cdp_prep_t \<Rightarrow> cdp_prep_t" where
  "clear_bytes 0 s = s"
| "clear_bytes (Suc i) s = clear_bytes i (set_byte i 0 s)"

definition set_cdp :: "nat \<Rightarrow> cdp_prep_t \<Rightarrow> rrd_t \<Rightarrow> rrd_t" where
  "set_cdp i s r = r\<lparr>cdp_prep := (cdp_prep r)[i := s]\<rparr>"

definition erase_violations :: "nat \<Rightarrow> nat \<Rightarrow> world \<Rightarrow> world" where
  "erase_violations cdp_idx rra_idx w =
     (case cf_conv (cf_nam (rra_def (db w) ! rra_idx)) w of (cf, w1) \<Rightarrow>
        if cf \<noteq> Some CF_FAILURES then w1
        else w1\<lparr>db := set_cdp cdp_idx
               (clear_bytes (unat (par_of (db w1) rra_idx RRA_window_len) mod 2 ^ 16)
                  (cdp_prep (db w1) ! cdp_idx)) (db w1)\<rparr>)"

section \<open>The smoother\<close>

definition MyMod :: "int \<Rightarrow> nat \<Rightarrow> nat" where
  "MyMod v m =
     (let a = wrap_int v; av = (if a = - (2 ^ 31) then 2 ^ 64 - 2 ^ 31 else nat \<bar>a\<bar>)
      in if v < 0 then m - av mod m else nat v mod m)"

definition smoother_offset :: "rrd_t \<Rightarrow> nat \<Rightarrow> ulong" where
  "smoother_offset r rra_idx =
     (let rows = dbl_of_ulong (row_cnt (rra_def r ! rra_idx)) in
      if atoi (version (stat_head r)) \<ge> 4
      then dbl_to_ulong (ffloor (fmul (fdiv (par_of r rra_idx RRA_seasonal_smoothing_window) D2) rows))
      else dbl_to_ulong (ffloor (fmul (fdiv (dlit 5 100) D2) rows)))"

text \<open>The values of the archive, one read each; the inner \<open>None\<close> is an unknown value, at which
  the reading stops. Going on after a failed read would use a value never read.\<close>

fun read_known :: "nat \<Rightarrow> rrd_file_t \<Rightarrow> (dbl list option \<times> rrd_file_t) option" where
  "read_known 0 f = Some (Some [], f)"
| "read_known (Suc n) f =
     (case rrd_read f 1 of
        Some (_, [v], f') \<Rightarrow>
          (if isnan v then Some (None, f')
           else (case read_known n f' of
                   None \<Rightarrow> None | Some (vs, f'') \<Rightarrow> Some (map_option ((#) v) vs, f'')))
      | _ \<Rightarrow> None)"

record smoother =
  rrd_values :: "dbl list"
  buffers :: "FIFOqueue list"
  working_average :: "dbl list"
  baseline :: "dbl list"

definition smooth_init :: "nat \<Rightarrow> nat \<Rightarrow> dbl list \<Rightarrow> smoother" where
  "smooth_init row_length off vs =
     \<lparr>rrd_values = vs, buffers = replicate row_length (queue_alloc (int (2 * off + 1))),
      working_average = replicate row_length 0, baseline = replicate row_length 0\<rparr>"

text \<open>A term of the first sum, for data source \<open>j\<close>.\<close>

definition smooth_fill :: "nat \<Rightarrow> nat \<Rightarrow> nat \<Rightarrow> nat \<Rightarrow> nat \<Rightarrow> smoother \<Rightarrow> smoother option" where
  "smooth_fill row_length row_count off i j s =
     do {
       let k = MyMod (int i - int off) row_count;
       v \<leftarrow> aget (rrd_values s) (k * row_length + j);
       Some (s\<lparr>buffers := (buffers s)[j := queue_push v (buffers s ! j)],
               working_average := (working_average s)[j := fadd (working_average s ! j) v]\<rparr>)
     }"

text \<open>A step of the window: add the new term, store the average at the centre, drop the oldest
  term.\<close>

definition smooth_step :: "nat \<Rightarrow> nat \<Rightarrow> nat \<Rightarrow> nat \<Rightarrow> nat \<Rightarrow> smoother \<Rightarrow> smoother option" where
  "smooth_step row_length row_count off i j s =
     do {
       v \<leftarrow> aget (rrd_values s) (MyMod (int i) row_count * row_length + j);
       let wa = fadd (working_average s ! j) v;
       let q = queue_push v (buffers s ! j);
       let c = MyMod (int i - int off) row_count * row_length + j;
       _ \<leftarrow> aget (rrd_values s) c;
       let avg = fdiv wa (dbl_of_ulong (2 * of_nat off + 1));
       let (oldest, q') = queue_pop q;
       Some (s\<lparr>rrd_values := (rrd_values s)[c := avg],
               buffers := (buffers s)[j := q'],
               working_average := (working_average s)[j := fsub wa oldest],
               baseline := (baseline s)[j := fadd (baseline s ! j) avg]\<rparr>)
     }"

definition moving_averages :: "nat \<Rightarrow> nat \<Rightarrow> nat \<Rightarrow> dbl list \<Rightarrow> (dbl list \<times> dbl list) option" where
  "moving_averages row_length row_count off vs =
     do {
       s1 \<leftarrow> loopO (\<lambda>i. loopO (smooth_fill row_length row_count off i) [0..<row_length])
               [0..<2 * off] (smooth_init row_length off vs);
       s2 \<leftarrow> loopO (\<lambda>i. loopO (smooth_step row_length row_count off i) [0..<row_length])
               [off..<row_count + off] s1;
       Some (rrd_values s2, map (\<lambda>b. fdiv b (dbl_of_ulong (of_nat row_count))) (baseline s2))
     }"

text \<open>The seasonal values are taken relative to the baseline, which goes to the intercepts of
  the dependent archive.\<close>

definition rebase_values :: "(dbl \<Rightarrow> dbl \<Rightarrow> dbl) \<Rightarrow> nat \<Rightarrow> dbl list \<Rightarrow> dbl list \<Rightarrow> dbl list" where
  "rebase_values init_seasonality row_length base vs =
     map (\<lambda>(k, v). init_seasonality v (base ! (k mod row_length))) (zip [0..<length vs] vs)"

fun add_baseline :: "nat \<Rightarrow> dbl list \<Rightarrow> nat \<Rightarrow> rrd_t \<Rightarrow> rrd_t" where
  "add_baseline first [] j r = r"
| "add_baseline first (b # bs) j r =
     add_baseline first bs (Suc j)
       (set_scratch (first + j) CDP_hw_intercept (fadd (scratch r (first + j) CDP_hw_intercept) b) r)"

text \<open>Flushing the header areas copies the mapped memory onto itself. With the shorter live head
  of old versions the target is eight bytes off, an overlapping copy.\<close>

definition flush_cdp :: "nat \<Rightarrow> world \<Rightarrow> world option" where
  "flush_cdp cdp_start w =
     (if atoi (version (stat_head (db w))) < 3 then None
      else Some (w\<lparr>dbfile := (dbfile w)\<lparr>pos := cdp_start
                    + sizeof_cdp_prep * n_rra (db w) * n_ds (db w)\<rparr>\<rparr>))"

definition cdp_offset :: "rrd_t \<Rightarrow> nat" where
  "cdp_offset r =
     sizeof_stat_head + n_ds r * sizeof_ds_def + n_rra r * sizeof_rra_def + sizeof_live_head
     + n_ds r * sizeof_pdp_prep"

definition write_smoothed :: "nat \<Rightarrow> dbl list \<Rightarrow> world \<Rightarrow> (int \<times> world) option" where
  "write_smoothed rra_start vs w =
     do {
       (got, w') \<leftarrow> rrd_write (w\<lparr>dbfile := snd (rrd_seek (dbfile w) rra_start SEEK_SET)\<rparr>) vs;
       if got \<noteq> int (length vs * sizeof_value)
       then Some (- 1, rrd_set_error (''apply_smoother: write failed to '' @ show_nat rra_start) w')
       else Some (0, w')
     }"

text \<open>The part behind the averages. The names of the consolidation functions are converted only
  for a known \<open>SEASONAL\<close> archive.\<close>

definition finish_smoother ::
  "nat \<Rightarrow> nat \<Rightarrow> dbl list \<Rightarrow> dbl list \<Rightarrow> world \<Rightarrow> (int \<times> world) option" where
  "finish_smoother rra_idx rra_start vs base w =
     (case cf_conv (cf_nam (rra_def (db w) ! rra_idx)) w of (cf, w1) \<Rightarrow>
        if cf \<noteq> Some CF_SEASONAL then write_smoothed rra_start vs w1
        else
          (let r = db w1; dep = hw_dep_idx r rra_idx; nm = cf_nam (rra_def r ! dep);
               rebase = (\<lambda>init w2.
                 do {
                   w3 \<leftarrow> flush_cdp (cdp_offset r) (w2\<lparr>db := add_baseline (dep * n_ds r) base 0 r\<rparr>);
                   write_smoothed rra_start (rebase_values init (n_ds r) base vs) w3
                 })
           in case cf_conv nm w1 of
                (Some CF_HWPREDICT, w2) \<Rightarrow> rebase hw_additive_init_seasonality w2
              | (Some CF_MHWPREDICT, w2) \<Rightarrow> rebase hw_multiplicative_init_seasonality w2
              | (_, w2) \<Rightarrow> Some (- 1, rrd_set_error
                  (''apply smoother: SEASONAL rra does'' @ [CHR ''n'', CHR 0x27] @ ''t have valid dependency: '' @ nm) w2)))"

definition apply_smoother :: "nat \<Rightarrow> nat \<Rightarrow> world \<Rightarrow> (int \<times> world) option" where
  "apply_smoother rra_idx rra_start w =
     (let r = db w; row_length = n_ds r; row_count = unat (row_cnt (rra_def r ! rra_idx));
          off = unat (smoother_offset r rra_idx) in
      if off = 0 then Some (0, w)
      else
        (case read_known (row_length * row_count)
                (snd (rrd_seek (dbfile w) rra_start SEEK_SET)) of
           None \<Rightarrow> None
         | Some (None, f) \<Rightarrow> Some (0, w\<lparr>dbfile := f\<rparr>)
         | Some (Some vs, f) \<Rightarrow>
             (if 2 * off + 1 \<ge> 2 ^ 31 \<or> row_count = 0 then None
              else
                do {
                  (vs', base) \<leftarrow> moving_averages row_length row_count off vs;
                  finish_smoother rra_idx rra_start vs' base (w\<lparr>dbfile := f\<rparr>)
                })))"

section \<open>Resetting a data source\<close>

text \<open>The NaN at every row of one data source: the loop of writes, each followed by a seek over
  the other data sources of the row. The inner \<open>False\<close> is a failed write.\<close>

fun reset_rows :: "nat \<Rightarrow> world \<Rightarrow> (bool \<times> world) option" where
  "reset_rows 0 w = Some (True, w)"
| "reset_rows (Suc n) w =
     (case rrd_write w [DNAN] of
        None \<Rightarrow> None
      | Some (got, w') \<Rightarrow>
          (if got \<noteq> int sizeof_value then Some (False, w')
           else reset_rows n
             (w'\<lparr>dbfile := snd (rrd_seek (dbfile w') ((n_ds (db w') - 1) * sizeof_value) SEEK_CUR)\<rparr>)))"

definition reset_rra :: "nat \<Rightarrow> nat \<Rightarrow> nat \<Rightarrow> world \<Rightarrow> (bool \<times> world) option" where
  "reset_rra ds_idx rra_idx rra_start w0 =
     (let cdp_idx = cdp_index (db w0) rra_idx ds_idx in
      case cf_conv (cf_nam (rra_def (db w0) ! rra_idx)) w0 of (cf, w) \<Rightarrow>
        if cf = Some CF_HWPREDICT \<or> cf = Some CF_MHWPREDICT then
          Some (True, w\<lparr>db := set_cdp cdp_idx (init_hwpredict_cdp (cdp_prep (db w) ! cdp_idx)) (db w)\<rparr>)
        else if cf = Some CF_SEASONAL \<or> cf = Some CF_DEVSEASONAL then
          (let r = set_scratch cdp_idx CDP_hw_last_seasonal DNAN
                     (set_scratch cdp_idx CDP_hw_seasonal DNAN (db w));
               w1 = w\<lparr>db := r, dbfile := snd (rrd_seek (dbfile w)
                        (rra_start + ds_idx * sizeof_value) SEEK_SET)\<rparr>
           in case reset_rows (unat (row_cnt (rra_def r ! rra_idx))) w1 of
                None \<Rightarrow> None
              | Some (True, w2) \<Rightarrow> Some (True, w2)
              | Some (False, w2) \<Rightarrow> Some (False, rrd_set_error
                  (''reset_aberrant_coefficients: write failed data source '' @ show_nat ds_idx
                    @ '' rra '' @ cf_nam (rra_def r ! rra_idx)) w2))
        else if cf = Some CF_FAILURES then Some (True, erase_violations cdp_idx rra_idx w)
        else Some (True, w))"

fun reset_rras :: "nat \<Rightarrow> nat list \<Rightarrow> nat \<Rightarrow> world \<Rightarrow> (bool \<times> world) option" where
  "reset_rras ds_idx [] rra_start w = Some (True, w)"
| "reset_rras ds_idx (i # is) rra_start w =
     (case reset_rra ds_idx i rra_start w of
        Some (True, w') \<Rightarrow>
          reset_rras ds_idx is (rra_start + rra_size (db w') i * sizeof_value) w'
      | res \<Rightarrow> res)"

definition reset_aberrant_coefficients :: "nat \<Rightarrow> world \<Rightarrow> world option" where
  "reset_aberrant_coefficients ds_idx w =
     (let r = db w; cdp_start = cdp_offset r;
          rra_start = cdp_start + n_ds r * n_rra r * sizeof_cdp_prep + n_rra r * sizeof_rra_ptr
      in case reset_rras ds_idx [0..<n_rra r] rra_start w of
           None \<Rightarrow> None
         | Some (False, w') \<Rightarrow> Some w'
         | Some (True, w') \<Rightarrow> flush_cdp cdp_start w')"

section \<open>Dispatch\<close>

text \<open>\<open>update_aberrant_CF\<close>: the scratch cell takes the value of the step, then the routine of
  the archive runs with the functions of the model it depends on.\<close>

definition with_model ::
  "string \<Rightarrow> (hw_functions_t \<Rightarrow> rrd_t \<Rightarrow> int \<times> rrd_t) \<Rightarrow> world \<Rightarrow> int \<times> world" where
  "with_model nm upd w =
     (case cf_conv nm w of
        (Some CF_HWPREDICT, w1) \<Rightarrow>
          (case upd hw_additive_functions (db w1) of (rc, r) \<Rightarrow> (rc, w1\<lparr>db := r\<rparr>))
      | (Some CF_MHWPREDICT, w1) \<Rightarrow>
          (case upd hw_multiplicative_functions (db w1) of (rc, r) \<Rightarrow> (rc, w1\<lparr>db := r\<rparr>))
      | (_, w1) \<Rightarrow> (- 1, w1))"

definition update_aberrant_CF ::
  "dbl \<Rightarrow> cf_en option \<Rightarrow> nat \<Rightarrow> nat \<Rightarrow> nat \<Rightarrow> nat \<Rightarrow> dbl list \<Rightarrow> world \<Rightarrow> int \<times> world" where
  "update_aberrant_CF pdp_val current_cf cdp_idx rra_idx ds_idx CDP_scratch_idx seasonal_coef w0 =
     (let w = w0\<lparr>db := set_scratch cdp_idx CDP_scratch_idx pdp_val (db w0)\<rparr>;
          dep = hw_dep_idx (db w) rra_idx; dep2 = hw_dep_idx (db w) dep;
          name = (\<lambda>i. cf_nam (rra_def (db w) ! i));
          plain = (\<lambda>upd. case upd (db w) of (rc, r) \<Rightarrow> (rc, w\<lparr>db := r\<rparr>))
      in case current_cf of
           Some CF_HWPREDICT \<Rightarrow>
             plain (update_hwpredict cdp_idx rra_idx ds_idx CDP_scratch_idx hw_additive_functions)
         | Some CF_MHWPREDICT \<Rightarrow>
             plain (update_hwpredict cdp_idx rra_idx ds_idx CDP_scratch_idx hw_multiplicative_functions)
         | Some CF_DEVPREDICT \<Rightarrow>
             plain (update_devpredict cdp_idx rra_idx ds_idx CDP_scratch_idx)
         | Some CF_SEASONAL \<Rightarrow>
             with_model (name dep)
               (update_seasonal cdp_idx rra_idx ds_idx CDP_scratch_idx seasonal_coef) w
         | Some CF_DEVSEASONAL \<Rightarrow>
             with_model (name dep)
               (update_devseasonal cdp_idx rra_idx ds_idx CDP_scratch_idx seasonal_coef) w
         | Some CF_FAILURES \<Rightarrow>
             with_model (name dep2) (update_failures cdp_idx rra_idx ds_idx CDP_scratch_idx) w
         | _ \<Rightarrow> (0, w))"

end
