(* ===== verification/Update_Cdp.thy ===== *)
theory Update_Cdp
  imports Update_Pdp Hw
begin

text \<open>
  Consolidation (\<open>rrd_update.c\<close>): the consolidated data points of all archives for the steps that
  passed, the schedule of the smoother, and the aberrant-behaviour archives.
\<close>

section \<open>Consolidation functions\<close>

definition ifdnan :: "dbl \<Rightarrow> dbl \<Rightarrow> dbl" where
  "ifdnan x y = (if isnan x then y else x)"

definition initialize_cdp_val ::
  "cf_en option \<Rightarrow> dbl \<Rightarrow> ulong \<Rightarrow> ulong \<Rightarrow> unival list \<Rightarrow> unival list" where
  "initialize_cdp_val current_cf pdp_temp_val start_pdp_offset pdps s =
     (let old = s ! CDP_val in
      s[CDP_primary_val :=
        (case current_cf of
           Some CF_AVERAGE \<Rightarrow>
             fdiv (fadd (ifdnan old 0) (fmul (ifdnan pdp_temp_val 0) (dbl_of_ulong start_pdp_offset)))
                  (dbl_of_ulong (pdps - s ! CDP_unkn_pdp_cnt))
         | Some CF_MAXIMUM \<Rightarrow>
             (let cum = ifdnan old (fneg DINF); cur = ifdnan pdp_temp_val (fneg DINF)
              in if fgt cur cum then cur else cum)
         | Some CF_MINIMUM \<Rightarrow>
             (let cum = ifdnan old DINF; cur = ifdnan pdp_temp_val DINF
              in if flt cur cum then cur else cum)
         | _ \<Rightarrow> pdp_temp_val)])"

definition initialize_carry_over ::
  "dbl \<Rightarrow> cf_en option \<Rightarrow> ulong \<Rightarrow> ulong \<Rightarrow> ulong \<Rightarrow> dbl" where
  "initialize_carry_over pdp_temp_val current_cf elapsed_pdp_st start_pdp_offset pdps =
     (let into = (elapsed_pdp_st - start_pdp_offset) mod pdps in
      if into = 0 \<or> isnan pdp_temp_val then
        (case current_cf of
           Some CF_MAXIMUM \<Rightarrow> fneg DINF
         | Some CF_MINIMUM \<Rightarrow> DINF
         | Some CF_AVERAGE \<Rightarrow> 0
         | _ \<Rightarrow> DNAN)
      else
        (case current_cf of
           Some CF_AVERAGE \<Rightarrow> fmul pdp_temp_val (dbl_of_ulong into)
         | _ \<Rightarrow> pdp_temp_val))"

definition calculate_cdp_val :: "dbl \<Rightarrow> dbl \<Rightarrow> ulong \<Rightarrow> cf_en option \<Rightarrow> dbl" where
  "calculate_cdp_val cdp_val pdp_temp_val elapsed_pdp_st current_cf =
     (if isnan cdp_val then
        (if current_cf = Some CF_AVERAGE then fmul pdp_temp_val (dbl_of_ulong elapsed_pdp_st)
         else pdp_temp_val)
      else if current_cf = Some CF_AVERAGE
      then fadd cdp_val (fmul pdp_temp_val (dbl_of_ulong elapsed_pdp_st))
      else if current_cf = Some CF_MINIMUM then (if flt pdp_temp_val cdp_val then pdp_temp_val else cdp_val)
      else if current_cf = Some CF_MAXIMUM then (if fgt pdp_temp_val cdp_val then pdp_temp_val else cdp_val)
      else pdp_temp_val)"

definition update_cdp ::
  "cf_en option \<Rightarrow> dbl \<Rightarrow> ulong \<Rightarrow> ulong \<Rightarrow> ulong \<Rightarrow> ulong \<Rightarrow> dbl \<Rightarrow> unival list \<Rightarrow> unival list" where
  "update_cdp current_cf pdp_temp_val rra_step_cnt elapsed_pdp_st start_pdp_offset pdps xff s0 =
     (if rra_step_cnt \<noteq> 0 then
        (let s1 = (if isnan pdp_temp_val
                   then s0[CDP_unkn_pdp_cnt := s0 ! CDP_unkn_pdp_cnt + start_pdp_offset,
                           CDP_secondary_val := DNAN]
                   else s0[CDP_secondary_val := pdp_temp_val]);
             s2 = (if fgt (dbl_of_ulong (s1 ! CDP_unkn_pdp_cnt)) (fmul (dbl_of_ulong pdps) xff)
                   then s1[CDP_primary_val := DNAN]
                   else initialize_cdp_val current_cf pdp_temp_val start_pdp_offset pdps s1);
             s3 = s2[CDP_val := initialize_carry_over pdp_temp_val current_cf elapsed_pdp_st
                                  start_pdp_offset pdps]
         in s3[CDP_unkn_pdp_cnt := (if isnan pdp_temp_val
                                    then (elapsed_pdp_st - start_pdp_offset) mod pdps else 0)])
      else if isnan pdp_temp_val
      then s0[CDP_unkn_pdp_cnt := s0 ! CDP_unkn_pdp_cnt + elapsed_pdp_st]
      else s0[CDP_val := calculate_cdp_val (s0 ! CDP_val) pdp_temp_val elapsed_pdp_st current_cf])"

section \<open>Archives with one data point per row\<close>

definition upd_cdp :: "nat \<Rightarrow> (unival list \<Rightarrow> unival list) \<Rightarrow> world \<Rightarrow> world" where
  "upd_cdp i f w = w\<lparr>db := set_cdp i (f (cdp_prep (db w) ! i)) (db w)\<rparr>"

definition reset_cdp ::
  "ulong \<Rightarrow> dbl list \<Rightarrow> dbl list \<Rightarrow> dbl list \<Rightarrow> nat \<Rightarrow> nat \<Rightarrow> nat \<Rightarrow> cf_en option \<Rightarrow> world \<Rightarrow> world" where
  "reset_cdp elapsed_pdp_st pdp_temp last_seasonal_coef seasonal_coef rra_idx ds_idx cdp_idx current_cf w =
     (if current_cf = Some CF_SEASONAL \<or> current_cf = Some CF_DEVSEASONAL then
        upd_cdp cdp_idx (\<lambda>s. s[CDP_hw_last_seasonal := last_seasonal_coef ! ds_idx,
                               CDP_hw_seasonal := seasonal_coef ! ds_idx]) w
      else if current_cf = Some CF_HWPREDICT \<or> current_cf = Some CF_MHWPREDICT then
        upd_cdp cdp_idx (\<lambda>s. s[CDP_null_count := s ! CDP_null_count + elapsed_pdp_st,
                               CDP_last_null_count := s ! CDP_last_null_count + (elapsed_pdp_st - 1),
                               CDP_primary_val := DNAN, CDP_secondary_val := DNAN]) w
      else if current_cf = Some CF_DEVPREDICT then
        upd_cdp cdp_idx (\<lambda>s. s[CDP_primary_val := DNAN, CDP_secondary_val := DNAN]) w
      else if current_cf = Some CF_FAILURES then
        erase_violations cdp_idx rra_idx
          (upd_cdp cdp_idx (\<lambda>s. s[CDP_primary_val := 0, CDP_secondary_val := 0]) w)
      else
        upd_cdp cdp_idx (\<lambda>s. s[CDP_primary_val := pdp_temp ! ds_idx,
                               CDP_secondary_val := pdp_temp ! ds_idx]) w)"

section \<open>All data sources of an archive\<close>

text \<open>The result is whether no error is pending.\<close>

fun update_cdp_prep ::
  "nat list \<Rightarrow> ulong \<Rightarrow> ulong \<Rightarrow> ulong \<Rightarrow> nat \<Rightarrow> dbl list \<Rightarrow> dbl list \<Rightarrow> dbl list \<Rightarrow> cf_en option
     \<Rightarrow> world \<Rightarrow> bool \<times> world" where
  "update_cdp_prep [] elapsed_pdp_st start_pdp_offset step_cnt rra_idx pdp_temp last_seasonal
     seasonal current_cf w = (True, w)"
| "update_cdp_prep (j # js) elapsed_pdp_st start_pdp_offset step_cnt rra_idx pdp_temp last_seasonal
     seasonal current_cf w =
     (let rra = rra_def (db w) ! rra_idx;
          cdp_idx = cdp_index (db w) rra_idx j;
          w1 = (if pdp_cnt rra > 1 then
                  upd_cdp cdp_idx (update_cdp current_cf (pdp_temp ! j) step_cnt elapsed_pdp_st
                    start_pdp_offset (pdp_cnt rra) (rra_par rra ! RRA_cdp_xff_val)) w
                else if elapsed_pdp_st > 2 then
                  reset_cdp elapsed_pdp_st pdp_temp last_seasonal seasonal rra_idx j cdp_idx current_cf w
                else w)
      in if rrd_test_error w1 then (False, w1)
         else update_cdp_prep js elapsed_pdp_st start_pdp_offset step_cnt rra_idx pdp_temp
                last_seasonal seasonal current_cf w1)"

section \<open>The schedule of the smoother\<close>

definition BURNIN_CYCLES :: ulong where "BURNIN_CYCLES = 3"

definition do_schedule_smooth :: "nat \<Rightarrow> ulong \<Rightarrow> rrd_t \<Rightarrow> bool \<times> rrd_t" where
  "do_schedule_smooth rra_idx elapsed_pdp_st r =
     (let cdp_idx = rra_idx * n_ds r;
          cur = rra_ptr r ! rra_idx;
          rows = row_cnt (rra_def r ! rra_idx);
          smooth_idx = par_of r rra_idx RRA_seasonal_smooth_idx;
          init_seasonal = scratch r cdp_idx CDP_init_seasonal
      in if init_seasonal > BURNIN_CYCLES then
           (if smooth_idx > cur then (cur + elapsed_pdp_st \<ge> smooth_idx, r)
            else (cur + elapsed_pdp_st \<ge> rows \<and> cur + elapsed_pdp_st \<ge> rows + smooth_idx, r))
         else if cur + elapsed_pdp_st \<ge> rows
         then (init_seasonal + 1 \<noteq> 0, set_scratch cdp_idx CDP_init_seasonal (init_seasonal + 1) r)
         else (False, r))"

section \<open>All archives\<close>

text \<open>What the passes over the archives share: the number of rows each archive is to write,
  whether its rows are skipped, the buffers of seasonal coefficients, and the request for a
  smoother run.\<close>

record pass =
  rra_step_cnt :: "ulong list"
  skip_update :: "bool list"
  last_seasonal_coef :: "dbl list"
  seasonal_coef :: "dbl list"
  schedule_smooth :: bool

definition start_offset :: "rrd_t \<Rightarrow> nat \<Rightarrow> ulong \<Rightarrow> ulong" where
  "start_offset r rra_idx proc_pdp_cnt =
     (let n = pdp_cnt (rra_def r ! rra_idx) in n - proc_pdp_cnt mod n)"

definition step_count :: "rrd_t \<Rightarrow> nat \<Rightarrow> ulong \<Rightarrow> ulong \<Rightarrow> ulong" where
  "step_count r rra_idx elapsed_pdp_st proc_pdp_cnt =
     (let st = start_offset r rra_idx proc_pdp_cnt in
      if st \<le> elapsed_pdp_st then (elapsed_pdp_st - st) div pdp_cnt (rra_def r ! rra_idx) + 1 else 0)"

text \<open>The part for the seasonal archives: a bulk update skips ahead in them, and the smoother may
  be due. The results of the two lookups are not examined.\<close>

definition seasonal_pass ::
  "nat \<Rightarrow> nat \<Rightarrow> ulong \<Rightarrow> pass \<Rightarrow> world \<Rightarrow> (pass \<times> world) option" where
  "seasonal_pass i rra_start elapsed_pdp_st p w =
     do {
       (p1, w1) \<leftarrow>
         (if rra_step_cnt p ! i > 1 then
            do {
              (_, lbuf, w') \<leftarrow> lookup_seasonal i rra_start elapsed_pdp_st (last_seasonal_coef p) w;
              (_, sbuf, w'') \<leftarrow> lookup_seasonal i rra_start (elapsed_pdp_st + 1) (seasonal_coef p) w';
              Some (p\<lparr>skip_update := (skip_update p)[i := True], last_seasonal_coef := lbuf,
                      seasonal_coef := sbuf\<rparr>, w'')
            }
          else Some (p, w));
       let (due, r) = do_schedule_smooth i elapsed_pdp_st (db w1);
       Some (if due then p1\<lparr>schedule_smooth := True\<rparr> else p1, w1\<lparr>db := r\<rparr>)
     }"

text \<open>The pass over one archive: \<open>False\<close> is a return of -1.\<close>

definition cdp_prep_rra ::
  "nat \<Rightarrow> nat \<Rightarrow> ulong \<Rightarrow> ulong \<Rightarrow> dbl list \<Rightarrow> pass \<Rightarrow> world \<Rightarrow> (bool \<times> pass \<times> world) option" where
  "cdp_prep_rra i rra_start elapsed_pdp_st proc_pdp_cnt pdp_temp p w0 =
     (case cf_conv (cf_nam (rra_def (db w0) ! i)) w0 of (current_cf, w) \<Rightarrow>
        let r = db w; steps = step_count r i elapsed_pdp_st proc_pdp_cnt;
            p1 = p\<lparr>skip_update := (skip_update p)[i := False],
                   rra_step_cnt := (rra_step_cnt p)[i := steps]\<rparr>
        in if pdp_cnt (rra_def r ! i) = 0 then None
           else
             do {
               (p2, w2) \<leftarrow>
                 (if current_cf = Some CF_SEASONAL \<or> current_cf = Some CF_DEVSEASONAL
                  then seasonal_pass i rra_start elapsed_pdp_st p1 w else Some (p1, w));
               if rrd_test_error w2 then Some (False, p2, w2)
               else
                 (case update_cdp_prep [0..<n_ds r] elapsed_pdp_st (start_offset r i proc_pdp_cnt)
                         steps i pdp_temp (last_seasonal_coef p2) (seasonal_coef p2) current_cf w2 of
                    (ok, w3) \<Rightarrow> Some (ok, p2, w3))
             })"

fun update_all_cdp_prep ::
  "nat list \<Rightarrow> nat \<Rightarrow> ulong \<Rightarrow> ulong \<Rightarrow> dbl list \<Rightarrow> pass \<Rightarrow> world \<Rightarrow> (bool \<times> pass \<times> world) option" where
  "update_all_cdp_prep [] rra_start elapsed_pdp_st proc_pdp_cnt pdp_temp p w = Some (True, p, w)"
| "update_all_cdp_prep (i # is) rra_start elapsed_pdp_st proc_pdp_cnt pdp_temp p w =
     (case cdp_prep_rra i rra_start elapsed_pdp_st proc_pdp_cnt pdp_temp p w of
        Some (True, p', w') \<Rightarrow>
          update_all_cdp_prep is (rra_start + rra_size (db w') i * sizeof_value) elapsed_pdp_st
            proc_pdp_cnt pdp_temp p' w'
      | res \<Rightarrow> res)"

section \<open>Aberrant behaviour\<close>

fun aberrant_ds ::
  "nat list \<Rightarrow> nat \<Rightarrow> cf_en option \<Rightarrow> nat \<Rightarrow> dbl list \<Rightarrow> dbl list \<Rightarrow> world \<Rightarrow> world" where
  "aberrant_ds [] rra_idx current_cf scratch_idx pdp_temp seasonal w = w"
| "aberrant_ds (j # js) rra_idx current_cf scratch_idx pdp_temp seasonal w =
     aberrant_ds js rra_idx current_cf scratch_idx pdp_temp seasonal
       (snd (update_aberrant_CF (pdp_temp ! j) current_cf (cdp_index (db w) rra_idx j) rra_idx j
               scratch_idx seasonal w))"

definition aberrant_rra ::
  "nat \<Rightarrow> nat \<Rightarrow> ulong \<Rightarrow> nat \<Rightarrow> dbl list \<Rightarrow> pass \<Rightarrow> world \<Rightarrow> (bool \<times> pass \<times> world) option" where
  "aberrant_rra i rra_start elapsed_pdp_st scratch_idx pdp_temp p w =
     (if pdp_cnt (rra_def (db w) ! i) \<noteq> 1 then Some (True, p, w)
      else
        (case cf_conv (cf_nam (rra_def (db w) ! i)) w of (current_cf, w1) \<Rightarrow>
           do {
             (p2, w2) \<leftarrow>
               (if current_cf = Some CF_SEASONAL \<or> current_cf = Some CF_DEVSEASONAL then
                  do {
                    (_, buf, w') \<leftarrow> lookup_seasonal i rra_start
                      (elapsed_pdp_st + (if scratch_idx = CDP_primary_val then 1 else 2))
                      (seasonal_coef p) w1;
                    Some (p\<lparr>seasonal_coef := buf\<rparr>, w')
                  }
                else Some (p, w1));
             if rrd_test_error w2 then Some (False, p2, w2)
             else Some (True, p2, aberrant_ds [0..<n_ds (db w2)] i current_cf scratch_idx pdp_temp
                                    (seasonal_coef p2) w2)
           }))"

fun aberrant_rras ::
  "nat list \<Rightarrow> nat \<Rightarrow> ulong \<Rightarrow> nat \<Rightarrow> dbl list \<Rightarrow> pass \<Rightarrow> world \<Rightarrow> (bool \<times> pass \<times> world) option" where
  "aberrant_rras [] rra_start elapsed_pdp_st scratch_idx pdp_temp p w = Some (True, p, w)"
| "aberrant_rras (i # is) rra_start elapsed_pdp_st scratch_idx pdp_temp p w =
     (case aberrant_rra i rra_start elapsed_pdp_st scratch_idx pdp_temp p w of
        Some (True, p', w') \<Rightarrow>
          aberrant_rras is (rra_start + rra_size (db w') i * sizeof_value) elapsed_pdp_st scratch_idx
            pdp_temp p' w'
      | res \<Rightarrow> res)"

text \<open>The scratch cells to be computed: none for a bulk update.\<close>

definition aberrant_cells :: "ulong \<Rightarrow> nat list" where
  "aberrant_cells elapsed_pdp_st =
     (if elapsed_pdp_st = 1 then [CDP_primary_val]
      else if elapsed_pdp_st = 2 then [CDP_primary_val, CDP_secondary_val] else [])"

fun aberrant_passes ::
  "nat list \<Rightarrow> nat \<Rightarrow> ulong \<Rightarrow> dbl list \<Rightarrow> pass \<Rightarrow> world \<Rightarrow> (bool \<times> pass \<times> world) option" where
  "aberrant_passes [] rra_begin elapsed_pdp_st pdp_temp p w = Some (True, p, w)"
| "aberrant_passes (k # ks) rra_begin elapsed_pdp_st pdp_temp p w =
     (case aberrant_rras [0..<n_rra (db w)] rra_begin elapsed_pdp_st k pdp_temp p w of
        Some (True, p', w') \<Rightarrow> aberrant_passes ks rra_begin elapsed_pdp_st pdp_temp p' w'
      | res \<Rightarrow> res)"

definition update_aberrant_cdps ::
  "nat \<Rightarrow> ulong \<Rightarrow> dbl list \<Rightarrow> pass \<Rightarrow> world \<Rightarrow> (bool \<times> pass \<times> world) option" where
  "update_aberrant_cdps rra_begin elapsed_pdp_st pdp_temp p w =
     aberrant_passes (aberrant_cells elapsed_pdp_st) rra_begin elapsed_pdp_st pdp_temp p w"

end
