(* ===== verification/Update.thy ===== *)
theory Update
  imports Update_Cdp
begin

text \<open>
  The update itself (\<open>rrd_update.c\<close>): the rows written to the archives, the smoother runs, the
  processing of one argument and of all of them, and the database file around it. The summary of
  \<open>rrd_update_v\<close> is the list of its entries, or \<open>None\<close> for a null pointer.
\<close>

section \<open>Rows\<close>

type_synonym summary = "(string \<times> dbl) list option"

definition summary_key :: "rrd_t \<Rightarrow> int \<Rightarrow> nat \<Rightarrow> nat \<Rightarrow> string" where
  "summary_key r rra_time i j =
     ''['' @ show_int rra_time @ '']RRA['' @ cf_nam (rra_def r ! i) @ '']['' @
     show_nat (unat (pdp_cnt (rra_def r ! i))) @ '']DS['' @ ds_nam (ds_def r ! j) @ '']''"

text \<open>One value per data source; \<open>False\<close> is a failed write.\<close>

fun write_RRA_row ::
  "nat list \<Rightarrow> nat \<Rightarrow> nat \<Rightarrow> int \<Rightarrow> summary \<Rightarrow> world \<Rightarrow> (bool \<times> summary \<times> world) option" where
  "write_RRA_row [] i scratch_idx rra_time sm w = Some (True, sm, w)"
| "write_RRA_row (j # js) i scratch_idx rra_time sm w =
     (let v = scratch (db w) (cdp_index (db w) i j) scratch_idx;
          sm' = map_option (\<lambda>es. es @ [(summary_key (db w) rra_time i j, v)]) sm
      in case rrd_write w [v] of
           None \<Rightarrow> None
         | Some (got, w') \<Rightarrow>
             (if got \<noteq> int sizeof_value
              then Some (False, sm', rrd_set_error ''writing rrd: Success'' w')
              else write_RRA_row js i scratch_idx rra_time sm' w'))"

text \<open>\<open>++cur_row\<close> with its wrap-around.\<close>

definition next_row :: "nat \<Rightarrow> rrd_t \<Rightarrow> rrd_t" where
  "next_row i r =
     (let c = rra_ptr r ! i + 1
      in r\<lparr>rra_ptr := (rra_ptr r)[i := (if c \<ge> row_cnt (rra_def r ! i) then 0 else c)]\<rparr>)"

definition row_time :: "rrd_t \<Rightarrow> nat \<Rightarrow> int \<Rightarrow> ulong \<Rightarrow> ulong \<Rightarrow> int" where
  "row_time r i current_time left sub =
     (let st = pdp_cnt (rra_def r ! i) * pdp_step (stat_head r); t = word_of_int current_time :: ulong
      in sint (t - t mod st - (left - sub) * st))"

text \<open>The rows of one archive that are due, the first from the primary value and the others from
  the secondary one. A skipped archive only moves its current row.\<close>

fun write_rows ::
  "nat \<Rightarrow> nat \<Rightarrow> nat \<Rightarrow> int \<Rightarrow> bool \<Rightarrow> nat \<Rightarrow> ulong \<Rightarrow> summary \<Rightarrow> world
     \<Rightarrow> (bool \<times> summary \<times> world) option" where
  "write_rows 0 i rra_start current_time skip scratch_idx sub sm w = Some (True, sm, w)"
| "write_rows (Suc n) i rra_start current_time skip scratch_idx sub sm w =
     (let r = next_row i (db w);
          p = rra_start + n_ds r * unat (rra_ptr r ! i) * sizeof_value;
          w1 = w\<lparr>db := r, dbfile := snd (rrd_seek (dbfile w) p SEEK_SET)\<rparr>
      in if skip
         then write_rows n i rra_start current_time skip CDP_secondary_val 2 sm w1
         else
           (case write_RRA_row [0..<n_ds r] i scratch_idx
                   (if sm = None then 0 else row_time r i current_time (of_nat (Suc n)) sub) sm w1 of
              None \<Rightarrow> None
            | Some (False, sm', w2) \<Rightarrow> Some (False, sm', w2)
            | Some (True, sm', w2) \<Rightarrow>
                write_rows n i rra_start current_time skip CDP_secondary_val 2 sm' w2))"

fun write_to_rras ::
  "nat list \<Rightarrow> nat \<Rightarrow> int \<Rightarrow> pass \<Rightarrow> summary \<Rightarrow> world \<Rightarrow> (bool \<times> summary \<times> world) option" where
  "write_to_rras [] rra_start current_time p sm w = Some (True, sm, w)"
| "write_to_rras (i # is) rra_start current_time p sm w =
     (case write_rows (unat (rra_step_cnt p ! i)) i rra_start current_time (skip_update p ! i)
             CDP_primary_val 1 sm w of
        Some (True, sm', w') \<Rightarrow>
          write_to_rras is (rra_start + rra_size (db w') i * sizeof_value) current_time p sm' w'
      | res \<Rightarrow> res)"

section \<open>Smoothing\<close>

definition smooth_rra :: "nat \<Rightarrow> nat \<Rightarrow> world \<Rightarrow> (bool \<times> world) option" where
  "smooth_rra i rra_start w =
     (let nm = cf_nam (rra_def (db w) ! i) in
      case cf_conv nm w of (cf1, w1) \<Rightarrow>
      case (if cf1 = Some CF_DEVSEASONAL then (cf1, w1) else cf_conv nm w1) of (cf, w2) \<Rightarrow>
        if cf = Some CF_DEVSEASONAL \<or> cf = Some CF_SEASONAL then
          (case apply_smoother i rra_start w2 of
             None \<Rightarrow> None
           | Some (_, w3) \<Rightarrow> Some (\<not> rrd_test_error w3, w3))
        else Some (True, w2))"

fun smooth_all_rras :: "nat list \<Rightarrow> nat \<Rightarrow> world \<Rightarrow> (bool \<times> world) option" where
  "smooth_all_rras [] rra_start w = Some (True, w)"
| "smooth_all_rras (i # is) rra_start w =
     (case smooth_rra i rra_start w of
        Some (True, w') \<Rightarrow> smooth_all_rras is (rra_start + rra_size (db w') i * sizeof_value) w'
      | res \<Rightarrow> res)"

section \<open>One argument\<close>

text \<open>What lives across the arguments of a call.\<close>

record upd_vars =
  pdp_temp :: "dbl list"
  upass :: pass
  usum :: summary

definition update_interval :: "rrd_t \<Rightarrow> int \<Rightarrow> ulong \<Rightarrow> dbl" where
  "update_interval r t us =
     fadd (dbl_of_int (t - last_up (live_head r)))
          (fdiv (dbl_of_int (sint us - last_up_usec (live_head r))) f1e6)"

text \<open>The part of \<open>process_arg\<close> for at least one passed step.\<close>

definition process_steps ::
  "rpn_env \<Rightarrow> nat \<Rightarrow> int \<Rightarrow> dbl \<Rightarrow> elapsed \<Rightarrow> dbl list \<Rightarrow> upd_vars \<Rightarrow> world
     \<Rightarrow> (bool \<times> upd_vars \<times> world) option" where
  "process_steps env rra_begin t interval el pdp_new v w =
     (case process_all_pdp_st env [0..<n_ds (db w)] interval el pdp_new (pdp_temp v) w of
        None \<Rightarrow> None
      | Some (False, temp, w1) \<Rightarrow> Some (False, v\<lparr>pdp_temp := temp\<rparr>, w1)
      | Some (True, temp, w1) \<Rightarrow>
     (case update_all_cdp_prep [0..<n_rra (db w1)] rra_begin (el_steps el) (el_proc_pdp_cnt el) temp
             ((upass v)\<lparr>last_seasonal_coef := [], seasonal_coef := []\<rparr>) w1 of
        None \<Rightarrow> None
      | Some (False, p, w2) \<Rightarrow> Some (False, v\<lparr>pdp_temp := temp, upass := p\<rparr>, w2)
      | Some (True, p, w2) \<Rightarrow>
     (case update_aberrant_cdps rra_begin (el_steps el) temp p w2 of
        None \<Rightarrow> None
      | Some (False, p', w3) \<Rightarrow> Some (False, v\<lparr>pdp_temp := temp, upass := p'\<rparr>, w3)
      | Some (True, p', w3) \<Rightarrow>
     (case write_to_rras [0..<n_rra (db w3)] rra_begin t p' (usum v) w3 of
        None \<Rightarrow> None
      | Some (ok, sm, w4) \<Rightarrow>
          Some (ok, v\<lparr>pdp_temp := temp, upass := p', usum := sm\<rparr>, w4)))))"

definition set_last_up :: "int \<Rightarrow> ulong \<Rightarrow> int \<Rightarrow> world \<Rightarrow> world" where
  "set_last_up t us ver w =
     (let r = (db w)\<lparr>live_head := \<lparr>last_up = t, last_up_usec = sint us\<rparr>\<rparr>
      in w\<lparr>db := (if ver < 3 then r\<lparr>legacy_last_up := t\<rparr> else r)\<rparr>)"

definition process_arg ::
  "rpn_env \<Rightarrow> nat list \<Rightarrow> nat \<Rightarrow> int \<Rightarrow> string \<Rightarrow> upd_vars \<Rightarrow> world
     \<Rightarrow> (bool \<times> upd_vars \<times> world) option" where
  "process_arg env tmpl rra_begin ver arg v w =
     (case parse_ds (env_zone env) (db w) tmpl arg ver w of
        None \<Rightarrow> None
      | Some (None, w1) \<Rightarrow> Some (False, v, w1)
      | Some (Some (updvals, t, us), w1) \<Rightarrow>
     (let interval = update_interval (db w1) t us in
      case update_pdp_prep [0..<n_ds (db w1)] updvals interval w1 of
        None \<Rightarrow> None
      | Some (None, w2) \<Rightarrow> Some (False, v, w2)
      | Some (Some pdp_new, w2) \<Rightarrow>
     (case calculate_elapsed_steps (db w2) t us interval of
        None \<Rightarrow> None
      | Some el \<Rightarrow>
     (case (if el_steps el = 0
            then Some (True, v, simple_update [0..<n_ds (db w2)] interval pdp_new w2)
            else process_steps env rra_begin t interval el pdp_new v w2) of
        None \<Rightarrow> None
      | Some (False, v', w3) \<Rightarrow> Some (False, v', w3)
      | Some (True, v', w3) \<Rightarrow> Some (True, v', set_last_up t us ver w3)))))"

section \<open>All arguments\<close>

text \<open>The loop stops at the first argument that fails; its message gets the file name in front.\<close>

fun process_args ::
  "rpn_env \<Rightarrow> string \<Rightarrow> nat list \<Rightarrow> nat \<Rightarrow> int \<Rightarrow> string list \<Rightarrow> upd_vars \<Rightarrow> world
     \<Rightarrow> (upd_vars \<times> world) option" where
  "process_args env filename tmpl rra_begin ver [] v w = Some (v, w)"
| "process_args env filename tmpl rra_begin ver (a # as) v w =
     (case process_arg env tmpl rra_begin ver a v w of
        None \<Rightarrow> None
      | Some (True, v', w') \<Rightarrow> process_args env filename tmpl rra_begin ver as v' w'
      | Some (False, v', w') \<Rightarrow>
          Some (v', if rrd_test_error w'
                    then rrd_set_error (filename @ '': '' @ rrd_error w') w' else w'))"

definition initial_pass :: "rrd_t \<Rightarrow> pass" where
  "initial_pass r =
     \<lparr>rra_step_cnt = replicate (n_rra r) 0, skip_update = replicate (n_rra r) False,
      last_seasonal_coef = [], seasonal_coef = [], schedule_smooth = False\<rparr>"

definition initial_vars :: "rrd_t \<Rightarrow> summary \<Rightarrow> upd_vars" where
  "initial_vars r sm = \<lparr>pdp_temp = replicate (n_ds r) 0, upass = initial_pass r, usum = sm\<rparr>"

text \<open>The part of \<open>_rrd_update\<close> between opening and closing the file.\<close>

definition update_open_db ::
  "rpn_env \<Rightarrow> bool \<Rightarrow> string \<Rightarrow> string option \<Rightarrow> string list \<Rightarrow> summary \<Rightarrow> world
     \<Rightarrow> (int \<times> summary \<times> world) option" where
  "update_open_db env locked filename tmplt args sm w =
     (let rra_begin = header_len (dbfile w); ver = atoi (version (stat_head (db w))) in
      case initialize_time ver w of (_, w1) \<Rightarrow>
      if \<not> locked then Some (- 1, sm, rrd_set_error ''could not lock RRD'' w1)
      else
        (case allocate_data_structures (db w1) tmplt w1 of
           (None, w2) \<Rightarrow> Some (- 1, sm, w2)
         | (Some tmpl, w2) \<Rightarrow>
             (case process_args env filename tmpl rra_begin ver args (initial_vars (db w2) sm) w2 of
                None \<Rightarrow> None
              | Some (v, w3) \<Rightarrow>
                  (if rrd_test_error w3 then Some (- 1, usum v, w3)
                   else if schedule_smooth (upass v) then
                     (case smooth_all_rras [0..<n_rra (db w3)] rra_begin w3 of
                        None \<Rightarrow> None | Some (_, w4) \<Rightarrow> Some (0, usum v, w4))
                   else Some (0, usum v, w3)))))"

text \<open>The world of an open database, and what closing leaves in the file: the mapping is shared, so
  every change is in it, whatever the outcome.\<close>

definition open_world :: "ctx \<Rightarrow> rrd_t \<Rightarrow> rrd_file_t \<Rightarrow> world" where
  "open_world c r f =
     \<lparr>rrd_error = rrd_error c, lc_numeric = lc_numeric c, clock_readings = clock_readings c,
      db = r, dbfile = f\<rparr>"

definition ctx_of_world :: "world \<Rightarrow> ctx" where
  "ctx_of_world w =
     \<lparr>rrd_error = rrd_error w, lc_numeric = lc_numeric w, clock_readings = clock_readings w\<rparr>"

definition image_of :: "world \<Rightarrow> rrd_image" where
  "image_of w = \<lparr>img_len = file_len (dbfile w), img_rrd = db w, img_vals = vals (dbfile w)\<rparr>"

definition rrd_update_file ::
  "rpn_env \<Rightarrow> bool \<Rightarrow> string \<Rightarrow> string option \<Rightarrow> string list \<Rightarrow> summary \<Rightarrow> sys_open \<Rightarrow> ctx
     \<Rightarrow> (int \<times> summary \<times> sys_open \<times> ctx) option" where
  "rrd_update_file env locked filename tmplt args sm so c =
     (if args = [] then Some (- 1, sm, so, rrd_set_error ''Not enough arguments'' c)
      else
        (case rrd_open filename so c of
           (None, c1) \<Rightarrow> Some (- 1, sm, so, c1)
         | (Some (r, f), c1) \<Rightarrow>
             (case update_open_db env locked filename tmplt args sm (open_world c1 r f) of
                None \<Rightarrow> None
              | Some (rc, sm', w) \<Rightarrow> Some (rc, sm', Opened (image_of w), ctx_of_world w))))"

definition rrd_update_r ::
  "rpn_env \<Rightarrow> bool \<Rightarrow> string \<Rightarrow> string option \<Rightarrow> string list \<Rightarrow> sys_open \<Rightarrow> ctx
     \<Rightarrow> (int \<times> sys_open \<times> ctx) option" where
  "rrd_update_r env locked filename tmplt args so c =
     map_option (\<lambda>(rc, _, so', c'). (rc, so', c'))
       (rrd_update_file env locked filename tmplt args None so c)"

text \<open>\<open>rrd_update_v\<close> behind its option parsing: the return value and the rows written.\<close>

definition rrd_update_v ::
  "rpn_env \<Rightarrow> bool \<Rightarrow> string \<Rightarrow> string option \<Rightarrow> string list \<Rightarrow> sys_open \<Rightarrow> ctx
     \<Rightarrow> (int \<times> (string \<times> dbl) list \<times> sys_open \<times> ctx) option" where
  "rrd_update_v env locked filename tmplt args so c =
     map_option (\<lambda>(rc, sm, so', c'). (rc, case sm of None \<Rightarrow> [] | Some es \<Rightarrow> es, so', c'))
       (rrd_update_file env locked filename tmplt args (Some []) so c)"

end
