(* ===== verification/Fetch.thy ===== *)
theory Fetch
  imports Rrd_File "HOL-Library.Signed_Division" "HOL-Library.Monad_Syntax"
begin

text \<open>
  Reading a database: \<open>rrd_fetch_fn\<close> (the archive that fits a request best, the aligned window and
  its rows), \<open>rrd_first_r\<close>, \<open>rrd_last_r\<close> and \<open>rrd_lastupdate_r\<close>. Times are signed integers;
  where the C expression mixes them with \<open>unsigned long\<close>, the word arithmetic is written out.
  \<open>None\<close> is undefined behaviour (a division by zero).
\<close>

section \<open>Choice of the archive\<close>

definition utime :: "int \<Rightarrow> ulong" where "utime t = word_of_int t"

definition rra_step :: "rrd_t \<Rightarrow> nat \<Rightarrow> ulong" where
  "rra_step r i = pdp_cnt (rra_def r ! i) * pdp_step (stat_head r)"

definition cal_end :: "rrd_t \<Rightarrow> nat \<Rightarrow> int" where
  "cal_end r i =
     sint (utime (last_up (live_head r)) - utime (last_up (live_head r)) mod rra_step r i)"

definition cal_start :: "rrd_t \<Rightarrow> nat \<Rightarrow> int" where
  "cal_start r i =
     sint (utime (cal_end r i)
           - pdp_cnt (rra_def r ! i) * row_cnt (rra_def r ! i) * pdp_step (stat_head r))"

record best =
  best_full :: "(int \<times> nat) option"
  best_part :: "(int \<times> int \<times> nat) option"

text \<open>An archive is considered: \<open>best_full\<close> holds the step difference and the index of the best
  archive that reaches back to the start, \<open>best_part\<close> the match, the step difference and the index
  of the best other one.\<close>

definition consider_rra :: "rrd_t \<Rightarrow> int \<Rightarrow> int \<Rightarrow> ulong \<Rightarrow> nat \<Rightarrow> best \<Rightarrow> best" where
  "consider_rra r start stop st i b =
     (let diff = \<bar>sint (st - rra_step r i)\<bar>; cs = cal_start r i in
      if cs \<le> start then
        (case best_full b of
           None \<Rightarrow> b\<lparr>best_full := Some (diff, i)\<rparr>
         | Some (d, _) \<Rightarrow> if diff < d then b\<lparr>best_full := Some (diff, i)\<rparr> else b)
      else
        (let m = (stop - start) - (cs - start) in
         case best_part b of
           None \<Rightarrow> b\<lparr>best_part := Some (m, diff, i)\<rparr>
         | Some (bm, d, _) \<Rightarrow>
             if bm < m \<or> (bm = m \<and> diff < d) then b\<lparr>best_part := Some (m, diff, i)\<rparr> else b))"

text \<open>The names of the archives are converted again, so that an unknown one leaves its message. The
  request for an unknown function does not get here.\<close>

fun choose_rra ::
  "rrd_t \<Rightarrow> cf_en \<Rightarrow> int \<Rightarrow> int \<Rightarrow> ulong \<Rightarrow> nat list \<Rightarrow> best \<Rightarrow> 'a ctx_scheme
     \<Rightarrow> (best \<times> 'a ctx_scheme) option" where
  "choose_rra r cf start stop st [] b c = Some (b, c)"
| "choose_rra r cf start stop st (i # is) b c =
     (case cf_conv (cf_nam (rra_def r ! i)) c of (k, c1) \<Rightarrow>
        if k \<noteq> Some cf then choose_rra r cf start stop st is b c1
        else if rra_step r i = 0 then None
        else choose_rra r cf start stop st is (consider_rra r start stop st i b) c1)"

definition chosen_rra :: "best \<Rightarrow> nat option" where
  "chosen_rra b =
     (case best_full b of
        Some (_, i) \<Rightarrow> Some i
      | None \<Rightarrow> (case best_part b of Some (_, _, i) \<Rightarrow> Some i | None \<Rightarrow> None))"

section \<open>The window\<close>

record fetched =
  ft_start :: int
  ft_end :: int
  ft_step :: ulong
  ft_rows :: ulong
  ft_names :: "string list"
  ft_data :: "dbl list"

definition align_start :: "int \<Rightarrow> ulong \<Rightarrow> int" where
  "align_start t st = sint (utime t - utime t mod st)"

definition align_end :: "int \<Rightarrow> ulong \<Rightarrow> int" where
  "align_end t st = sint (utime t + (st - utime t mod st))"

definition row_total :: "int \<Rightarrow> int \<Rightarrow> ulong \<Rightarrow> ulong" where
  "row_total start stop st = utime (stop - start) div st + 1"

definition rra_end_time :: "rrd_t \<Rightarrow> ulong \<Rightarrow> int" where
  "rra_end_time r st = align_start (last_up (live_head r)) st"

definition rra_start_time :: "rrd_t \<Rightarrow> nat \<Rightarrow> ulong \<Rightarrow> int" where
  "rra_start_time r i st =
     sint (utime (rra_end_time r st) - st * (row_cnt (rra_def r ! i) - 1))"

definition start_offset_of :: "rrd_t \<Rightarrow> nat \<Rightarrow> int \<Rightarrow> ulong \<Rightarrow> int" where
  "start_offset_of r i start st =
     sint (utime start + st - utime (rra_start_time r i st)) sdiv sint st"

definition end_offset_of :: "rrd_t \<Rightarrow> int \<Rightarrow> ulong \<Rightarrow> int" where
  "end_offset_of r stop st = (rra_end_time r st - stop) sdiv sint st"

definition int_rows :: "rrd_t \<Rightarrow> nat \<Rightarrow> int" where
  "int_rows r i = wrap_int (uint (row_cnt (rra_def r ! i)))"

definition first_pointer :: "rrd_t \<Rightarrow> nat \<Rightarrow> int \<Rightarrow> int" where
  "first_pointer r i start_off =
     sint (rra_ptr r ! i + 1 + (if start_off \<le> 0 then 0 else word_of_int start_off)) smod int_rows r i"

definition seek_row :: "rrd_t \<Rightarrow> nat \<Rightarrow> int \<Rightarrow> rrd_file_t \<Rightarrow> rrd_file_t" where
  "seek_row r base p f = snd (rrd_seek f (base + nat p * n_ds r * sizeof_value) SEEK_SET)"

text \<open>The rows from offset to offset: before and behind the archive they are unknown. The inner
  \<open>None\<close> is a failed read.\<close>

fun fetch_rows ::
  "rrd_t \<Rightarrow> nat \<Rightarrow> nat \<Rightarrow> int list \<Rightarrow> int \<Rightarrow> rrd_file_t \<Rightarrow> dbl list option option" where
  "fetch_rows r i base [] ptr f = Some (Some [])"
| "fetch_rows r i base (k # ks) ptr f =
     (if k < 0 \<or> k \<ge> int_rows r i then
        map_option (map_option ((@) (replicate (n_ds r) DNAN))) (fetch_rows r i base ks ptr f)
      else
        (let wrapped = (ptr \<ge> int_rows r i);
             p = (if wrapped then ptr - uint (row_cnt (rra_def r ! i)) else ptr);
             f1 = (if wrapped then seek_row r base p f else f)
         in case rrd_read f1 (n_ds r) of
              None \<Rightarrow> None
            | Some (got, vs, f2) \<Rightarrow>
                (if got \<noteq> int (n_ds r * sizeof_value) then Some None
                 else map_option (map_option ((@) vs)) (fetch_rows r i base ks (p + 1) f2))))"

definition fetch_window ::
  "rrd_t \<Rightarrow> rrd_file_t \<Rightarrow> nat \<Rightarrow> int \<Rightarrow> int \<Rightarrow> ulong \<Rightarrow> dbl list option option" where
  "fetch_window r f i start stop st =
     (let base = header_len f + rra_base r i * sizeof_value;
          rra_end = rra_end_time r st; rra_start = rra_start_time r i st;
          so = start_offset_of r i start st; eo = end_offset_of r stop st in
      if start \<le> rra_end \<and> stop \<ge> rra_start - sint st then
        (if int_rows r i = 0 then None
         else
           (let p = first_pointer r i so
            in fetch_rows r i base [so..int_rows r i - eo - 1] p (seek_row r base p f)))
      else fetch_rows r i base [so..int_rows r i - eo - 1] 0 f)"

definition fetch_open_db ::
  "cf_en \<Rightarrow> int \<Rightarrow> int \<Rightarrow> ulong \<Rightarrow> rrd_t \<Rightarrow> rrd_file_t \<Rightarrow> 'a ctx_scheme
     \<Rightarrow> (fetched option \<times> 'a ctx_scheme) option" where
  "fetch_open_db cf start stop st r f c =
     (case choose_rra r cf start stop st [0..<n_rra r] \<lparr>best_full = None, best_part = None\<rparr> c of
        None \<Rightarrow> None
      | Some (b, c1) \<Rightarrow>
          (case chosen_rra b of
             None \<Rightarrow> Some (None, rrd_set_error
               ''the RRD does not contain an RRA matching the chosen CF'' c1)
           | Some i \<Rightarrow>
               (let st' = rra_step r i; s' = align_start start st'; e' = align_end stop st' in
                case fetch_window r f i s' e' st' of
                  None \<Rightarrow> None
                | Some None \<Rightarrow> Some (None, rrd_set_error ''fetching cdp from rra'' c1)
                | Some (Some xs) \<Rightarrow>
                    Some (Some \<lparr>ft_start = s', ft_end = e', ft_step = st',
                                ft_rows = row_total s' e' st',
                                ft_names = map (\<lambda>d. strncpy_nul (ds_nam d) (DS_NAM_SIZE - 1))
                                             (take (n_ds r) (ds_def r)),
                                ft_data = xs\<rparr>, c1))))"

definition rrd_fetch_fn ::
  "string \<Rightarrow> cf_en \<Rightarrow> int \<Rightarrow> int \<Rightarrow> ulong \<Rightarrow> sys_open \<Rightarrow> 'a ctx_scheme
     \<Rightarrow> (fetched option \<times> 'a ctx_scheme) option" where
  "rrd_fetch_fn filename cf start stop st so c =
     (case rrd_open filename so c of
        (None, c1) \<Rightarrow> Some (None, c1)
      | (Some (r, f), c1) \<Rightarrow> fetch_open_db cf start stop st r f c1)"

definition rrd_fetch_r ::
  "string \<Rightarrow> string \<Rightarrow> int \<Rightarrow> int \<Rightarrow> ulong \<Rightarrow> sys_open \<Rightarrow> 'a ctx_scheme
     \<Rightarrow> (fetched option \<times> 'a ctx_scheme) option" where
  "rrd_fetch_r filename cf start stop st so c =
     (case cf_conv cf c of
        (None, c1) \<Rightarrow> Some (None, c1)
      | (Some k, c1) \<Rightarrow> rrd_fetch_fn filename k start stop st so c1)"

section \<open>First and last times\<close>

text \<open>\<open>None\<close> is a division by zero; the result -1 comes with a message.\<close>

definition rrd_first_r :: "string \<Rightarrow> int \<Rightarrow> sys_open \<Rightarrow> 'a ctx_scheme \<Rightarrow> (int \<times> 'a ctx_scheme) option" where
  "rrd_first_r filename rraindex so c =
     (case rrd_open filename so c of
        (None, c1) \<Rightarrow> Some (- 1, c1)
      | (Some (r, _), c1) \<Rightarrow>
          (if rraindex < 0 \<or> rraindex \<ge> wrap_int (uint (rra_cnt (stat_head r))) then
             Some (- 1, rrd_set_error ''invalid rraindex number'' c1)
           else
             (let i = nat rraindex; st = rra_step r i; t = utime (last_up (live_head r));
                  timer = - (row_cnt (rra_def r ! i) - 1)
              in if st = 0 then None else Some (sint (t - t mod st + timer * st), c1))))"

definition rrd_last_r :: "string \<Rightarrow> sys_open \<Rightarrow> 'a ctx_scheme \<Rightarrow> int \<times> 'a ctx_scheme" where
  "rrd_last_r filename so c =
     (case rrd_open filename so c of
        (None, c1) \<Rightarrow> (- 1, c1)
      | (Some (r, _), c1) \<Rightarrow> (last_up (live_head r), c1))"

text \<open>The time, the number of data sources, their names and their last readings.\<close>

definition rrd_lastupdate_r ::
  "string \<Rightarrow> sys_open \<Rightarrow> 'a ctx_scheme
     \<Rightarrow> (int \<times> ulong \<times> string list \<times> string list) option \<times> 'a ctx_scheme" where
  "rrd_lastupdate_r filename so c =
     (case rrd_open filename so c of
        (None, c1) \<Rightarrow> (None, c1)
      | (Some (r, _), c1) \<Rightarrow>
          (Some (last_up (live_head r), ds_cnt (stat_head r),
                 map ds_nam (take (n_ds r) (ds_def r)), map last_ds (take (n_ds r) (pdp_prep r))), c1))"

end
