(* ===== verification/Sample.thy ===== *)
theory Sample
  imports Update Fetch
begin

text \<open>
  A small database on which the properties are instantiated: one GAUGE data source with a
  heartbeat of 600 seconds at a step of 300 seconds, an AVERAGE archive of three rows of one step
  and a MAX archive of two rows of two steps, last updated at 1200000000.
\<close>

definition sample_ds :: ds_def_t where
  "sample_ds = \<lparr>ds_nam = ''temp'', dst = ''GAUGE'',
                ds_par = [600, DNAN, DNAN, 0, 0, 0, 0, 0, 0, 0]\<rparr>"

definition sample_rras :: "rra_def_t list" where
  "sample_rras =
     [\<lparr>cf_nam = ''AVERAGE'', row_cnt = 3, pdp_cnt = 1, rra_par = [0x3FE0000000000000, 0, 0, 0, 0, 0, 0, 0, 0, 0]\<rparr>,
      \<lparr>cf_nam = ''MAX'', row_cnt = 2, pdp_cnt = 2, rra_par = [0x3FE0000000000000, 0, 0, 0, 0, 0, 0, 0, 0, 0]\<rparr>]"

definition sample_db :: rrd_t where
  "sample_db = \<lparr>
     stat_head = \<lparr>cookie = RRD_COOKIE, version = ''0003'', float_cookie = FLOAT_COOKIE,
                  ds_cnt = 1, rra_cnt = 2, pdp_step = 300\<rparr>,
     ds_def = [sample_ds], rra_def = sample_rras,
     live_head = \<lparr>last_up = 1200000000, last_up_usec = 0\<rparr>, legacy_last_up = 0,
     pdp_prep = [\<lparr>last_ds = ''7'', pdp_scratch = [0, 0, 0, 0, 0, 0, 0, 0, 0, 0]\<rparr>],
     cdp_prep = [[DNAN, 0, 0, 0, 0, 0, 0, 0, D1, D2], [fneg DINF, 0, 0, 0, 0, 0, 0, 0, D1, D1]],
     rra_ptr = [2, 0]\<rparr>"

definition sample_file :: rrd_file_t where
  "sample_file = \<lparr>header_len = 792, file_len = 832, pos = 792, vals = [D1, D2, 0, D2, D1]\<rparr>"

definition sample_world :: world where
  "sample_world = \<lparr>rrd_error = [], lc_numeric = ''C'', clock_readings = [], db = sample_db,
                   dbfile = sample_file\<rparr>"

lemmas sample_defs = sample_world_def sample_db_def sample_file_def sample_rras_def sample_ds_def

lemma less_2_cases: "(i :: nat) < 2 \<longleftrightarrow> i = 0 \<or> i = 1"
  by auto

lemma sample_simps [simp]:
  "db sample_world = sample_db" "dbfile sample_world = sample_file"
  "n_rra sample_db = 2" "n_ds sample_db = 1" "header_len sample_file = 792"
  by (simp_all add: sample_defs)

lemma sample_wf:
  "wf_rrd sample_db" "wf_file sample_db sample_file" "wf_rows sample_db"
proof -
  show "wf_rrd sample_db" by (simp add: wf_rrd_def sample_defs)
  have "rra_base sample_db (n_rra sample_db) = 5" by code_simp
  then show "wf_file sample_db sample_file"
    by (simp add: wf_file_def sizeof_value_def) (simp add: sample_file_def)
  show "wf_rows sample_db" by (simp add: wf_rows_def sample_defs less_2_cases)
qed

end
