(* ===== verification/Archive.thy ===== *)
theory Archive
  imports Sample
begin

text \<open>
  What an archive promises, apart from where its rows lie in the file: a history of rows, newest
  first, of fixed length. Writing rows (\<open>write_to_rras\<close>) puts them in front and drops the oldest
  ones; fetching (\<open>rrd_fetch_fn\<close>) looks rows up by their time.
\<close>

section \<open>The history of an archive\<close>

definition n_rows :: "rrd_t \<Rightarrow> nat \<Rightarrow> nat" where
  "n_rows r i = unat (row_cnt (rra_def r ! i))"

definition cur_row :: "rrd_t \<Rightarrow> nat \<Rightarrow> nat" where
  "cur_row r i = unat (rra_ptr r ! i)"

text \<open>The row that was written \<open>k\<close> rows before the current one.\<close>

definition aged_row :: "rrd_t \<Rightarrow> rrd_file_t \<Rightarrow> nat \<Rightarrow> nat \<Rightarrow> dbl list" where
  "aged_row r f i k = rra_row r f i ((cur_row r i + n_rows r i - k) mod n_rows r i)"

definition history :: "rrd_t \<Rightarrow> rrd_file_t \<Rightarrow> nat \<Rightarrow> dbl list list" where
  "history r f i = map (aged_row r f i) [0..<n_rows r i]"

text \<open>The values of all data sources of an archive in a scratch cell.\<close>

definition cdp_row :: "rrd_t \<Rightarrow> nat \<Rightarrow> nat \<Rightarrow> dbl list" where
  "cdp_row r i k = map (\<lambda>j. scratch r (cdp_index r i j) k) [0..<n_ds r]"

lemma length_history [simp]: "length (history r f i) = n_rows r i"
  by (simp add: history_def)

section \<open>Regions of the file\<close>

lemma rra_base_disjoint: "i < j \<Longrightarrow> rra_base r i + rra_size r i \<le> rra_base r j"
proof (induction j)
  case (Suc j)
  then show ?case by (cases "i = j") (auto simp: less_Suc_eq)
qed simp

lemma rra_size_rows: "rra_size r i = n_rows r i * n_ds r"
  by (simp add: rra_size_def n_rows_def)

lemma row_end: "row < n_rows r i \<Longrightarrow> row * n_ds r + n_ds r \<le> rra_size r i"
proof -
  assume "row < n_rows r i"
  then have "Suc row * n_ds r \<le> n_rows r i * n_ds r" by (intro mult_le_mono1) simp
  then show ?thesis by (simp add: rra_size_rows add.commute)
qed

lemma row_inside:
  assumes "wf_file r f" "i < n_rra r" "row < n_rows r i"
  shows "rra_base r i + row * n_ds r + n_ds r \<le> length (vals f)"
    and "header_len f + sizeof_value * (rra_base r i + row * n_ds r) + sizeof_value * n_ds r
           \<le> file_len f"
proof -
  have "rra_base r i + row * n_ds r + n_ds r \<le> rra_base r (n_rra r)"
    using row_end [OF assms(3)] rra_base_disjoint [OF assms(2), of r] by linarith
  then show "rra_base r i + row * n_ds r + n_ds r \<le> length (vals f)"
    and "header_len f + sizeof_value * (rra_base r i + row * n_ds r) + sizeof_value * n_ds r
           \<le> file_len f"
    using assms(1) by (auto simp: wf_file_def sizeof_value_def)
qed

text \<open>Two different rows of the file do not overlap.\<close>

lemma rows_disjoint:
  assumes "row < n_rows r i" "row' < n_rows r j" "i \<noteq> j \<or> row \<noteq> row'"
  shows "rra_base r j + row' * n_ds r + n_ds r \<le> rra_base r i + row * n_ds r
         \<or> rra_base r i + row * n_ds r + n_ds r \<le> rra_base r j + row' * n_ds r"
proof (cases "i = j")
  case True
  then have "row < row' \<or> row' < row" using assms(3) by auto
  then have "Suc row * n_ds r \<le> row' * n_ds r \<or> Suc row' * n_ds r \<le> row * n_ds r"
    by (metis Suc_leI mult_le_mono1)
  with True show ?thesis by (auto simp: add.commute)
next
  case False
  then consider "i < j" | "j < i" by linarith
  then show ?thesis
  proof cases
    case 1
    with rra_base_disjoint [of i j r] row_end [OF assms(1)] show ?thesis by linarith
  next
    case 2
    with rra_base_disjoint [of j i r] row_end [OF assms(2)] show ?thesis by linarith
  qed
qed

text \<open>The values of the file with one row replaced.\<close>

definition put_file_row :: "rrd_t \<Rightarrow> nat \<Rightarrow> nat \<Rightarrow> dbl list \<Rightarrow> rrd_file_t \<Rightarrow> dbl list" where
  "put_file_row r i row vs f = overwrite (rra_base r i + row * n_ds r) vs (vals f)"

lemma rra_row_put:
  assumes "wf_file r f" "i < n_rra r" "row < n_rows r i" "length vs = n_ds r"
    and "vals f' = put_file_row r i row vs f"
  shows "rra_row r f' i row = vs"
    and "row' < n_rows r j \<Longrightarrow> i \<noteq> j \<or> row \<noteq> row' \<Longrightarrow> rra_row r f' j row' = rra_row r f j row'"
    and "length (vals f') = length (vals f)"
proof -
  note b = row_inside(1) [OF assms(1-3), folded assms(4)]
  show "rra_row r f' i row = vs"
    using overwrite_same [OF b] assms(4,5) by (simp add: rra_row_def put_file_row_def)
  show "length (vals f') = length (vals f)"
    using length_overwrite [OF b] by (simp only: assms(4,5) put_file_row_def)
  assume "row' < n_rows r j" "i \<noteq> j \<or> row \<noteq> row'"
  from rows_disjoint [OF assms(3) this] show "rra_row r f' j row' = rra_row r f j row'"
    using overwrite_other [OF b] assms(4,5) by (simp add: rra_row_def put_file_row_def)
qed


section \<open>Writing one row\<close>

lemma overwrite_Cons:
  "k < length xs \<Longrightarrow> overwrite (Suc k) vs (overwrite k [v] xs) = overwrite k (v # vs) xs"
  by (simp add: overwrite_def take_Suc_conv_app_nth add.commute)

text \<open>The summary entries of a row.\<close>

definition row_summary :: "rrd_t \<Rightarrow> int \<Rightarrow> nat \<Rightarrow> nat \<Rightarrow> nat list \<Rightarrow> (string \<times> dbl) list" where
  "row_summary r t i sc js =
     map (\<lambda>j. (summary_key r t i j, scratch r (cdp_index r i j) sc)) js"

lemma write_RRA_row_ok:
  assumes "pos (dbfile w) = header_len (dbfile w) + sizeof_value * k"
    and "header_len (dbfile w) + sizeof_value * (k + length js) \<le> file_len (dbfile w)"
    and "k + length js \<le> length (vals (dbfile w))"
  shows "write_RRA_row js i sc t sm w =
           Some (True, map_option (\<lambda>es. es @ row_summary (db w) t i sc js) sm,
             w\<lparr>dbfile := (dbfile w)\<lparr>
                 vals := overwrite k (map (\<lambda>j. scratch (db w) (cdp_index (db w) i j) sc) js)
                           (vals (dbfile w)),
                 pos := pos (dbfile w) + sizeof_value * length js\<rparr>\<rparr>)"
  using assms
proof (induction js arbitrary: k sm w)
  case Nil
  then show ?case by (cases sm) (auto simp: row_summary_def overwrite_def)
next
  case (Cons j js)
  let ?v = "scratch (db w) (cdp_index (db w) i j) sc"
  let ?w = "w\<lparr>dbfile := (dbfile w)\<lparr>vals := overwrite k [?v] (vals (dbfile w)),
                                   pos := pos (dbfile w) + sizeof_value * 1\<rparr>\<rparr>"
  have k: "k < length (vals (dbfile w))" using Cons.prems(3) by simp
  have wr: "rrd_write w [?v] = Some (int (sizeof_value * 1), ?w)"
    using rrd_write_aligned [OF Cons.prems(1), of "[?v]"] Cons.prems(1,2)
    by (simp add: sizeof_value_def)
  have len: "length (overwrite k [?v] (vals (dbfile w))) = length (vals (dbfile w))"
    using k by (simp add: length_overwrite)
  show ?case
    using Cons.IH [of ?w "Suc k"] Cons.prems k len
    by (cases sm) (auto simp: wr overwrite_Cons row_summary_def sizeof_value_def Let_def)
qed

section \<open>Writing the rows that are due\<close>

text \<open>One turn of the loop over the rows of an archive: the current row advances and takes the
  scratch values.\<close>

definition put_next_row :: "nat \<Rightarrow> nat \<Rightarrow> world \<Rightarrow> world \<Rightarrow> bool" where
  "put_next_row i sc w w' \<longleftrightarrow>
     db w' = next_row i (db w) \<and> ctx.truncate w' = ctx.truncate w \<and>
     header_len (dbfile w') = header_len (dbfile w) \<and> file_len (dbfile w') = file_len (dbfile w) \<and>
     vals (dbfile w') =
       put_file_row (db w) i (cur_row (next_row i (db w)) i) (cdp_row (db w) i sc) (dbfile w)"

lemma next_row_simps [simp]:
  "stat_head (next_row i r) = stat_head r" "ds_def (next_row i r) = ds_def r"
  "rra_def (next_row i r) = rra_def r" "live_head (next_row i r) = live_head r"
  "pdp_prep (next_row i r) = pdp_prep r" "cdp_prep (next_row i r) = cdp_prep r"
  "n_rows (next_row i r) j = n_rows r j" "cdp_row (next_row i r) j k = cdp_row r j k"
  "length (rra_ptr (next_row i r)) = length (rra_ptr r)"
  by (simp_all add: next_row_def Let_def n_rows_def cdp_row_def scratch_def
      cdp_index_def)

lemma rra_base_defs: "same_defs r r' \<Longrightarrow> rra_base r' i = rra_base r i"
  by (induction i) (simp_all add: same_defs_def rra_size_def)

lemma same_defs_next_row [simp]: "same_defs r (next_row i r)"
  by (simp add: same_defs_def)

lemma cur_row_next:
  assumes "cur_row r i < n_rows r i" "i < length (rra_ptr r)"
  shows "cur_row (next_row i r) i = Suc (cur_row r i) mod n_rows r i"
proof -
  have b: "unat (rra_ptr r ! i) < unat (row_cnt (rra_def r ! i))"
    using assms(1) by (simp add: cur_row_def n_rows_def)
  moreover have "unat (row_cnt (rra_def r ! i)) < 2 ^ LENGTH(64)" by (rule unsigned_less)
  ultimately have "Suc (unat (rra_ptr r ! i)) < 2 ^ 64" by simp
  then have c: "unat (rra_ptr r ! i + 1) = Suc (unat (rra_ptr r ! i))"
    by (simp add: unat_word_ariths)
  have "row_cnt (rra_def r ! i) \<le> rra_ptr r ! i + 1 \<longleftrightarrow> n_rows r i \<le> Suc (cur_row r i)"
    by (simp add: word_le_nat_alt c n_rows_def cur_row_def)
  moreover have "Suc (cur_row r i) mod n_rows r i =
      (if n_rows r i \<le> Suc (cur_row r i) then 0 else Suc (cur_row r i))"
    using assms(1) by (cases "n_rows r i = Suc (cur_row r i)") auto
  ultimately show ?thesis
    using assms(2) c by (simp add: next_row_def Let_def cur_row_def)
qed

lemma cur_row_next_other: "i \<noteq> j \<Longrightarrow> cur_row (next_row i r) j = cur_row r j"
  by (simp add: next_row_def Let_def cur_row_def)

lemma wf_rows_next:
  assumes "wf_rows r" "i < n_rra r" "length (rra_ptr r) = n_rra r"
  shows "wf_rows (next_row i r)"
  unfolding wf_rows_def
proof (intro allI impI)
  fix j assume j: "j < n_rra (next_row i r)"
  have r: "\<And>j. j < n_rra r \<Longrightarrow> cur_row r j < n_rows r j"
    using assms(1) by (simp add: wf_rows_def cur_row_def n_rows_def)
  have "cur_row (next_row i r) j < n_rows r j"
  proof (cases "i = j")
    case True
    then show ?thesis
      using cur_row_next [of r i] r [of i] assms(2,3) j by (metis mod_less_divisor not_less_zero neq0_conv)
  next
    case False
    then show ?thesis using r j by (simp add: cur_row_next_other)
  qed
  then show "unat (rra_ptr (next_row i r) ! j) < unat (row_cnt (rra_def (next_row i r) ! j))"
    by (simp add: cur_row_def n_rows_def)
qed


lemma age_mod: "k \<le> n \<Longrightarrow> (a mod n + n - k) mod n = (a + n - k) mod (n :: nat)"
  by (metis Nat.add_diff_assoc mod_add_left_eq)

text \<open>An archive that stays as it is: the current row and all rows.\<close>

definition same_archive :: "nat \<Rightarrow> world \<Rightarrow> world \<Rightarrow> bool" where
  "same_archive j w w' \<longleftrightarrow> cur_row (db w') j = cur_row (db w) j \<and>
     (\<forall>row < n_rows (db w) j. rra_row (db w') (dbfile w') j row = rra_row (db w) (dbfile w) j row)"

lemma same_archive_trans:
  "same_archive j w w' \<Longrightarrow> same_archive j w' w'' \<Longrightarrow> rra_def (db w') = rra_def (db w) \<Longrightarrow>
     same_archive j w w''"
  by (simp add: same_archive_def n_rows_def)

lemma same_archive_history:
  assumes "same_archive j w w'" "rra_def (db w') = rra_def (db w)"
  shows "history (db w') (dbfile w') j = history (db w) (dbfile w) j"
proof -
  have "(cur_row (db w) j + n_rows (db w) j - k) mod n_rows (db w) j < n_rows (db w) j"
    if "k < n_rows (db w) j" for k using that by simp
  then show ?thesis
    using assms by (simp add: same_archive_def history_def aged_row_def n_rows_def)
qed

text \<open>A turn puts the row in front of the history of its archive and leaves the others.\<close>

lemma history_put:
  assumes put: "put_next_row i sc w w'" and wf: "wf_file (db w) (dbfile w)" "wf_rows (db w)"
    and i: "i < n_rra (db w)" and len: "length (rra_ptr (db w)) = n_rra (db w)"
  shows "history (db w') (dbfile w') i =
           take (n_rows (db w) i) (cdp_row (db w) i sc # history (db w) (dbfile w) i)"
    and "j < n_rra (db w) \<Longrightarrow> j \<noteq> i \<Longrightarrow> same_archive j w w'"
    and "wf_file (db w') (dbfile w')"
proof -
  let ?r = "db w" let ?r' = "next_row i ?r" let ?f = "dbfile w" let ?f' = "dbfile w'"
  let ?n = "n_rows ?r i"
  have db: "db w' = ?r'" and vs: "vals ?f' = put_file_row ?r i (cur_row ?r' i) (cdp_row ?r i sc) ?f"
    and hl: "header_len ?f' = header_len ?f" "file_len ?f' = file_len ?f"
    using put by (auto simp: put_next_row_def)
  have c: "cur_row ?r i < ?n" using wf(2) i by (simp add: wf_rows_def cur_row_def n_rows_def)
  have c': "cur_row ?r' i = Suc (cur_row ?r i) mod ?n" using cur_row_next [OF c] i len by simp
  then have in_c': "cur_row ?r' i < ?n" using c by simp
  have lenrow: "length (cdp_row ?r i sc) = n_ds ?r" by (simp add: cdp_row_def)
  note put_row = rra_row_put [OF wf(1) i in_c' lenrow vs]
  have same_row: "rra_row ?r' ?f' j row = rra_row ?r ?f' j row" for j row
    by (simp add: rra_row_def rra_base_defs [OF same_defs_next_row])
  show "wf_file (db w') (dbfile w')"
    using wf(1) put_row(3) hl by (simp add: db wf_file_def rra_base_defs [OF same_defs_next_row])
  show "same_archive j w w'" if "j < n_rra ?r" "j \<noteq> i"
    using put_row(2) [of _ j] that
    by (auto simp: same_archive_def db same_row cur_row_next_other [of i j])
  show "history (db w') ?f' i = take ?n (cdp_row ?r i sc # history ?r ?f i)"
  proof (rule nth_equalityI)
    show "length (history (db w') ?f' i) = length (take ?n (cdp_row ?r i sc # history ?r ?f i))"
      using c by (simp add: db)
    fix k assume "k < length (history (db w') ?f' i)"
    then have k: "k < ?n" by (simp add: db)
    have age: "(cur_row ?r' i + ?n - k) mod ?n = (Suc (cur_row ?r i) + ?n - k) mod ?n"
      using k by (simp only: c' age_mod less_imp_le)
    show "history (db w') ?f' i ! k = take ?n (cdp_row ?r i sc # history ?r ?f i) ! k"
    proof (cases k)
      case 0
      then show ?thesis using k put_row(1) in_c' by (simp add: db history_def aged_row_def same_row)
    next
      case (Suc m)
      have "(cur_row ?r i + ?n - m) mod ?n < ?n" using c by simp
      moreover have "(cur_row ?r i + ?n - m) mod ?n \<noteq> cur_row ?r' i"
      proof
        assume "(cur_row ?r i + ?n - m) mod ?n = cur_row ?r' i"
        then have "(cur_row ?r i + (?n - m)) mod ?n = (cur_row ?r i + 1) mod ?n"
          using k Suc by (simp add: c')
        then have "?n dvd (cur_row ?r i + (?n - m)) - (cur_row ?r i + 1)"
          using k Suc by (intro mod_eq_dvd_iff_nat [THEN iffD1]) auto
        then show False using k Suc by (auto dest: dvd_imp_le)
      qed
      ultimately show ?thesis
        using k Suc put_row(2) [of "(cur_row ?r i + ?n - m) mod ?n" i]
        by (simp add: db history_def aged_row_def same_row age [unfolded Suc, simplified])
    qed
  qed
qed


text \<open>What the writer needs of an open database, and what it leaves alone.\<close>

definition archives_ok :: "world \<Rightarrow> bool" where
  "archives_ok w \<longleftrightarrow> wf_file (db w) (dbfile w) \<and> wf_rows (db w) \<and>
     length (rra_ptr (db w)) = n_rra (db w)"

definition ptrs_only :: "world \<Rightarrow> world \<Rightarrow> bool" where
  "ptrs_only w w' \<longleftrightarrow> db w' = (db w)\<lparr>rra_ptr := rra_ptr (db w')\<rparr> \<and>
     ctx.truncate w' = ctx.truncate w \<and> header_len (dbfile w') = header_len (dbfile w) \<and>
     file_len (dbfile w') = file_len (dbfile w)"

lemma ptrs_only_defs:
  assumes "ptrs_only w w'"
  shows "stat_head (db w') = stat_head (db w)" "rra_def (db w') = rra_def (db w)"
    "n_rows (db w') i = n_rows (db w) i" "cdp_row (db w') i k = cdp_row (db w) i k"
    "same_defs (db w) (db w')" "header_len (dbfile w') = header_len (dbfile w)"
    "rra_base (db w') i = rra_base (db w) i"
proof -
  have d: "db w' = (db w)\<lparr>rra_ptr := rra_ptr (db w')\<rparr>" using assms by (simp add: ptrs_only_def)
  show "stat_head (db w') = stat_head (db w)" "rra_def (db w') = rra_def (db w)"
    "n_rows (db w') i = n_rows (db w) i" "cdp_row (db w') i k = cdp_row (db w) i k"
    "same_defs (db w) (db w')"
    by (subst d, simp add: n_rows_def cdp_row_def scratch_def cdp_index_def same_defs_def)+
  then show "rra_base (db w') i = rra_base (db w) i" by (blast intro: rra_base_defs)
  show "header_len (dbfile w') = header_len (dbfile w)" using assms by (simp add: ptrs_only_def)
qed

lemma ptrs_only_refl [simp]: "ptrs_only w w"
  by (simp add: ptrs_only_def)

lemma ptrs_only_trans: "ptrs_only w w' \<Longrightarrow> ptrs_only w' w'' \<Longrightarrow> ptrs_only w w''"
  by (cases "db w"; cases "db w'"; cases "db w''") (auto simp: ptrs_only_def)


text \<open>The rows one archive gets, newest first: the primary values are the oldest of them.\<close>

definition rows_written :: "rrd_t \<Rightarrow> nat \<Rightarrow> nat \<Rightarrow> nat \<Rightarrow> dbl list list" where
  "rows_written r i sc n =
     (if n = 0 then [] else replicate (n - 1) (cdp_row r i CDP_secondary_val) @ [cdp_row r i sc])"

lemma rows_written_Suc:
  "rows_written r i sc (Suc n) = rows_written r i CDP_secondary_val n @ [cdp_row r i sc]"
  by (cases n) (simp_all add: rows_written_def replicate_append_same)

lemma rows_written_0 [simp]: "rows_written r i sc 0 = []"
  by (simp add: rows_written_def)

definition archive_written :: "nat \<Rightarrow> nat \<Rightarrow> bool \<Rightarrow> nat \<Rightarrow> world \<Rightarrow> world \<Rightarrow> bool" where
  "archive_written i sc skip n w w' \<longleftrightarrow>
     cur_row (db w') i = (cur_row (db w) i + n) mod n_rows (db w) i \<and>
     (if skip
      then \<forall>row < n_rows (db w) i.
             rra_row (db w') (dbfile w') i row = rra_row (db w) (dbfile w) i row
      else history (db w') (dbfile w') i =
             take (n_rows (db w) i) (rows_written (db w) i sc n @ history (db w) (dbfile w) i))"

lemma archive_written_0:
  "cur_row (db w) i < n_rows (db w) i \<Longrightarrow> archive_written i sc skip 0 w w"
  by (simp add: archive_written_def rows_written_def)

text \<open>One turn of the loop, with a skipped row or a written one.\<close>

lemma archive_turn:
  assumes w: "archives_ok w" "i < n_rra (db w)"
    and w': "db w' = next_row i (db w)" "ptrs_only w w'"
      "if skip then vals (dbfile w') = vals (dbfile w) else put_next_row i sc w w'"
  shows "archives_ok w'" and "archive_written i sc skip 1 w w'"
    and "j < n_rra (db w) \<Longrightarrow> j \<noteq> i \<Longrightarrow> same_archive j w w'"
proof -
  have wf: "wf_file (db w) (dbfile w)" "wf_rows (db w)" and len: "length (rra_ptr (db w)) = n_rra (db w)"
    using w(1) by (auto simp: archives_ok_def)
  have c: "cur_row (db w) i < n_rows (db w) i"
    using wf(2) w(2) by (simp add: wf_rows_def cur_row_def n_rows_def)
  then have c': "cur_row (db w') i = (cur_row (db w) i + 1) mod n_rows (db w) i"
    using cur_row_next [OF c] w(2) len by (simp add: w'(1))
  note hdr = ptrs_only_defs [OF w'(2)]
  have wr: "wf_rows (db w')" "length (rra_ptr (db w')) = n_rra (db w')"
    using wf_rows_next [OF wf(2) w(2) len] len by (simp_all add: w'(1))
  have fl: "file_len (dbfile w') = file_len (dbfile w)" using w'(2) by (simp add: ptrs_only_def)
  have skipped: "rra_row (db w') (dbfile w') k row = rra_row (db w) (dbfile w) k row" if skip for k row
    using w'(3) that by (simp add: rra_row_def hdr)
  have kept: "skip \<Longrightarrow> wf_file (db w') (dbfile w')"
    using wf(1) w'(3) by (simp add: wf_file_def hdr fl)
  show "archives_ok w'"
    using kept history_put(3) [OF _ wf w(2) len] w'(3) wr by (auto simp: archives_ok_def split: if_splits)
  show "archive_written i sc skip 1 w w'"
    using history_put(1) [OF _ wf w(2) len] w'(3) c' skipped
    by (auto simp: archive_written_def rows_written_def split: if_splits)
  show "same_archive j w w'" if j: "j < n_rra (db w)" "j \<noteq> i"
  proof (cases skip)
    case True
    then show ?thesis using skipped j by (simp add: same_archive_def) (simp add: w'(1) cur_row_next_other)
  next
    case False
    then show ?thesis using history_put(2) [OF _ wf w(2) len j] w'(3) by simp
  qed
qed

lemma archive_written_Suc:
  assumes "archive_written i sc skip 1 w w1" "archive_written i CDP_secondary_val skip n w1 w2"
    and "ptrs_only w w1"
  shows "archive_written i sc skip (Suc n) w w2"
proof -
  have "take m (as @ take m cs) = take m (as @ cs)" for m :: nat and as cs :: "dbl list list"
    by (simp add: min_def)
  moreover have "rows_written (db w1) i k n = rows_written (db w) i k n" for k
    by (simp add: rows_written_def ptrs_only_defs [OF assms(3)])
  ultimately show ?thesis
    using assms(1,2) rows_written_Suc [of "db w" i sc 0]
    by (auto simp: archive_written_def ptrs_only_defs [OF assms(3)] rows_written_Suc mod_simps
        simp del: take_append split: if_splits)
qed


lemma write_rows_turn:
  assumes w: "archives_ok w" "i < n_rra (db w)"
    and start: "rra_start = header_len (dbfile w) + sizeof_value * rra_base (db w) i"
  shows "\<exists>sm' w'. write_rows (Suc n) i rra_start t skip sc sub sm w =
             write_rows n i rra_start t skip CDP_secondary_val 2 sm' w' \<and>
           db w' = next_row i (db w) \<and> ptrs_only w w' \<and>
           (if skip then vals (dbfile w') = vals (dbfile w) else put_next_row i sc w w')"
proof -
  let ?r = "next_row i (db w)"
  let ?p = "rra_start + n_ds ?r * unat (rra_ptr ?r ! i) * sizeof_value"
  let ?k = "rra_base (db w) i + cur_row ?r i * n_ds (db w)"
  let ?w1 = "w\<lparr>db := ?r, dbfile := snd (rrd_seek (dbfile w) ?p SEEK_SET)\<rparr>"
  let ?w2 = "?w1\<lparr>dbfile := (dbfile ?w1)\<lparr>
      vals := overwrite ?k (map (\<lambda>j. scratch ?r (cdp_index ?r i j) sc) [0..<n_ds ?r]) (vals (dbfile ?w1)),
      pos := pos (dbfile ?w1) + sizeof_value * length [0..<n_ds ?r]\<rparr>\<rparr>"
  let ?w' = "if skip then ?w1 else ?w2"
  have len: "length (rra_ptr (db w)) = n_rra (db w)" and wf: "wf_file (db w) (dbfile w)" "wf_rows (db w)"
    using w(1) by (auto simp: archives_ok_def)
  have "cur_row (db w) i < n_rows (db w) i"
    using wf(2) w(2) by (simp add: wf_rows_def cur_row_def n_rows_def)
  then have row: "cur_row ?r i < n_rows (db w) i" using w(2) len by (simp add: cur_row_next)
  note inside = row_inside [OF wf(1) w(2) row]
  have seek: "pos (dbfile ?w1) = header_len (dbfile ?w1) + sizeof_value * ?k"
    by (simp add: rrd_seek_def SEEK_SET_def start cur_row_def algebra_simps)
  have "write_rows (Suc n) i rra_start t skip sc sub sm w =
      write_rows n i rra_start t skip CDP_secondary_val 2
        (if skip then sm else map_option (\<lambda>es. es @ row_summary ?r
            (if sm = None then 0 else row_time ?r i t (of_nat (Suc n)) sub) i sc [0..<n_ds ?r]) sm) ?w'"
    using write_RRA_row_ok [of ?w1 ?k "[0..<n_ds ?r]" i sc _ sm] seek inside
    by (simp add: Let_def rrd_seek_def SEEK_SET_def distrib_left del: upt_Suc)
  moreover have "ptrs_only w ?w'"
    by (simp add: ptrs_only_def rrd_seek_def SEEK_SET_def next_row_def Let_def ctx.defs)
  moreover have "if skip then vals (dbfile ?w') = vals (dbfile w) else put_next_row i sc w ?w'"
    by (simp add: put_next_row_def rrd_seek_def SEEK_SET_def put_file_row_def ctx.defs cdp_row_def
        scratch_def cdp_index_def)
  moreover have "db ?w' = ?r" by simp
  ultimately show ?thesis by blast
qed

lemma write_rows_ok:
  assumes "archives_ok w" "i < n_rra (db w)"
    and "rra_start = header_len (dbfile w) + sizeof_value * rra_base (db w) i"
  shows "\<exists>sm' w'. write_rows n i rra_start t skip sc sub sm w = Some (True, sm', w') \<and>
           archives_ok w' \<and> ptrs_only w w' \<and> archive_written i sc skip n w w' \<and>
           (\<forall>j < n_rra (db w). j \<noteq> i \<longrightarrow> same_archive j w w')"
  using assms
proof (induction n arbitrary: sc sub sm w)
  case 0
  from 0 have "cur_row (db w) i < n_rows (db w) i"
    by (simp add: archives_ok_def wf_rows_def cur_row_def n_rows_def)
  with 0 show ?case by (simp add: archive_written_0 same_archive_def)
next
  case (Suc n)
  obtain sm1 w1 where step: "write_rows (Suc n) i rra_start t skip sc sub sm w =
        write_rows n i rra_start t skip CDP_secondary_val 2 sm1 w1"
    and turn: "db w1 = next_row i (db w)" and only: "ptrs_only w w1"
    and put: "if skip then vals (dbfile w1) = vals (dbfile w) else put_next_row i sc w w1"
    using write_rows_turn [OF Suc.prems, of n t skip sc sub sm] by blast
  note turn = archive_turn [OF Suc.prems(1,2) turn only put]
  have start: "rra_start = header_len (dbfile w1) + sizeof_value * rra_base (db w1) i"
    and rras: "i < n_rra (db w1)"
    using Suc.prems(2,3) by (simp_all only: ptrs_only_defs [OF only])
  note defs = ptrs_only_defs(1) [OF only]
  obtain sm' w'' where w'': "write_rows (Suc n) i rra_start t skip sc sub sm w = Some (True, sm', w'')"
      "archives_ok w''" "ptrs_only w1 w''" "archive_written i CDP_secondary_val skip n w1 w''"
      "\<forall>j < n_rra (db w). j \<noteq> i \<longrightarrow> same_archive j w1 w''"
    using Suc.IH [OF turn(1) rras start, of CDP_secondary_val 2 sm1] unfolding step defs by blast
  have "same_archive j w w''" if "j < n_rra (db w)" "j \<noteq> i" for j
    using same_archive_trans [OF turn(3) [OF that]] w''(5) that ptrs_only_defs(2) [OF only] by simp
  then show ?case
    using w''(1,2) archive_written_Suc [OF turn(2) w''(4) only] ptrs_only_trans [OF only w''(3)]
    by (intro exI [of _ sm'] exI [of _ w'']) (simp del: write_rows.simps)
qed


section \<open>All archives\<close>

lemma archive_written_before:
  assumes "same_archive i w w1" "archive_written i sc skip n w1 w2" "ptrs_only w w1"
  shows "archive_written i sc skip n w w2"
  using assms same_archive_history [OF assms(1) ptrs_only_defs(2) [OF assms(3)]]
  by (auto simp: archive_written_def same_archive_def ptrs_only_defs [OF assms(3)] rows_written_def
      split: if_splits)

lemma archive_written_after:
  assumes "archive_written i sc skip n w w1" "same_archive i w1 w2" "ptrs_only w w1" "ptrs_only w1 w2"
  shows "archive_written i sc skip n w w2"
  using assms(1,2) same_archive_history [OF assms(2) ptrs_only_defs(2) [OF assms(4)]]
  by (auto simp: archive_written_def same_archive_def ptrs_only_defs [OF assms(3)]
      split: if_splits)

lemma write_to_rras_ok:
  assumes "archives_ok w" "k \<le> n_rra (db w)"
    and "rra_start = header_len (dbfile w) + sizeof_value * rra_base (db w) k"
  shows "\<exists>sm' w'. write_to_rras [k..<n_rra (db w)] rra_start t p sm w = Some (True, sm', w') \<and>
           archives_ok w' \<and> ptrs_only w w' \<and>
           (\<forall>i < n_rra (db w). if i < k then same_archive i w w' else
              archive_written i CDP_primary_val (skip_update p ! i) (unat (rra_step_cnt p ! i)) w w')"
  using assms
proof (induction "n_rra (db w) - k" arbitrary: k rra_start sm w)
  case 0
  then show ?case by (simp add: same_archive_def)
next
  case (Suc m)
  then have k: "k < n_rra (db w)" by simp
  let ?n = "unat (rra_step_cnt p ! k)"
  obtain sm1 w1 where step: "write_rows ?n k rra_start t (skip_update p ! k) CDP_primary_val 1 sm w
        = Some (True, sm1, w1)" "archives_ok w1"
    and only: "ptrs_only w w1"
    and wr: "archive_written k CDP_primary_val (skip_update p ! k) ?n w w1"
    and same: "\<forall>j < n_rra (db w). j \<noteq> k \<longrightarrow> same_archive j w w1"
    using write_rows_ok [OF Suc.prems(1) k Suc.prems(3)] by blast
  note defs = ptrs_only_defs [OF only]
  have rs: "rra_size (db w1) k = rra_size (db w) k" by (simp add: rra_size_rows defs(1,3))
  have start: "rra_start + rra_size (db w1) k * sizeof_value =
      header_len (dbfile w1) + sizeof_value * rra_base (db w1) (Suc k)"
    unfolding rs rra_base.simps by (simp add: defs rs Suc.prems(3) distrib_left)
  have m: "m = n_rra (db w1) - Suc k" "Suc k \<le> n_rra (db w1)"
    using Suc.hyps(2) k by (simp_all add: defs(1))
  obtain sm' w' where w': "write_to_rras [Suc k..<n_rra (db w)]
        (rra_start + rra_size (db w1) k * sizeof_value) t p sm1 w1 = Some (True, sm', w')"
      "archives_ok w'" "ptrs_only w1 w'"
    and rest: "\<forall>i < n_rra (db w). if i < Suc k then same_archive i w1 w' else
        archive_written i CDP_primary_val (skip_update p ! i) (unat (rra_step_cnt p ! i)) w1 w'"
    using Suc.hyps(1) [OF m(1) step(2) m(2) start, of sm1] unfolding defs(1) by blast
  have "if i < k then same_archive i w w' else
      archive_written i CDP_primary_val (skip_update p ! i) (unat (rra_step_cnt p ! i)) w w'"
    if i: "i < n_rra (db w)" for i
  proof -
    consider "i < k" | "i = k" | "k < i" by linarith
    then show ?thesis
    proof cases
      case 1
      then show ?thesis using same rest i same_archive_trans [of i w w1 w'] defs(2) by auto
    next
      case 2
      then show ?thesis using rest i archive_written_after [OF wr _ only w'(3)] by auto
    next
      case 3
      then show ?thesis using same rest i archive_written_before [of i w w1] only by auto
    qed
  qed
  then show ?case
    using w' step(1) upt_conv_Cons [OF k] ptrs_only_trans [OF only w'(3)] by simp
qed

text \<open>The rows of all archives, from the first one on.\<close>

lemmas write_all_rras_ok = write_to_rras_ok [where k = 0, simplified]


section \<open>The property\<close>

lemma sample_archives_ok: "archives_ok sample_world"
  using sample_wf by (simp add: archives_ok_def) (simp add: wf_rrd_def)

lemma sample_history:
  "history sample_db sample_file 0 = [[0], [D2], [D1]]"
  "rows_written sample_db 0 CDP_primary_val 2 = [[D2], [D1]]"
  "n_rows sample_db 0 = 3"
  by code_simp+

text \<open>C1. Writing the rows that are due (write_to_rras) succeeds on every well formed database. Each
  archive that is not skipped then has the rows of this update in front of its history, the
  primary values before the copies of the secondary ones, and has lost exactly its oldest rows;
  an archive that is skipped keeps every row where it is. In both cases the current row moves by
  the number of steps and wraps around inside the archive.\<close>

theorem update_extends_history:
  assumes "archives_ok w" and "rra_begin = header_len (dbfile w)"
  shows "\<exists>sm' w'. write_to_rras [0..<n_rra (db w)] rra_begin t p sm w = Some (True, sm', w') \<and>
           archives_ok w' \<and>
           (\<forall>i < n_rra (db w).
              cur_row (db w') i = (cur_row (db w) i + unat (rra_step_cnt p ! i)) mod n_rows (db w) i \<and>
              (if skip_update p ! i
               then \<forall>row < n_rows (db w) i.
                      rra_row (db w') (dbfile w') i row = rra_row (db w) (dbfile w) i row
               else history (db w') (dbfile w') i =
                      take (n_rows (db w) i)
                        (rows_written (db w) i CDP_primary_val (unat (rra_step_cnt p ! i))
                           @ history (db w) (dbfile w) i)))"
  using write_all_rras_ok [OF assms(1), where t = t and p = p and sm = sm] assms(2)
  by (auto simp: archive_written_def)

theorem update_extends_history_witness:
  "\<exists>sm' w'. write_to_rras [0..<2] 792 1200000600
       ((initial_pass sample_db)\<lparr>rra_step_cnt := [2, 1]\<rparr>) None sample_world = Some (True, sm', w') \<and>
     history (db w') (dbfile w') 0 = [[D2], [D1], [0]]"
  using update_extends_history [OF sample_archives_ok, of 792 1200000600
      "(initial_pass sample_db)\<lparr>rra_step_cnt := [2, 1]\<rparr>" None]
  by (auto simp: sample_history less_2_cases initial_pass_def)

end
