(* ===== verification/Archive_Fetch.thy ===== *)
theory Archive_Fetch
  imports Archive
begin

text \<open>
  Fetching looks rows of the history up by their time: the window of \<open>rrd_fetch_fn\<close> holds, for
  every multiple of the archive's step in it, the row of that time, and unknown values where the
  archive has no row.
\<close>

section \<open>Rows by offset\<close>

text \<open>The oldest row of an archive has offset 0.\<close>

definition row_at_offset :: "rrd_t \<Rightarrow> rrd_file_t \<Rightarrow> nat \<Rightarrow> int \<Rightarrow> dbl list" where
  "row_at_offset r f i k =
     (if 0 \<le> k \<and> k < int (n_rows r i) then history r f i ! (n_rows r i - 1 - nat k)
      else replicate (n_ds r) DNAN)"

lemma history_offset:
  assumes "k < n_rows r i"
  shows "history r f i ! (n_rows r i - 1 - k) = rra_row r f i ((cur_row r i + 1 + k) mod n_rows r i)"
proof -
  have "cur_row r i + n_rows r i - (n_rows r i - 1 - k) = cur_row r i + 1 + k" using assms by simp
  then show ?thesis using assms by (simp add: history_def aged_row_def)
qed

lemma row_at_offset_inside:
  "k < n_rows r i \<Longrightarrow> row_at_offset r f i (int k) = rra_row r f i ((cur_row r i + 1 + k) mod n_rows r i)"
  using history_offset [of k r i f] by (simp add: row_at_offset_def)

lemma row_at_offset_outside:
  "k < 0 \<or> int (n_rows r i) \<le> k \<Longrightarrow> row_at_offset r f i k = replicate (n_ds r) DNAN"
  by (auto simp: row_at_offset_def)

section \<open>The loop over the window\<close>

lemma rra_row_vals: "vals f' = vals f \<Longrightarrow> rra_row r f' i row = rra_row r f i row"
  by (simp add: rra_row_def)

lemma row_at_offset_vals: "vals f' = vals f \<Longrightarrow> row_at_offset r f' i k = row_at_offset r f i k"
  by (simp add: row_at_offset_def history_def aged_row_def rra_row_def cong: if_cong)

text \<open>The pointer and the position agree with the offset that is read next. The pointer may stand
  one behind the last row; the position is then set back before the read.\<close>

definition fetch_ready :: "rrd_t \<Rightarrow> nat \<Rightarrow> rrd_file_t \<Rightarrow> int \<Rightarrow> nat \<Rightarrow> bool" where
  "fetch_ready r i f k p \<longleftrightarrow>
     p \<le> n_rows r i \<and> p mod n_rows r i = nat ((int (cur_row r i) + 1 + max k 0) mod int (n_rows r i)) \<and>
     pos f = header_len f + sizeof_value * (rra_base r i + p * n_ds r)"

lemma seek_row_simps [simp]:
  "vals (seek_row r base p f) = vals f" "header_len (seek_row r base p f) = header_len f"
  "file_len (seek_row r base p f) = file_len f"
  "pos (seek_row r base p f) = base + nat p * n_ds r * sizeof_value"
  by (simp_all add: seek_row_def rrd_seek_def SEEK_SET_def)

lemma wf_file_moved:
  "wf_file r f \<Longrightarrow> vals f' = vals f \<Longrightarrow> header_len f' = header_len f \<Longrightarrow> file_len f' = file_len f \<Longrightarrow>
     wf_file r f'"
  by (simp add: wf_file_def)

text \<open>Reading the row at which the position stands.\<close>

lemma read_row:
  assumes "wf_file r f" "i < n_rra r" "p < n_rows r i" "0 < n_ds r"
    and "pos f = header_len f + sizeof_value * (rra_base r i + p * n_ds r)"
  shows "rrd_read f (n_ds r) = Some (int (n_ds r * sizeof_value), rra_row r f i p,
           f\<lparr>pos := header_len f + sizeof_value * (rra_base r i + (p + 1) * n_ds r)\<rparr>)"
  using rrd_read_aligned [OF assms(5,4)] row_inside(2) [OF assms(1-3)] assms(5)
  by (simp add: rra_row_def algebra_simps)

definition one_int_rows :: "rrd_t \<Rightarrow> nat \<Rightarrow> bool" where
  "one_int_rows r i \<longleftrightarrow> i < n_rra r \<and> 0 < n_rows r i \<and> n_rows r i < 2 ^ 31 \<and> 0 < n_ds r"

lemma uint_rows: "uint (row_cnt (rra_def r ! i)) = int (n_rows r i)"
  by (simp add: n_rows_def)

lemma int_rows_n_rows: "one_int_rows r i \<Longrightarrow> int_rows r i = int (n_rows r i)"
  unfolding int_rows_def uint_rows one_int_rows_def by (intro wrap_int_id) simp_all

text \<open>One turn inside the archive.\<close>

lemma fetch_rows_inside:
  assumes wf: "wf_file r f" and i: "one_int_rows r i" and base: "base = header_len f + rra_base r i * sizeof_value"
    and k: "0 \<le> k" "k < int (n_rows r i)" and ready: "fetch_ready r i f k p"
  shows "\<exists>p' f'. fetch_ready r i f' (k + 1) p' \<and> vals f' = vals f \<and> header_len f' = header_len f \<and>
           file_len f' = file_len f \<and>
           fetch_rows r i base (k # ks) (int p) f =
             map_option (map_option ((@) (row_at_offset r f i k))) (fetch_rows r i base ks (int p') f')"
proof -
  let ?n = "n_rows r i"
  let ?w = "int p \<ge> int_rows r i"
  let ?q = "if ?w then p - ?n else p"
  let ?f1 = "if ?w then seek_row r base (int ?q) f else f"
  have n: "0 < ?n" "i < n_rra r" "0 < n_ds r" "int_rows r i = int ?n" "uint (row_cnt (rra_def r ! i)) = int ?n"
    using i int_rows_n_rows [OF i] uint_rows [of r i] by (simp_all only: one_int_rows_def)
  have p: "p \<le> ?n" "p mod ?n = (cur_row r i + 1 + nat k) mod ?n"
    using ready k(1) by (simp_all add: fetch_ready_def nat_mod_distrib nat_add_distrib)
  have q: "?q < ?n" "?q = (cur_row r i + 1 + nat k) mod ?n"
    using p n(1,4) by (auto simp: not_le mod_if [of p])
  have f1: "vals ?f1 = vals f" "header_len ?f1 = header_len f" "file_len ?f1 = file_len f"
    "pos ?f1 = header_len f + sizeof_value * (rra_base r i + ?q * n_ds r)"
    using ready base by (auto simp: fetch_ready_def algebra_simps)
  let ?f2 = "?f1\<lparr>pos := header_len f + sizeof_value * (rra_base r i + (?q + 1) * n_ds r)\<rparr>"
  have wf1: "wf_file r ?f1" using wf_file_moved [OF wf] f1 by blast
  have read: "rrd_read ?f1 (n_ds r) = Some (int (n_ds r * sizeof_value), row_at_offset r f i k, ?f2)"
    using read_row [OF wf1 n(2) q(1) n(3)] f1 q(2) row_at_offset_inside [of "nat k" r i f] k
    by (simp add: rra_row_vals [OF f1(1)])
  have "(if ?w then int p - int ?n else int p) + 1 = int (?q + 1)" using p(1) n(4) by auto
  then have "fetch_rows r i base (k # ks) (int p) f =
      map_option (map_option ((@) (row_at_offset r f i k))) (fetch_rows r i base ks (int (?q + 1)) ?f2)"
    using k n(4,5) read p(1) by (cases ?w) (auto simp: Let_def add.commute [of 1])
  moreover have "fetch_ready r i ?f2 (k + 1) (?q + 1)"
  proof -
    have "(?q + 1) mod ?n = (cur_row r i + 1 + nat (k + 1)) mod ?n"
      using k(1) by (subst q(2)) (simp add: mod_simps nat_add_distrib)
    then show ?thesis
      using q(1) k(1) f1 by (simp add: fetch_ready_def nat_mod_distrib nat_add_distrib)
  qed
  ultimately show ?thesis using f1 by (intro exI [of _ "?q + 1"] exI [of _ ?f2]) simp
qed

lemma fetch_rows_outside:
  assumes "one_int_rows r i" "k < 0 \<or> int (n_rows r i) \<le> k"
  shows "fetch_rows r i base (k # ks) p f =
           map_option (map_option ((@) (row_at_offset r f i k))) (fetch_rows r i base ks p f)"
  using assms by (auto simp: int_rows_n_rows row_at_offset_outside)

text \<open>The whole loop, from any offset on.\<close>

lemma fetch_rows_ok:
  assumes "wf_file r f" "one_int_rows r i" "base = header_len f + rra_base r i * sizeof_value"
    and "k < int (n_rows r i) \<Longrightarrow> k \<le> m \<Longrightarrow> 0 \<le> m \<Longrightarrow> fetch_ready r i f k p"
  shows "fetch_rows r i base [k..m] (int p) f = Some (Some (concat (map (row_at_offset r f i) [k..m])))"
  using assms
proof (induction "nat (m + 1 - k)" arbitrary: k p f)
  case 0
  then show ?case by simp
next
  case (Suc d)
  then have km: "k \<le> m" and d: "d = nat (m + 1 - (k + 1))" by simp_all
  show ?case
  proof (cases "0 \<le> k \<and> k < int (n_rows r i)")
    case True
    then have ready: "fetch_ready r i f k p" using Suc.prems(4) km by simp
    obtain p' f' where next_row: "fetch_ready r i f' (k + 1) p'" "vals f' = vals f"
        "header_len f' = header_len f" "file_len f' = file_len f"
        "fetch_rows r i base (k # [k + 1..m]) (int p) f =
           map_option (map_option ((@) (row_at_offset r f i k))) (fetch_rows r i base [k + 1..m] (int p') f')"
      using fetch_rows_inside [OF Suc.prems(1-3) _ _ ready] True by blast
    have "fetch_rows r i base [k + 1..m] (int p') f' =
        Some (Some (concat (map (row_at_offset r f' i) [k + 1..m])))"
      using Suc.hyps(1) [OF d wf_file_moved [OF Suc.prems(1) next_row(2-4)] Suc.prems(2)] Suc.prems(3)
        next_row(1,3) by simp
    then show ?thesis
      using next_row(5) km by (simp add: upto_rec1 row_at_offset_vals [OF next_row(2)] cong: map_cong)
  next
    case False
    have "fetch_rows r i base [k + 1..m] (int p) f =
        Some (Some (concat (map (row_at_offset r f i) [k + 1..m])))"
    proof (rule Suc.hyps(1) [OF d Suc.prems(1-3)])
      assume "k + 1 < int (n_rows r i)" "k + 1 \<le> m" "0 \<le> m"
      then have "k < 0" "fetch_ready r i f k p" using False Suc.prems(4) by auto
      then show "fetch_ready r i f (k + 1) p" by (auto simp: fetch_ready_def max_def)
    qed
    then show ?thesis
      using fetch_rows_outside [OF Suc.prems(2), of k base "[k + 1..m]" "int p" f] False km
      by (auto simp: upto_rec1)
  qed
qed


section \<open>Times\<close>

text \<open>The signed and unsigned readings agree on the times in use.\<close>

definition time_ok :: "int \<Rightarrow> bool" where
  "time_ok t \<longleftrightarrow> 0 \<le> t \<and> t < 2 ^ 60"

lemma sint_small: "- (2 ^ 62) \<le> x \<Longrightarrow> x < 2 ^ 62 \<Longrightarrow> sint (word_of_int x :: ulong) = x"
  by (simp add: signed_of_int signed_take_bit_int_eq_self)

lemma uint_utime: "time_ok t \<Longrightarrow> uint (utime t) = t"
  by (simp add: time_ok_def utime_def uint_word_of_int)

lemma utime_mod: "time_ok t \<Longrightarrow> utime t mod st = word_of_int (t mod uint st)"
  by (simp add: word_mod_def uint_utime)

lemma step_word: "st = (word_of_int (uint st) :: ulong)"
  by simp

lemma time_floor:
  assumes "time_ok t" "0 < s"
  shows "0 \<le> s * (t div s)" "s * (t div s) \<le> t" "t - t mod s = s * (t div s)"
proof -
  show "0 \<le> s * (t div s)" using assms by (simp add: time_ok_def pos_imp_zdiv_nonneg_iff)
  show "t - t mod s = s * (t div s)" by (simp add: minus_mod_eq_mult_div)
  then show "s * (t div s) \<le> t" using pos_mod_sign [of s t] assms(2) by linarith
qed

lemma align_start_value:
  assumes "time_ok t" "0 < uint st"
  shows "align_start t st = uint st * (t div uint st)"
proof -
  have eq: "utime t - utime t mod st = word_of_int (t - t mod uint st)"
    unfolding utime_mod [OF assms(1)] by (simp only: utime_def wi_hom_sub)
  show ?thesis
    unfolding align_start_def eq time_floor(3) [OF assms]
    by (rule sint_small) (use time_floor [OF assms] assms(1) in \<open>simp_all add: time_ok_def\<close>)
qed

lemma align_end_value:
  assumes "time_ok t" "0 < uint st" "uint st < 2 ^ 60"
  shows "align_end t st = uint st * (t div uint st + 1)"
proof -
  have "utime t + (st - utime t mod st) = word_of_int t + (word_of_int (uint st) - word_of_int (t mod uint st))"
    unfolding utime_mod [OF assms(1)] word_of_int_uint by (simp only: utime_def)
  also have "\<dots> = word_of_int (t - t mod uint st + uint st)"
    by (simp only: wi_hom_sub wi_hom_add algebra_simps)
  finally have eq: "utime t + (st - utime t mod st) = word_of_int (t - t mod uint st + uint st)" .
  have v: "t - t mod uint st + uint st = uint st * (t div uint st + 1)"
    unfolding time_floor(3) [OF assms(1,2)] by (simp add: distrib_left)
  show ?thesis
    unfolding align_end_def eq v
    by (rule sint_small)
      (use time_floor [OF assms(1,2)] assms in \<open>simp_all add: time_ok_def distrib_left\<close>)
qed

lemma sdiv_exact: "0 < s \<Longrightarrow> (s * x) sdiv s = (x :: int)"
  by (simp add: signed_divide_int_def abs_mult sgn_mult mult_sgn_abs)

lemma smod_nonneg: "0 \<le> x \<Longrightarrow> 0 < n \<Longrightarrow> x smod n = x mod (n :: int)"
  by (simp add: signed_modulo_int_def signed_divide_int_def minus_mult_div_eq_mod zsgn_def sgn_if)


text \<open>The conditions under which no time computation wraps.\<close>

definition window_ok :: "rrd_t \<Rightarrow> nat \<Rightarrow> int \<Rightarrow> int \<Rightarrow> bool" where
  "window_ok r i start stop \<longleftrightarrow>
     one_int_rows r i \<and> cur_row r i < n_rows r i \<and>
     time_ok start \<and> time_ok stop \<and> time_ok (last_up (live_head r)) \<and>
     0 < uint (rra_step r i) \<and> uint (rra_step r i) * int (n_rows r i) < 2 ^ 60"

lemma mult_bound: "0 < s \<Longrightarrow> 0 \<le> x \<Longrightarrow> x < y \<Longrightarrow> (s :: int) * y < m \<Longrightarrow> 0 \<le> s * x \<and> s * x < m"
  by (meson mult_nonneg_nonneg mult_strict_left_mono order_less_imp_le order_less_trans)

lemma abs_mult_bound: "0 < s \<Longrightarrow> \<bar>s * x\<bar> < m \<Longrightarrow> \<bar>x\<bar> < (m :: int)"
proof -
  assume s: "0 < s" "\<bar>s * x\<bar> < m"
  have "1 * \<bar>x\<bar> \<le> s * \<bar>x\<bar>" using s(1) by (intro mult_right_mono) auto
  then show ?thesis using s by (simp add: abs_mult)
qed

text \<open>The numbers of the last step, of the first and of the last row of the window.\<close>

definition window_steps ::
  "rrd_t \<Rightarrow> nat \<Rightarrow> int \<Rightarrow> int \<Rightarrow> ulong \<Rightarrow> int \<Rightarrow> int \<Rightarrow> int \<Rightarrow> int \<Rightarrow> int \<Rightarrow> bool" where
  "window_steps r i start stop st s a b c n \<longleftrightarrow>
     window_ok r i start stop \<and> st = rra_step r i \<and> s = uint st \<and>
     a = last_up (live_head r) div s \<and> b = start div s \<and> c = stop div s + 1 \<and> n = int (n_rows r i)"

lemma s_pos:
  assumes w: "window_steps r i start stop st s a b c n"
  shows "0 < s" "s * n < 2 ^ 60" "0 < n" "n < 2 ^ 31" "s < 2 ^ 60"
proof -
  show 1: "0 < s" "s * n < 2 ^ 60" "0 < n" "n < 2 ^ 31"
    using w by (simp_all add: window_steps_def window_ok_def one_int_rows_def)
  have "s * 1 \<le> s * n" using 1 by (intro mult_left_mono) auto
  with 1(2) show "s < 2 ^ 60" by linarith
qed

lemma floors:
  assumes w: "window_steps r i start stop st s a b c n"
  shows "0 \<le> s * a" "s * a < 2 ^ 60" "0 \<le> s * b" "s * b < 2 ^ 60" "0 \<le> s * c" "s * c < 2 ^ 61"
  using w time_floor(1,2) [of "last_up (live_head r)" s] time_floor(1,2) [of start s]
    time_floor(1,2) [of stop s] s_pos [OF w]
  by (simp_all add: window_steps_def window_ok_def time_ok_def distrib_left)

lemma rows_bound:
  assumes w: "window_steps r i start stop st s a b c n"
  shows "0 \<le> s * (n - 1)" "s * (n - 1) < 2 ^ 60"
  using mult_bound [of s "n - 1" n "2 ^ 60"] s_pos [OF w] by auto

lemma sint_step:
  assumes w: "window_steps r i start stop st s a b c n"
  shows "sint st = s"
  using sint_small [of s] s_pos [OF w] w by (simp add: window_steps_def)

lemma end_time:
  assumes w: "window_steps r i start stop st s a b c n"
  shows "rra_end_time r st = s * a"
  using align_start_value [of "last_up (live_head r)" st] w s_pos [OF w]
  by (simp add: rra_end_time_def window_steps_def window_ok_def)

lemma start_time:
  assumes w: "window_steps r i start stop st s a b c n"
  shows "rra_start_time r i st = s * (a - (n - 1))"
proof -
  have "row_cnt (rra_def r ! i) - 1 = word_of_int (n - 1)"
    using w by (simp add: window_steps_def n_rows_def)
  then have "utime (s * a) - st * (row_cnt (rra_def r ! i) - 1) = word_of_int (s * a - s * (n - 1))"
    unfolding utime_def using w by (simp add: window_steps_def)
  then have "utime (s * a) - st * (row_cnt (rra_def r ! i) - 1) = word_of_int (s * (a - (n - 1)))"
    by (simp only: right_diff_distrib)
  moreover have "sint (word_of_int (s * (a - (n - 1))) :: ulong) = s * (a - (n - 1))"
    using floors [OF w] rows_bound [OF w] by (intro sint_small) (simp_all add: right_diff_distrib)
  ultimately show ?thesis by (simp only: rra_start_time_def end_time [OF w])
qed

lemma start_off:
  assumes w: "window_steps r i start stop st s a b c n"
  shows "start_offset_of r i (s * b) st = b - a + n"
proof -
  have "utime (s * b) + st - utime (s * (a - (n - 1))) = word_of_int (s * (b - a + n))"
    unfolding utime_def using w by (simp add: window_steps_def algebra_simps)
  moreover have "sint (word_of_int (s * (b - a + n)) :: ulong) = s * (b - a + n)"
    using floors [OF w] s_pos(2) [OF w] mult_pos_pos [OF s_pos(1,3) [OF w]]
    by (intro sint_small) (simp_all add: right_diff_distrib distrib_left)
  ultimately show ?thesis
    by (simp only: start_offset_of_def start_time [OF w] sint_step [OF w] sdiv_exact [OF s_pos(1) [OF w]])
qed

lemma end_off:
  assumes w: "window_steps r i start stop st s a b c n"
  shows "end_offset_of r (s * c) st = a - c"
  unfolding end_offset_of_def end_time [OF w] sint_step [OF w] right_diff_distrib [symmetric]
  by (rule sdiv_exact [OF s_pos(1) [OF w]])

lemma first_ptr:
  assumes w: "window_steps r i start stop st s a b c n"
  shows "first_pointer r i (b - a + n) = (int (cur_row r i) + 1 + max (b - a + n) 0) mod n"
proof -
  let ?x = "int (cur_row r i) + 1 + max (b - a + n) 0"
  have "\<bar>s * (b - a + n)\<bar> < 2 ^ 61"
    using floors [OF w] s_pos(2) [OF w] mult_pos_pos [OF s_pos(1,3) [OF w]]
    by (simp add: right_diff_distrib distrib_left abs_less_iff)
  then have "\<bar>b - a + n\<bar> < 2 ^ 61" by (rule abs_mult_bound [OF s_pos(1) [OF w]])
  moreover have "int (cur_row r i) < n" using w by (simp add: window_steps_def window_ok_def)
  ultimately have "sint (word_of_int ?x :: ulong) = ?x"
    using s_pos(4) [OF w] by (intro sint_small) auto
  moreover have "rra_ptr r ! i + 1 + (if b - a + n \<le> 0 then 0 else word_of_int (b - a + n)) = word_of_int ?x"
    by (simp add: cur_row_def max_def)
  moreover have "int_rows r i = n" using w by (simp add: int_rows_n_rows window_steps_def window_ok_def)
  ultimately show ?thesis
    unfolding first_pointer_def using s_pos(3) [OF w] by (simp only: smod_nonneg)
qed


section \<open>Rows by time\<close>

text \<open>The row of an archive for a time: the newest row belongs to the last multiple of the step
  before the last update, and each older one to a time one step before.\<close>

definition row_at_time :: "rrd_t \<Rightarrow> rrd_file_t \<Rightarrow> nat \<Rightarrow> int \<Rightarrow> dbl list" where
  "row_at_time r f i t =
     (let s = uint (rra_step r i); age = (s * (last_up (live_head r) div s) - t) div s
      in if 0 \<le> age \<and> age < int (n_rows r i) then history r f i ! nat age
         else replicate (n_ds r) DNAN)"

lemma row_at_time_offset:
  assumes w: "window_steps r i start stop st s a b c n"
  shows "row_at_offset r f i (k + (n - 1 - a)) = row_at_time r f i (s * k)"
proof -
  have age: "(s * a - s * k) div s = a - k"
    using s_pos(1) [OF w] by (simp add: right_diff_distrib [symmetric])
  have "uint (rra_step r i) = s" "last_up (live_head r) div s = a" and n: "int (n_rows r i) = n"
    using w by (simp_all add: window_steps_def)
  then have rt: "row_at_time r f i (s * k) =
      (if 0 \<le> a - k \<and> a - k < n then history r f i ! nat (a - k) else replicate (n_ds r) DNAN)"
    by (simp only: row_at_time_def Let_def age)
  have "n_rows r i - 1 - nat (k + (n - 1 - a)) = nat (a - k)" if "a - k < n" "0 \<le> a - k"
    using that n by linarith
  then show ?thesis
    using n by (auto simp: row_at_offset_def rt)
qed

lemma map_shift_upto: "map (\<lambda>k. f (k + d)) [x..y] = map f [x + d..y + (d :: int)]"
  by (rule nth_equalityI) (simp_all add: algebra_simps)

lemma fetch_window_ok:
  assumes w: "window_steps r i start stop st s a b c n" and wf: "wf_file r f"
  shows "fetch_window r f i (s * b) (s * c) st =
           Some (Some (concat (map (\<lambda>k. row_at_time r f i (s * k)) [b + 1..c])))"
proof -
  let ?base = "header_len f + rra_base r i * sizeof_value" and ?so = "b - a + n"
  have i: "one_int_rows r i" and n: "n = int (n_rows r i)"
    using w by (simp_all add: window_steps_def window_ok_def)
  have "map (row_at_offset r f i) [?so..n - (a - c) - 1] =
      map (\<lambda>k. row_at_offset r f i (k + (n - 1 - a))) [b + 1..c]"
    by (subst map_shift_upto) (simp add: algebra_simps)
  then have rows: "map (row_at_offset r f i) [?so..n - (a - c) - 1] =
      map (\<lambda>k. row_at_time r f i (s * k)) [b + 1..c]"
    by (simp add: row_at_time_offset [OF w])
  note start_stop = start_off [OF w] end_off [OF w] int_rows_n_rows [OF i, folded n]
  show ?thesis
  proof (cases "s * b \<le> rra_end_time r st \<and> rra_start_time r i st - sint st \<le> s * c")
    case True
    let ?p = "first_pointer r i ?so"
    have p: "int (nat ?p) = ?p" "0 \<le> ?p" "?p < n" using s_pos(3) [OF w] by (simp_all add: first_ptr [OF w])
    have "nat ?p < n_rows r i" using p n by (simp add: nat_less_iff)
    moreover have "pos (seek_row r ?base ?p f) = header_len (seek_row r ?base ?p f) +
        sizeof_value * (rra_base r i + nat ?p * n_ds r)"
      by (simp add: algebra_simps)
    ultimately have "fetch_ready r i (seek_row r ?base ?p f) ?so (nat ?p)"
      by (simp only: fetch_ready_def mod_less less_imp_le n [symmetric] first_ptr [OF w] simp_thms)
    with wf_file_moved [OF wf, of "seek_row r ?base ?p f"] i
    have "fetch_rows r i ?base [?so..n - (a - c) - 1] (int (nat ?p)) (seek_row r ?base ?p f) =
        Some (Some (concat (map (row_at_offset r (seek_row r ?base ?p f) i) [?so..n - (a - c) - 1])))"
      by (intro fetch_rows_ok) simp_all
    moreover have "row_at_offset r (seek_row r ?base ?p f) i = row_at_offset r f i"
      by (rule ext) (rule row_at_offset_vals, simp)
    ultimately have "fetch_rows r i ?base [?so..n - (a - c) - 1] ?p (seek_row r ?base ?p f) =
        Some (Some (concat (map (\<lambda>k. row_at_time r f i (s * k)) [b + 1..c])))"
      by (simp only: p(1) rows)
    moreover have "n \<noteq> 0" using s_pos(3) [OF w] by simp
    ultimately show ?thesis
      by (simp only: fetch_window_def Let_def start_stop True if_True if_False simp_thms)
  next
    case False
    then have "\<not> (b \<le> a \<and> a - n \<le> c)"
      using s_pos(1) [OF w] mult_left_mono [of b a s] mult_left_mono [of "a - n" c s]
      by (auto simp: end_time [OF w] start_time [OF w] sint_step [OF w] algebra_simps)
    then have "\<not> (?so < n \<and> ?so \<le> n - (a - c) - 1 \<and> 0 \<le> n - (a - c) - 1)" by linarith
    then have "fetch_rows r i ?base [?so..n - (a - c) - 1] (int 0) f =
        Some (Some (concat (map (row_at_offset r f i) [?so..n - (a - c) - 1])))"
      using n by (intro fetch_rows_ok [OF wf i refl]) auto
    then have "fetch_rows r i ?base [?so..n - (a - c) - 1] 0 f =
        Some (Some (concat (map (row_at_offset r f i) [?so..n - (a - c) - 1])))"
      by (simp only: semiring_1_class.of_nat_0)
    then show ?thesis
      by (simp only: fetch_window_def Let_def start_stop if_not_P [OF False] rows)
  qed
qed


section \<open>The property\<close>

lemma row_total_value:
  assumes w: "window_steps r i start stop st s a b c n" and "start \<le> stop"
  shows "uint (row_total (s * b) (s * c) st) = c - b + 1"
proof -
  have bc: "b \<le> c" using assms s_pos(1) [OF w] zdiv_mono1 [of start stop s] by (simp add: window_steps_def)
  then have nn: "0 \<le> s * (c - b)" using s_pos(1) [OF w] by simp
  have "s * (c - b) < 2 ^ 62" using floors [OF w] by (simp add: right_diff_distrib)
  then have u: "uint (utime (s * c - s * b)) = s * (c - b)"
    using nn by (simp only: utime_def right_diff_distrib [symmetric] uint_word_of_int) simp
  have small: "c - b < 2 ^ 62"
    using abs_mult_bound [OF s_pos(1) [OF w], of "c - b" "2 ^ 62"] nn \<open>s * (c - b) < 2 ^ 62\<close> by simp
  have "uint (utime (s * c - s * b) div st) = c - b"
    using s_pos(1) [OF w] w by (simp only: uint_div u) (simp add: window_steps_def)
  then show ?thesis
    using small bc by (simp add: row_total_def uint_word_ariths)
qed

lemma length_row_at_time:
  assumes "wf_file r f" "i < n_rra r"
  shows "length (row_at_time r f i t) = n_ds r"
proof -
  have "length (rra_row r f i row) = n_ds r" if "row < n_rows r i" for row
    using row_inside(1) [OF assms that] by (simp add: rra_row_def)
  then have "length (history r f i ! k) = n_ds r" if "k < n_rows r i" for k
    using that by (simp add: history_def aged_row_def)
  then show ?thesis by (simp add: row_at_time_def Let_def nat_less_iff)
qed

text \<open>C2. A fetch (rrd_fetch_fn) from the archive it chose returns, for every multiple of the archive's
  step behind the aligned start and up to the aligned end, the row of the archive's history for that
  time, and NaN where the history does not reach; the alignment is the one the caller is told, and
  the number of values is the one the caller computes from it, which is one row less than what
  is allocated.\<close>

theorem fetch_returns_history:
  assumes "choose_rra r cf start stop res [0..<n_rra r] \<lparr>best_full = None, best_part = None\<rparr> c
             = Some (bst, c1)" "chosen_rra bst = Some i"
    and "wf_file r f" "window_ok r i start stop" "start \<le> stop"
    and s: "s = uint (rra_step r i)"
  shows "\<exists>ft. fetch_open_db cf start stop res r f c = Some (Some ft, c1) \<and>
           ft_step ft = rra_step r i \<and> ft_start ft = start - start mod s \<and>
           ft_end ft = stop - stop mod s + s \<and>
           ft_data ft = concat (map (\<lambda>k. row_at_time r f i (s * k))
                                  [ft_start ft div s + 1..ft_end ft div s]) \<and>
           int (length (ft_data ft)) = (ft_end ft - ft_start ft) div s * int (n_ds r) \<and>
           uint (ft_rows ft) = (ft_end ft - ft_start ft) div s + 1"
proof -
  define a b k where abk: "a = last_up (live_head r) div s" "b = start div s" "k = stop div s + 1"
  have w: "window_steps r i start stop (rra_step r i) s a b k (int (n_rows r i))"
    using assms(4) s by (simp add: window_steps_def abk)
  have t: "time_ok start" "time_ok stop" "i < n_rra r"
    using assms(4) by (simp_all add: window_ok_def one_int_rows_def)
  have al: "align_start start (rra_step r i) = s * b" "align_end stop (rra_step r i) = s * k"
    using s_pos [OF w] align_start_value [OF t(1), of "rra_step r i"] align_end_value [OF t(2), of "rra_step r i"]
    by (simp_all add: s abk)
  have bk: "b \<le> k" using s_pos(1) [OF w] zdiv_mono1 [OF assms(5), of s] by (simp add: abk)
  let ?d = "concat (map (\<lambda>j. row_at_time r f i (s * j)) [b + 1..k])"
  have len: "length ?d = nat (k - b) * n_ds r"
    by (simp add: length_concat comp_def length_row_at_time [OF assms(3) t(3)] sum_list_triv)
  have steps: "start - start mod s = s * b" "stop - stop mod s + s = s * k" "s * b div s = b" "s * k div s = k"
    "(s * k - s * b) div s = k - b"
    using s_pos(1) [OF w]
    by (simp_all add: abk minus_mod_eq_mult_div distrib_left right_diff_distrib [symmetric])
  show ?thesis
    unfolding steps
    using fetch_window_ok [OF w assms(3)] row_total_value [OF w assms(5)] len bk steps
    by (simp add: fetch_open_db_def assms(1,2) Let_def al)
qed


lemma sample_choice:
  "choose_rra sample_db CF_AVERAGE 1199999500 1200000000 1 [0..<2] \<lparr>best_full = None, best_part = None\<rparr>
     init_ctx = Some (\<lparr>best_full = Some (299, 0), best_part = None\<rparr>, init_ctx)"
  by code_simp

lemma sample_window: "window_ok sample_db 0 1199999500 1200000000"
  by (simp add: window_ok_def one_int_rows_def n_rows_def cur_row_def time_ok_def rra_step_def)
    (simp add: sample_defs)

lemma sample_rows:
  "map (\<lambda>k. row_at_time sample_db sample_file 0 (300 * k)) [3999999..4000001] = [[D2], [0], [DNAN]]"
  "uint (rra_step sample_db 0) = 300"
  by code_simp+

theorem fetch_returns_history_witness:
  "\<exists>ft. fetch_open_db CF_AVERAGE 1199999500 1200000000 1 sample_db sample_file init_ctx
          = Some (Some ft, init_ctx) \<and>
     ft_start ft = 1199999400 \<and> ft_end ft = 1200000300 \<and> ft_data ft = [D2, 0, DNAN]"
proof -
  have "chosen_rra \<lparr>best_full = Some (299, 0), best_part = None\<rparr> = Some 0" by (simp add: chosen_rra_def)
  from fetch_returns_history [OF sample_choice [folded sample_simps(3)] this sample_wf(2) sample_window _ refl]
  show ?thesis using sample_rows by auto
qed

section \<open>The choice of the archive\<close>

text \<open>What the loop over the archives has kept: of the archives that reach back to the start, the
  first with the least difference of the steps.\<close>

definition step_diff :: "rrd_t \<Rightarrow> ulong \<Rightarrow> nat \<Rightarrow> int" where
  "step_diff r res i = \<bar>sint (res - rra_step r i)\<bar>"

definition full_match :: "rrd_t \<Rightarrow> cf_en \<Rightarrow> int \<Rightarrow> nat \<Rightarrow> bool" where
  "full_match r cf start i \<longleftrightarrow> map_of cf_table (cf_nam (rra_def r ! i)) = Some cf \<and> cal_start r i \<le> start"

definition best_so_far :: "rrd_t \<Rightarrow> cf_en \<Rightarrow> int \<Rightarrow> ulong \<Rightarrow> nat list \<Rightarrow> best \<Rightarrow> bool" where
  "best_so_far r cf start res is b \<longleftrightarrow>
     (case best_full b of
        None \<Rightarrow> \<forall>i \<in> set is. \<not> full_match r cf start i
      | Some (d, i) \<Rightarrow> i \<in> set is \<and> full_match r cf start i \<and> d = step_diff r res i \<and>
          (\<forall>j \<in> set is. full_match r cf start j \<longrightarrow> step_diff r res i \<le> step_diff r res j)) \<and>
     (case best_part b of None \<Rightarrow> True
      | Some (_, _, i) \<Rightarrow> i \<in> set is \<and> map_of cf_table (cf_nam (rra_def r ! i)) = Some cf)"

lemma best_consider:
  assumes "best_so_far r cf start res is b" "map_of cf_table (cf_nam (rra_def r ! i)) = Some cf"
  shows "best_so_far r cf start res (is @ [i]) (consider_rra r start stop res i b)"
  using assms
  by (auto simp: best_so_far_def consider_rra_def Let_def step_diff_def full_match_def
      split: option.splits prod.splits)

lemma best_other:
  assumes "best_so_far r cf start res is b" "map_of cf_table (cf_nam (rra_def r ! i)) \<noteq> Some cf"
  shows "best_so_far r cf start res (is @ [i]) b"
  using assms by (auto simp: best_so_far_def full_match_def split: option.splits prod.splits)

lemma choose_rra_best:
  "choose_rra r cf start stop res is b c = Some (b', c') \<Longrightarrow> best_so_far r cf start res js b \<Longrightarrow>
     best_so_far r cf start res (js @ is) b'"
proof (induction r cf start stop res "is" b c arbitrary: js rule: choose_rra.induct)
  case (2 r cf start stop res i "is" b c)
  obtain k c1 where conv: "cf_conv (cf_nam (rra_def r ! i)) c = (k, c1)" by fastforce
  then have k: "k = map_of cf_table (cf_nam (rra_def r ! i))" using cf_conv_fst by (metis fst_conv)
  show ?case
  proof (cases "k = Some cf")
    case True
    with "2.prems"(1) conv have st: "rra_step r i \<noteq> 0"
      "choose_rra r cf start stop res is (consider_rra r start stop res i b) c1 = Some (b', c')"
      by (auto split: if_splits)
    have "best_so_far r cf start res (js @ [i]) (consider_rra r start stop res i b)"
      using best_consider [OF "2.prems"(2)] True k by simp
    with "2.IH"(2) [OF conv [symmetric], of "js @ [i]"] True st show ?thesis by simp
  next
    case False
    with "2.prems"(1) conv have "choose_rra r cf start stop res is b c1 = Some (b', c')" by simp
    moreover have "best_so_far r cf start res (js @ [i]) b"
      using best_other [OF "2.prems"(2)] False k by simp
    ultimately show ?thesis using "2.IH"(1) [OF conv [symmetric], of "js @ [i]"] False by simp
  qed
qed simp

text \<open>C23. The archive rrd_fetch_fn chooses has the consolidation function that was asked for; when
  any such archive reaches back to the start of the request, the chosen one does, and no other that
  does is closer to the resolution that was asked for.\<close>

theorem chosen_archive_is_best:
  assumes "choose_rra r cf start stop res [0..<n_rra r] \<lparr>best_full = None, best_part = None\<rparr> c
             = Some (b, c1)" "chosen_rra b = Some i"
  shows "i < n_rra r \<and> map_of cf_table (cf_nam (rra_def r ! i)) = Some cf \<and>
         (\<forall>j < n_rra r. full_match r cf start j \<longrightarrow>
            full_match r cf start i \<and> step_diff r res i \<le> step_diff r res j)"
proof -
  have "best_so_far r cf start res ([] @ [0..<n_rra r]) b"
    by (rule choose_rra_best [OF assms(1)]) (simp add: best_so_far_def)
  then show ?thesis
    using assms(2)
    by (auto simp: best_so_far_def chosen_rra_def full_match_def split: option.splits prod.splits)
qed

theorem chosen_archive_is_best_witness:
  "0 < n_rra sample_db \<and> map_of cf_table (cf_nam (rra_def sample_db ! 0)) = Some CF_AVERAGE"
proof -
  have "chosen_rra \<lparr>best_full = Some (299, 0), best_part = None\<rparr> = Some 0" by (simp add: chosen_rra_def)
  from chosen_archive_is_best [OF sample_choice [folded sample_simps(3)] this] show ?thesis by blast
qed

end
