(* ===== verification/Update_Frame.thy ===== *)
theory Update_Frame
  imports Archive
begin

text \<open>
  What no part of an update may touch: \<open>kept\<close> relates two states of an open database when the
  definitions of data sources and archives, the length of the header and of the file and the time
  of the last update are the same, and the second is well formed if the first one is. It is a
  preorder, so every loop keeps what its body keeps; the collection \<open>kept_intros\<close> holds the
  rules for the operations, from the single assignments of \<open>rrd_update.c\<close> and
  \<open>rrd_hw_update.c\<close> up to the passes over all archives.
\<close>

named_theorems kept_intros \<open>operations that keep the frame of an open database\<close>

section \<open>The frame\<close>

definition db_ok :: "world \<Rightarrow> bool" where
  "db_ok w \<longleftrightarrow> wf_rrd (db w) \<and> wf_file (db w) (dbfile w) \<and> wf_rows (db w)"

definition kept :: "world \<Rightarrow> world \<Rightarrow> bool" where
  "kept w w' \<longleftrightarrow>
     (db_ok w \<longrightarrow> db_ok w') \<and> same_defs (db w) (db w') \<and> live_head (db w') = live_head (db w) \<and>
     legacy_last_up (db w') = legacy_last_up (db w) \<and>
     header_len (dbfile w') = header_len (dbfile w) \<and> file_len (dbfile w') = file_len (dbfile w)"

lemma kept_refl [simp, intro]: "kept w w"
  by (simp add: kept_def)

lemma kept_trans [trans]: "kept w w' \<Longrightarrow> kept w' w'' \<Longrightarrow> kept w w''"
  by (auto simp: kept_def intro: same_defs_trans)

lemma db_ok_archives: "db_ok w \<Longrightarrow> archives_ok w"
  by (simp add: db_ok_def archives_ok_def wf_rrd_def)

text \<open>A step that only touches the library state.\<close>

lemma kept_ctx: "ctx.more w' = ctx.more w \<Longrightarrow> kept w w'"
  by (cases w; cases w') (simp add: kept_def db_ok_def)

lemma more_db: "ctx.more w' = ctx.more w \<Longrightarrow> db w' = db w \<and> dbfile w' = dbfile w"
  by (cases w; cases w') simp

text \<open>A step that only touches the header structures, and one that only touches the file.\<close>

lemma kept_db:
  assumes "same_defs (db w) r" "live_head r = live_head (db w)"
    "legacy_last_up r = legacy_last_up (db w)" "wf_rrd (db w) \<Longrightarrow> wf_rrd r"
    "wf_rrd (db w) \<Longrightarrow> wf_rows (db w) \<Longrightarrow> wf_rows r"
  shows "kept w (w\<lparr>db := r\<rparr>)"
proof -
  have "rra_base r k = rra_base (db w) k" for k by (rule rra_base_defs [OF assms(1)])
  then show ?thesis using assms by (auto simp: kept_def db_ok_def wf_file_def same_defs_def)
qed

lemma kept_dbfile:
  assumes "header_len f = header_len (dbfile w)" "file_len f = file_len (dbfile w)"
    "wf_file (db w) (dbfile w) \<Longrightarrow> length (vals f) = length (vals (dbfile w))"
  shows "kept w (w\<lparr>dbfile := f\<rparr>)"
  using assms by (auto simp: kept_def db_ok_def wf_file_def)

lemma kept_rows: "rra_ptr r' = rra_ptr r \<Longrightarrow> same_defs r r' \<Longrightarrow> wf_rows r \<Longrightarrow> wf_rows r'"
  by (simp add: wf_rows_def same_defs_def)

text \<open>The library functions that leave the database alone.\<close>

lemma more_dst_conv: "dst_conv s c = (d, c') \<Longrightarrow> ctx.more c' = ctx.more c"
  by (auto simp: dst_conv_def split: option.splits)

lemma more_cf_conv: "cf_conv s c = (d, c') \<Longrightarrow> ctx.more c' = ctx.more c"
  by (auto simp: cf_conv_def split: option.splits)

lemma more_ds_match: "ds_match r s c = (d, c') \<Longrightarrow> ctx.more c' = ctx.more c"
  by (auto simp: ds_match_def split: option.splits)

lemma more_gettimeofday: "gettimeofday c = (d, c') \<Longrightarrow> ctx.more c' = ctx.more c"
  by (auto split: list.splits)

lemma more_initialize_time: "initialize_time v c = (d, c') \<Longrightarrow> ctx.more c' = ctx.more c"
  by (auto simp: initialize_time_def simp del: gettimeofday.simps dest: more_gettimeofday
      split: prod.splits)

lemma more_rpn_calc:
  "rpn_calc env ns n d out oi c = Some (rc, ns', n', out', c') \<Longrightarrow> ctx.more c' = ctx.more c"
  by (auto simp: rpn_calc_def split: option.splits if_splits)

lemma more_rrd_parsetime: "rrd_parsetime tz spec c = (res, c') \<Longrightarrow> ctx.more c' = ctx.more c"
  by (auto simp: rrd_parsetime_def Let_def simp del: gettimeofday.simps dest: more_gettimeofday
      split: prod.splits sum.splits if_splits)

lemma more_numeric_time: "numeric_time txt c = (res, c') \<Longrightarrow> ctx.more c' = ctx.more c"
  by (auto simp: numeric_time_def Let_def simp del: gettimeofday.simps
      dest!: more_gettimeofday split: prod.splits if_splits)

lemma more_reading_time: "reading_time tz ch txt c = (res, c') \<Longrightarrow> ctx.more c' = ctx.more c"
  by (auto simp: reading_time_def simp del: gettimeofday.simps
      dest: more_gettimeofday more_rrd_parsetime more_numeric_time
      split: prod.splits sum.splits if_splits)

lemma more_get_time: "get_time_from_reading tz r ch txt v c = (res, c') \<Longrightarrow> ctx.more c' = ctx.more c"
  by (auto simp: get_time_from_reading_def Let_def dest: more_reading_time
      split: prod.splits option.splits if_splits)

lemma more_parse_ds: "parse_ds tz r tmpl a v c = Some (res, c') \<Longrightarrow> ctx.more c' = ctx.more c"
  by (auto simp: parse_ds_def dest: more_get_time split: prod.splits option.splits if_splits sum.splits)

lemma more_default_template: "default_template ds i c = (is, c') \<Longrightarrow> ctx.more c' = ctx.more c"
proof (induction ds arbitrary: i c "is" c')
  case (Cons d ds)
  obtain t c1 where t: "dst_conv (dst d) c = (t, c1)" by fastforce
  obtain js c2 where js: "default_template ds (Suc i) c1 = (js, c2)" by fastforce
  with Cons t show ?case by (auto dest!: more_dst_conv split: if_splits)
qed simp

lemma more_template_names: "template_names r ns idx c = (res, c') \<Longrightarrow> ctx.more c' = ctx.more c"
  by (induction ns arbitrary: idx c)
     (auto dest!: more_ds_match split: prod.splits if_splits)

lemma more_allocate:
  "allocate_data_structures r t c = (res, c') \<Longrightarrow> ctx.more c' = ctx.more c"
  by (auto simp: allocate_data_structures_def parse_template_def
      dest!: more_default_template more_template_names split: prod.splits option.splits)

lemma more_float_reading: "float_reading g v i c = (res, c') \<Longrightarrow> ctx.more c' = ctx.more c"
  by (auto simp: float_reading_def Let_def split: prod.splits if_splits)

lemmas kept_library = kept_ctx [OF more_dst_conv] kept_ctx [OF more_cf_conv]
  kept_ctx [OF more_initialize_time] kept_ctx [OF more_rpn_calc] kept_ctx [OF more_parse_ds]
  kept_ctx [OF more_allocate] kept_ctx [OF more_float_reading]

section \<open>Primary data points\<close>

lemma nth_update_all:
  assumes "\<forall>x \<in> set xs. P x" "\<And>x. x \<in> set xs \<Longrightarrow> P x \<Longrightarrow> P (f x)"
  shows "\<forall>x \<in> set (xs[i := f (xs ! i)]). P x"
proof (cases "i < length xs")
  case True
  then have "P (f (xs ! i))" using assms by simp
  with assms(1) show ?thesis by (metis insertE set_update_subset_insert subsetD)
qed (use assms in \<open>simp add: list_update_beyond\<close>)

lemma kept_set_pdp [kept_intros]:
  assumes "\<And>p. length (pdp_scratch (f p)) = length (pdp_scratch p)"
  shows "kept w (set_pdp i f w)"
  unfolding set_pdp_def using assms
  by (intro kept_db wf_pdp_prep_update nth_update_all) (auto simp: same_defs_def wf_rrd_def wf_rows_def)

lemma kept_set_last_ds [kept_intros]: "kept w (set_last_ds i v w)"
  unfolding set_last_ds_def by (intro kept_intros) simp

lemma kept_set_pdp_scr [kept_intros]: "kept w (set_pdp_scr i k v w)"
  unfolding set_pdp_scr_def by (intro kept_intros) simp

lemma kept_error [kept_intros]: "kept w (rrd_set_error m w)"
  by (rule kept_ctx) simp

lemma kept_then_error: "kept w w' \<Longrightarrow> kept w (rrd_set_error m w')"
  by (rule kept_trans [OF _ kept_error])

lemma kept_read_value: "read_value i v interval d w = Some (res, w') \<Longrightarrow> kept w w'"
  by (cases d; cases "the d")
     (auto simp: read_value_def Let_def intro: kept_intros dest: kept_library
        split: option.splits sum.splits if_splits prod.splits)

lemma kept_pdp_prep_ds:
  assumes "pdp_prep_ds i v interval w = Some (res, w')"
  shows "kept w w'"
proof -
  obtain d w1 where d: "dst_conv (dst (ds_def (db w) ! i)) w = (d, w1)" by fastforce
  have "kept w w1" using more_dst_conv [OF d] by (rule kept_ctx)
  moreover have "kept w1 w'"
    using assms d
    by (auto simp: pdp_prep_ds_def Let_def intro: kept_intros kept_trans [OF kept_set_last_ds]
        kept_trans [OF _ kept_set_last_ds] dest!: kept_read_value split: if_splits option.splits prod.splits)
  ultimately show ?thesis by (rule kept_trans)
qed

text \<open>Loops over data sources.\<close>

lemma kept_update_pdp_prep: "update_pdp_prep is updvals interval w = Some (res, w') \<Longrightarrow> kept w w'"
  by (induction "is" arbitrary: w res)
     (fastforce split: option.splits dest!: kept_pdp_prep_ds intro: kept_trans)+

lemma kept_simple_update [kept_intros]: "kept w (simple_update is interval pdp_new w)"
proof (induction "is" arbitrary: w)
  case (Cons i "is")
  have "kept w (simple_update_ds interval i (pdp_new ! i) w)"
    by (simp add: simple_update_ds_def kept_intros)
  then show ?case using Cons by (auto intro: kept_trans)
qed simp

lemma kept_compute_ds: "compute_ds env i temp w = Some (ok, out, w') \<Longrightarrow> kept w w'"
  by (auto simp: compute_ds_def dest: kept_library split: option.splits)

lemma kept_process_pdp_st:
  assumes "process_pdp_st env i interval pre post diff pdp_new temp w = Some (ok, temp', w')"
  shows "kept w w'"
proof -
  let ?w1 = "if isnan (pdp_new ! i) then w
    else set_pdp_scr i PDP_val (fadd (if isnan (pdp_scr (db w) i PDP_val) then 0 else pdp_scr (db w) i PDP_val)
      (fmul (fdiv (pdp_new ! i) interval) pre)) w"
  obtain d w2 where d: "dst_conv (dst (ds_def (db ?w1) ! i)) ?w1 = (d, w2)" by fastforce
  have "kept w ?w1" by (simp add: kept_intros)
  then have w2: "kept w w2" using kept_library(1) [OF d] by (rule kept_trans)
  have post: "kept w3 (set_pdp_scr i k v (set_pdp_scr i k' v' w3))" for w3 k v k' v'
    by (blast intro: kept_trans kept_set_pdp_scr)
  have "kept w2 w'"
    using assms unfolding process_pdp_st_def Let_def d
    by (auto intro: post kept_trans [OF _ post] dest!: kept_compute_ds split: if_splits option.splits bool.splits)
  with w2 show ?thesis by (rule kept_trans)
qed

lemma kept_process_all_pdp_st:
  "process_all_pdp_st env is interval el pdp_new temp w = Some (ok, temp', w') \<Longrightarrow> kept w w'"
  by (induction "is" arbitrary: temp w)
     (auto split: option.splits bool.splits dest!: kept_process_pdp_st intro: kept_trans)

section \<open>Scratch areas\<close>

text \<open>A change of the scratch areas of the archives alone.\<close>

definition scratch_only :: "rrd_t \<Rightarrow> rrd_t \<Rightarrow> bool" where
  "scratch_only r r' \<longleftrightarrow> r' = r\<lparr>cdp_prep := cdp_prep r'\<rparr> \<and> (wf_rrd r \<longrightarrow> wf_rrd r')"

lemma scratch_only_refl [simp, intro]: "scratch_only r r"
  by (simp add: scratch_only_def)

lemma scratch_only_eq: "s = r\<lparr>cdp_prep := c\<rparr> \<Longrightarrow> t = s\<lparr>cdp_prep := d\<rparr> \<Longrightarrow> t = r\<lparr>cdp_prep := d\<rparr>"
  by simp

lemma scratch_only_trans [trans]: "scratch_only r s \<Longrightarrow> scratch_only s t \<Longrightarrow> scratch_only r t"
  unfolding scratch_only_def using scratch_only_eq by blast

lemma kept_scratch: "scratch_only (db w) r \<Longrightarrow> kept w (w\<lparr>db := r\<rparr>)"
proof -
  assume "scratch_only (db w) r"
  then obtain c where r: "r = (db w)\<lparr>cdp_prep := c\<rparr>" and wf: "wf_rrd (db w) \<Longrightarrow> wf_rrd r"
    by (auto simp: scratch_only_def)
  show ?thesis using wf unfolding r by (intro kept_db) (auto simp: same_defs_def wf_rows_def)
qed

lemma scratch_only_set_scratch [kept_intros]:
  "scratch_only r s \<Longrightarrow> scratch_only r (set_scratch i k v s)"
  by (erule scratch_only_trans) 
     (auto simp: scratch_only_def set_scratch_def intro: wf_set_scratch [unfolded set_scratch_def])

lemma scratch_only_set_cdp:
  assumes "\<And>p. length (f p) = length p"
  shows "scratch_only r (set_cdp i (f (cdp_prep r ! i)) r)"
  unfolding scratch_only_def set_cdp_def using assms
  by (auto intro!: wf_cdp_prep_update simp: wf_rrd_def
      intro: nth_update_all [of "cdp_prep r" "\<lambda>p. length p = 10" f, THEN bspec])

lemma scratch_only_update_hwpredict:
  "update_hwpredict i ra ds k fs r = (rc, r') \<Longrightarrow> scratch_only r r'"
  by (auto simp: update_hwpredict_def Let_def save_coefficients_def init_slope_intercept_def
      intro!: kept_intros split: if_splits)

lemma scratch_only_update_seasonal:
  "update_seasonal i ra ds k sc fs r = (rc, r') \<Longrightarrow> scratch_only r r'"
  by (auto simp: update_seasonal_def Let_def intro!: kept_intros)

lemma scratch_only_update_devpredict:
  "update_devpredict i ra ds k r = (rc, r') \<Longrightarrow> scratch_only r r'"
  by (auto simp: update_devpredict_def Let_def intro!: kept_intros)

lemma scratch_only_update_devseasonal:
  "update_devseasonal i ra ds k sc fs r = (rc, r') \<Longrightarrow> scratch_only r r'"
  by (auto simp: update_devseasonal_def Let_def intro!: kept_intros split: if_splits)

lemma length_set_byte [simp]: "length (set_byte k b ws) = length ws"
  by (simp add: set_byte_def)

lemma length_shift_violations:
  "length (fst (shift_violations n ws c)) = length ws"
  by (induction n ws c rule: shift_violations.induct)
     (subst shift_violations.simps, auto simp: Let_def)

lemma length_clear_bytes [simp]: "length (clear_bytes n s) = length s"
  by (induction n arbitrary: s) simp_all

lemma scratch_only_update_failures:
  assumes "update_failures i ra ds k fs r = (rc, r')"
  shows "scratch_only r r'"
proof -
  define v where "v = (if is_violation_now i ra ds k fs r then 1 else 0 :: int)"
  define n where "n = unat (par_of r ra RRA_window_len) mod 2 ^ 16"
  have "scratch_only r (set_cdp i (set_byte 0 v (fst (shift_violations n (cdp_prep r ! i) v))) r)"
    by (rule scratch_only_set_cdp [of "\<lambda>p. set_byte 0 v (fst (shift_violations n p v))"])
       (simp add: length_shift_violations)
  then show ?thesis using assms
    by (auto simp: update_failures_def Let_def v_def n_def set_cdp_def split: prod.splits if_splits
        intro!: kept_intros)
qed

section \<open>Transfers\<close>

lemma kept_seek [kept_intros]: "kept w w' \<Longrightarrow> kept w (w'\<lparr>dbfile := snd (rrd_seek (dbfile w') p wh)\<rparr>)"
  by (erule kept_trans) (rule kept_dbfile; simp add: rrd_seek_def)

lemma rrd_read_frame:
  "rrd_read f n = Some (got, vs, f') \<Longrightarrow> header_len f' = header_len f \<and> file_len f' = file_len f \<and> vals f' = vals f"
  by (auto simp: rrd_read_def Let_def split: option.splits if_splits)

lemma kept_write:
  assumes "rrd_write w vs = Some (got, w')"
  shows "kept w w'"
proof -
  have "length (overwrite i vs (vals (dbfile w))) = length (vals (dbfile w))"
    if p: "\<not> file_len (dbfile w) < pos (dbfile w) + length vs * sizeof_value"
      "value_index (dbfile w) (pos (dbfile w)) = Some i" "wf_file (db w) (dbfile w)" for i
  proof -
    have "pos (dbfile w) = header_len (dbfile w) + sizeof_value * i"
      using p(2) by (auto simp: value_index_def sizeof_value_def split: if_splits)
    with p(1,3) show ?thesis by (intro length_overwrite) (auto simp: wf_file_def sizeof_value_def)
  qed
  with assms show ?thesis
    by (auto simp: rrd_write_def Let_def intro!: kept_intros kept_dbfile split: if_splits option.splits)
qed

lemma kept_write_RRA_row: "write_RRA_row js i k t sm w = Some (ok, sm', w') \<Longrightarrow> kept w w'"
  by (induction js arbitrary: sm w)
     (fastforce simp: Let_def split: option.splits if_splits dest!: kept_write
        intro: kept_trans kept_error)+

lemma kept_next_row [kept_intros]: "kept w (w\<lparr>db := next_row i (db w)\<rparr>)"
proof (rule kept_db)
  assume wf: "wf_rrd (db w)"
  then show "wf_rrd (next_row i (db w))"
    by (auto simp: next_row_def Let_def intro: wf_rra_ptr_update)
  assume rows: "wf_rows (db w)"
  have len: "length (rra_ptr (db w)) = n_rra (db w)" using wf by (simp add: wf_rrd_def)
  show "wf_rows (next_row i (db w))"
  proof (cases "i < n_rra (db w)")
    case True
    then show ?thesis using rows len by (intro wf_rows_next)
  next
    case False
    then have "next_row i (db w) = db w" using len by (simp add: next_row_def list_update_beyond)
    then show ?thesis using rows by simp
  qed
qed (simp_all add: same_defs_def, simp add: next_row_def Let_def)

lemma kept_write_rows:
  "write_rows n i start t skip k sub sm w = Some (ok, sm', w') \<Longrightarrow> kept w w'"
proof (induction n arbitrary: k sub sm w)
  case (Suc n)
  let ?p = "start + n_ds (next_row i (db w)) * unat (rra_ptr (next_row i (db w)) ! i) * sizeof_value"
  define w1 where "w1 = w\<lparr>db := next_row i (db w), dbfile := snd (rrd_seek (dbfile w) ?p SEEK_SET)\<rparr>"
  have w1: "kept w w1"
    using kept_seek [OF kept_next_row [of w i], of ?p SEEK_SET] by (simp add: w1_def)
  note prems = Suc.prems [unfolded write_rows.simps Let_def, folded w1_def]
  have "kept w1 w'"
  proof (cases skip)
    case True
    then show ?thesis using prems Suc.IH by simp
  next
    case False
    then obtain w2 where row: "kept w1 w2"
      and rest: "w' = w2 \<or> (\<exists>sm1. write_rows n i start t skip CDP_secondary_val 2 sm1 w2 = Some (ok, sm', w'))"
      using prems by (fastforce dest: kept_write_RRA_row split: option.splits bool.splits)
    then show ?thesis using Suc.IH by (auto intro: kept_trans)
  qed
  with w1 show ?case by (rule kept_trans)
qed simp

lemma kept_write_to_rras:
  "write_to_rras is start t p sm w = Some (ok, sm', w') \<Longrightarrow> kept w w'"
  by (induction "is" arbitrary: start sm w)
     (fastforce split: option.splits bool.splits dest!: kept_write_rows intro: kept_trans)+

section \<open>Consolidation\<close>

lemma length_update_cdp [simp]: "length (update_cdp cf v n e st pdps xff s) = length s"
  by (simp add: update_cdp_def initialize_cdp_val_def Let_def)

lemma kept_upd_cdp [kept_intros]:
  assumes "\<And>s. length (f s) = length s"
  shows "kept w (upd_cdp i f w)"
  unfolding upd_cdp_def by (intro kept_scratch scratch_only_set_cdp assms)

lemma kept_erase_violations [kept_intros]: "kept w (erase_violations c i w)"
proof -
  obtain cf w1 where cf: "cf_conv (cf_nam (rra_def (db w) ! i)) w = (cf, w1)" by fastforce
  have "kept w1 (w1\<lparr>db := set_cdp c (clear_bytes n (cdp_prep (db w1) ! c)) (db w1)\<rparr>)" for n
    by (intro kept_scratch scratch_only_set_cdp) simp
  then show ?thesis using kept_library(2) [OF cf] by (auto simp: erase_violations_def cf intro: kept_trans)
qed

lemma kept_reset_cdp [kept_intros]: "kept w (reset_cdp e temp ls s i j c cf w)"
  unfolding reset_cdp_def
  by (auto intro!: kept_upd_cdp kept_trans [OF kept_upd_cdp kept_erase_violations])

lemma kept_update_cdp_prep:
  "update_cdp_prep js e st n i temp ls s cf w = (ok, w') \<Longrightarrow> kept w w'"
proof (induction js arbitrary: w)
  case (Cons j js)
  define w1 where "w1 = (if pdp_cnt (rra_def (db w) ! i) > 1 then
      upd_cdp (cdp_index (db w) i j) (update_cdp cf (temp ! j) n e st (pdp_cnt (rra_def (db w) ! i))
        (rra_par (rra_def (db w) ! i) ! RRA_cdp_xff_val)) w
    else if e > 2 then reset_cdp e temp ls s i j (cdp_index (db w) i j) cf w else w)"
  have "kept w w1" by (auto simp: w1_def intro!: kept_intros)
  moreover have "kept w1 w'"
    using Cons.prems Cons.IH by (auto simp: Let_def w1_def [symmetric] split: if_splits)
  ultimately show ?case by (rule kept_trans)
qed simp

lemma kept_do_schedule_smooth:
  "do_schedule_smooth i e (db w) = (due, r) \<Longrightarrow> kept w (w\<lparr>db := r\<rparr>)"
  by (rule kept_scratch) (auto simp: do_schedule_smooth_def Let_def intro: kept_intros split: if_splits)

lemma kept_read:
  "rrd_read (snd (rrd_seek (dbfile w) p SEEK_SET)) n = Some (got, vs, f) \<Longrightarrow> kept w (w\<lparr>dbfile := f\<rparr>)"
  by (intro kept_dbfile) (auto dest!: rrd_read_frame simp: rrd_seek_def)

lemma kept_lookup_seasonal:
  "lookup_seasonal i start off buf w = Some (rc, buf', w') \<Longrightarrow> kept w w'"
  by (auto simp: lookup_seasonal_def Let_def intro: kept_read kept_trans [OF kept_read kept_error]
      split: bind_splits if_splits)

lemma kept_schedule:
  "(case do_schedule_smooth i e (db w) of (due, r) \<Rightarrow> Some (g due, w\<lparr>db := r\<rparr>)) = Some (p', w') \<Longrightarrow>
     kept w w'"
  by (auto intro: kept_do_schedule_smooth split: prod.splits)

lemma kept_seasonal_pass: "seasonal_pass i start e p w = Some (p', w') \<Longrightarrow> kept w w'"
  unfolding seasonal_pass_def
  by (auto split: if_splits bind_splits dest!: kept_lookup_seasonal kept_schedule intro: kept_trans)
     (blast intro: kept_trans)

lemma kept_cdp_prep_rra:
  assumes "cdp_prep_rra i start e proc temp p w = Some (ok, p', w')"
  shows "kept w w'"
proof -
  obtain cf w1 where cf: "cf_conv (cf_nam (rra_def (db w) ! i)) w = (cf, w1)" by fastforce
  have "kept w1 w'"
    using assms unfolding cdp_prep_rra_def cf
    by (auto simp: Let_def split: if_splits bind_splits prod.splits
        dest!: kept_update_cdp_prep kept_seasonal_pass intro: kept_trans)
  with kept_library(2) [OF cf] show ?thesis by (rule kept_trans)
qed

lemma kept_update_all_cdp_prep:
  "update_all_cdp_prep is start e proc temp p w = Some (ok, p', w') \<Longrightarrow> kept w w'"
proof (induction "is" arbitrary: start p w)
  case (Cons i "is")
  then show ?case
    by (auto split: option.splits prod.splits bool.splits dest!: kept_cdp_prep_rra intro: kept_trans)
qed simp

section \<open>Aberrant behaviour\<close>

lemmas scratch_only_updates = scratch_only_update_hwpredict scratch_only_update_seasonal
  scratch_only_update_devpredict scratch_only_update_devseasonal scratch_only_update_failures

lemma kept_with_model:
  assumes "with_model nm upd w = (rc, w')" "\<And>fs r rc r'. upd fs r = (rc, r') \<Longrightarrow> scratch_only r r'"
  shows "kept w w'"
proof -
  obtain cf w1 where cf: "cf_conv nm w = (cf, w1)" by fastforce
  have "kept w1 w'"
    using assms(1) unfolding with_model_def cf
    by (auto split: prod.splits option.splits cf_en.splits intro: kept_scratch assms(2))
  with kept_library(2) [OF cf] show ?thesis by (rule kept_trans)
qed

lemma kept_update_aberrant_CF:
  assumes "update_aberrant_CF v cf c i j k sc w = (rc, w')"
  shows "kept w w'"
proof -
  let ?r = "set_scratch c k v (db w)" let ?w = "w\<lparr>db := ?r\<rparr>"
  have base: "scratch_only (db w) ?r" by (intro kept_intros) simp
  have model: "kept w w'" if "with_model nm upd ?w = (rc, w')"
    "\<And>fs r rc r'. upd fs r = (rc, r') \<Longrightarrow> scratch_only r r'" for nm upd
    using kept_trans [OF kept_scratch [OF base] kept_with_model [OF that(1)]] that(2) by blast
  have plain: "kept w (w\<lparr>db := r\<rparr>)" if "scratch_only ?r r" for r
    by (rule kept_scratch [OF scratch_only_trans [OF base that]])
  show ?thesis
    using assms unfolding update_aberrant_CF_def Let_def
    by (auto split: option.splits cf_en.splits prod.splits elim!: model
        intro: plain kept_scratch [OF base] scratch_only_updates dest: scratch_only_updates)
qed

text \<open>The passes over data sources, archives and scratch cells.\<close>

lemma kept_aberrant_ds [kept_intros]: "kept w (aberrant_ds js i cf k temp s w)"
proof (induction js arbitrary: w)
  case (Cons j js)
  then show ?case
    by (cases "update_aberrant_CF (temp ! j) cf (cdp_index (db w) i j) i j k s w")
       (auto dest: kept_update_aberrant_CF intro: kept_trans)
qed simp

lemma kept_aberrant_rra:
  assumes "aberrant_rra i start e k temp p w = Some (ok, p', w')"
  shows "kept w w'"
proof -
  obtain cf w1 where cf: "cf_conv (cf_nam (rra_def (db w) ! i)) w = (cf, w1)" by fastforce
  have "kept w1 w2 \<Longrightarrow> kept w1 (aberrant_ds js i cf k temp s w2)" for w2 js s
    by (rule kept_trans [OF _ kept_aberrant_ds])
  then have "w' = w \<or> kept w1 w'"
    using assms unfolding aberrant_rra_def cf
    by (auto simp: Let_def kept_intros split: if_splits bind_splits prod.splits dest!: kept_lookup_seasonal)
  with kept_library(2) [OF cf] show ?thesis by (auto intro: kept_trans)
qed

lemma kept_aberrant_rras:
  "aberrant_rras is start e k temp p w = Some (ok, p', w') \<Longrightarrow> kept w w'"
proof (induction "is" arbitrary: start p w)
  case (Cons i "is")
  then show ?case
    by (auto split: option.splits prod.splits bool.splits dest!: kept_aberrant_rra intro: kept_trans)
qed simp

lemma kept_aberrant_passes:
  "aberrant_passes ks start e temp p w = Some (ok, p', w') \<Longrightarrow> kept w w'"
proof (induction ks arbitrary: p w)
  case (Cons k ks)
  then show ?case
    by (auto split: option.splits prod.splits bool.splits dest!: kept_aberrant_rras intro: kept_trans)
qed simp

lemma kept_update_aberrant_cdps:
  "update_aberrant_cdps start e temp p w = Some (ok, p', w') \<Longrightarrow> kept w w'"
  unfolding update_aberrant_cdps_def by (rule kept_aberrant_passes)

section \<open>The smoother\<close>

lemma scratch_only_add_baseline: "scratch_only r (add_baseline first bs j r)"
  by (induction bs arbitrary: j r) (auto intro: scratch_only_trans [OF scratch_only_set_scratch [OF scratch_only_refl]])

lemma kept_flush_cdp: "flush_cdp p w = Some w' \<Longrightarrow> kept w w'"
  by (auto simp: flush_cdp_def split: if_splits intro: kept_dbfile)

lemma kept_write_smoothed:
  assumes "write_smoothed start vs w = Some (rc, w')"
  shows "kept w w'"
proof -
  have "kept w (w\<lparr>dbfile := snd (rrd_seek (dbfile w) start SEEK_SET)\<rparr>)" (is "kept w ?w")
    by (intro kept_intros) simp
  moreover have "kept ?w w'"
    using assms unfolding write_smoothed_def
    by (auto split: bind_splits if_splits dest!: kept_write intro: kept_then_error)
  ultimately show ?thesis by (rule kept_trans)
qed

lemma kept_finish_smoother:
  assumes "finish_smoother i start vs base w = Some (rc, w')"
  shows "kept w w'"
proof -
  obtain cf w1 where cf: "cf_conv (cf_nam (rra_def (db w) ! i)) w = (cf, w1)" by fastforce
  let ?nm = "cf_nam (rra_def (db w1) ! hw_dep_idx (db w1) i)"
  obtain cf2 w2 where cf2: "cf_conv ?nm w1 = (cf2, w2)" by fastforce
  have w2: "db w2 = db w1" using more_db [OF more_cf_conv [OF cf2]] by simp
  have "kept w2 (w2\<lparr>db := add_baseline f base 0 (db w1)\<rparr>)" for f
    using scratch_only_add_baseline [of "db w2"] w2 by (intro kept_scratch) simp
  then have rebase: "kept w2 w'" if "flush_cdp p (w2\<lparr>db := add_baseline f base 0 (db w1)\<rparr>) = Some w3"
      "write_smoothed start vs' w3 = Some (rc, w')" for p f w3 vs'
    using that by (blast intro: kept_trans kept_flush_cdp kept_write_smoothed)
  have "kept w1 w' \<or> kept w2 w'"
    using assms unfolding finish_smoother_def cf
    by (auto simp: Let_def cf2 split: if_splits bind_splits option.splits cf_en.splits
        intro: rebase kept_write_smoothed kept_error)
  then show ?thesis using kept_library(2) [OF cf] kept_library(2) [OF cf2] by (auto intro: kept_trans)
qed

lemma read_known_frame:
  "read_known n f = Some (res, f') \<Longrightarrow> header_len f' = header_len f \<and> file_len f' = file_len f \<and> vals f' = vals f"
proof (induction n arbitrary: f res)
  case (Suc n)
  then show ?case by (auto split: option.splits list.splits if_splits dest!: rrd_read_frame)
qed simp

lemma kept_apply_smoother:
  assumes "apply_smoother i start w = Some (rc, w')"
  shows "kept w w'"
proof -
  have f: "kept w (w\<lparr>dbfile := f\<rparr>)" if "read_known n (snd (rrd_seek (dbfile w) start SEEK_SET)) = Some (res, f)"
    for n res f
    using read_known_frame [OF that] by (intro kept_dbfile) (auto simp: rrd_seek_def)
  show ?thesis
    using assms unfolding apply_smoother_def
    by (auto simp: Let_def split: if_splits option.splits bind_splits dest!: f kept_finish_smoother
        intro: kept_trans)
qed

lemma kept_smooth_rra:
  assumes "smooth_rra i start w = Some (ok, w')"
  shows "kept w w'"
proof -
  let ?nm = "cf_nam (rra_def (db w) ! i)"
  obtain cf w1 where cf: "cf_conv ?nm w = (cf, w1)" by fastforce
  obtain cf2 w2 where cf2: "(if cf = Some CF_DEVSEASONAL then (cf, w1) else cf_conv ?nm w1) = (cf2, w2)"
    by fastforce
  have "kept w1 w2" using cf2 by (auto split: if_splits intro: kept_library)
  with kept_library(2) [OF cf] have "kept w w2" by (rule kept_trans)
  moreover have "kept w2 w'"
    using assms unfolding smooth_rra_def Let_def cf
    by (auto simp: cf2 split: if_splits option.splits dest!: kept_apply_smoother)
  ultimately show ?thesis by (rule kept_trans)
qed

lemma kept_smooth_all_rras: "smooth_all_rras is start w = Some (ok, w') \<Longrightarrow> kept w w'"
proof (induction "is" arbitrary: start w)
  case (Cons i "is")
  then show ?case by (auto split: option.splits bool.splits dest!: kept_smooth_rra intro: kept_trans)
qed simp

section \<open>One argument\<close>

lemma kept_process_steps:
  assumes "process_steps env start t interval el pdp_new v w = Some (ok, v', w')"
  shows "kept w w'"
  using assms unfolding process_steps_def
  by (auto split: option.splits bool.splits prod.splits dest!: kept_process_all_pdp_st
      kept_update_all_cdp_prep kept_update_aberrant_cdps kept_write_to_rras)
     (blast intro: kept_trans)+

text \<open>The time of the last update is the only thing a successful argument changes beyond the
  frame, and only as the last step.\<close>

definition last_time :: "rrd_t \<Rightarrow> int \<times> int" where
  "last_time r = (last_up (live_head r), last_up_usec (live_head r))"

definition later :: "int \<times> int \<Rightarrow> int \<times> int \<Rightarrow> bool" where
  "later a b \<longleftrightarrow> fst a < fst b \<or> (fst a = fst b \<and> snd a < snd b)"

lemma later_trans [trans]: "later a b \<Longrightarrow> later b c \<Longrightarrow> later a c"
  by (auto simp: later_def)

text \<open>Database and frame, whatever the time of the last update.\<close>

definition framed :: "world \<Rightarrow> world \<Rightarrow> bool" where
  "framed w w' \<longleftrightarrow> (db_ok w \<longrightarrow> db_ok w') \<and> same_defs (db w) (db w') \<and>
     header_len (dbfile w') = header_len (dbfile w) \<and> file_len (dbfile w') = file_len (dbfile w)"

lemma framed_refl [simp, intro]: "framed w w"
  by (simp add: framed_def)

lemma framed_trans [trans]: "framed w w' \<Longrightarrow> framed w' w'' \<Longrightarrow> framed w w''"
  by (auto simp: framed_def intro: same_defs_trans)

lemma kept_framed: "kept w w' \<Longrightarrow> framed w w' \<and> last_time (db w') = last_time (db w)"
  by (simp add: kept_def framed_def last_time_def)

lemma framed_set_last_up: "framed w (set_last_up t us ver w)"
proof -
  let ?r = "db (set_last_up t us ver w)"
  have defs: "stat_head ?r = stat_head (db w)" "rra_def ?r = rra_def (db w)" "rra_ptr ?r = rra_ptr (db w)"
    "ds_def ?r = ds_def (db w)" and f: "dbfile (set_last_up t us ver w) = dbfile w"
    by (simp_all add: set_last_up_def Let_def)
  then have same: "same_defs (db w) ?r" by (simp add: same_defs_def)
  have "wf_rrd (db w) \<Longrightarrow> wf_rrd ?r"
    by (simp add: set_last_up_def Let_def wf_live_head_update wf_legacy_update)
  then show ?thesis
    using same by (simp add: framed_def db_ok_def wf_file_def wf_rows_def defs f rra_base_defs [OF same])
qed

lemma last_time_set_last_up [simp]: "last_time (db (set_last_up t us ver w)) = (t, sint us)"
  by (simp add: set_last_up_def Let_def last_time_def)

lemma get_time_later:
  "get_time_from_reading tz r ch txt ver c = (Some (t, us), c') \<Longrightarrow> later (last_time r) (t, sint us)"
  by (auto simp: get_time_from_reading_def Let_def last_time_def later_def
      split: option.splits prod.splits if_splits)

lemma parse_ds_later:
  "parse_ds tz r tmpl a ver c = Some (Some (uv, t, us), c') \<Longrightarrow> later (last_time r) (t, sint us)"
  by (auto simp: parse_ds_def dest: get_time_later split: prod.splits option.splits if_splits sum.splits)

lemma process_arg_cases:
  assumes "process_arg env tmpl start ver a v w = Some (ok, v', w')"
  obtains (rejected) "\<not> ok" "kept w w'"
  | (accepted) w3 t us where "ok" "kept w w3" "w' = set_last_up t us ver w3"
      "later (last_time (db w)) (t, sint us)"
proof -
  obtain res w1 where ds: "parse_ds (env_zone env) (db w) tmpl a ver w = Some (res, w1)"
    using assms by (auto simp: process_arg_def split: option.splits)
  note k1 = kept_library(5) [OF ds]
  show thesis
  proof (cases res)
    case None
    then show ?thesis using assms ds k1 rejected by (auto simp: process_arg_def)
  next
    case (Some x)
    obtain uv t us where x: "res = Some (uv, t, us)" using Some by (cases x) auto
    let ?interval = "update_interval (db w1) t us"
    obtain pdp w2 where pdp: "update_pdp_prep [0..<n_ds (db w1)] uv ?interval w1 = Some (pdp, w2)"
      using assms by (auto simp: process_arg_def ds x Let_def split: option.splits)
    have k2: "kept w w2" using k1 kept_update_pdp_prep [OF pdp] by (rule kept_trans)
    show ?thesis
    proof (cases pdp)
      case None
      then show ?thesis using assms k2 rejected by (auto simp: process_arg_def ds x pdp)
    next
      case pdp': (Some pdp_new)
      obtain w3 where k3: "kept w w3" and w': "w' = (if ok then set_last_up t us ver w3 else w3)"
        using assms k2
        by (auto simp: process_arg_def ds x pdp pdp' Let_def split: option.splits if_splits bool.splits
            dest!: kept_process_steps)
           (blast intro: kept_trans kept_simple_update)+
      then show ?thesis
        using rejected accepted parse_ds_later [OF ds [unfolded x]] by (cases ok) auto
    qed
  qed
qed

lemma process_arg_frame:
  assumes "process_arg env tmpl start ver a v w = Some (ok, v', w')"
  shows "framed w w'"
    and "ok \<Longrightarrow> later (last_time (db w)) (last_time (db w'))"
    and "\<not> ok \<Longrightarrow> last_time (db w') = last_time (db w)"
  using assms
  by (auto elim!: process_arg_cases dest!: kept_framed intro: framed_trans [OF _ framed_set_last_up])

section \<open>All arguments\<close>

text \<open>The arguments that are accepted one after the other, and the states they lead through.\<close>

inductive accepts ::
  "rpn_env \<Rightarrow> nat list \<Rightarrow> nat \<Rightarrow> int \<Rightarrow> upd_vars \<Rightarrow> world \<Rightarrow> string list \<Rightarrow> upd_vars \<Rightarrow> world \<Rightarrow> bool"
  for env tmpl start ver where
  accepts_none: "accepts env tmpl start ver v w [] v w"
| accepts_more: "process_arg env tmpl start ver a v w = Some (True, v1, w1) \<Longrightarrow>
     accepts env tmpl start ver v1 w1 as v2 w2 \<Longrightarrow> accepts env tmpl start ver v w (a # as) v2 w2"

inductive_cases accepts_ConsE: "accepts env tmpl start ver v w (a # as) v2 w2"

lemma accepts_frame:
  "accepts env tmpl start ver v w as v' w' \<Longrightarrow>
     framed w w' \<and> (as = [] \<or> later (last_time (db w)) (last_time (db w'))) \<and> (as = [] \<longrightarrow> w' = w)"
proof (induction rule: accepts.induct)
  case (accepts_more a v w v1 w1 as v2 w2)
  note fr = process_arg_frame [OF accepts_more.hyps(1)]
  show ?case using accepts_more.IH fr by (cases as) (auto intro: framed_trans later_trans)
qed simp

text \<open>The loop processes the longest run of accepted arguments; the one behind it fails.\<close>

lemma process_args_run:
  "process_args env fn tmpl start ver as v w = Some (v', w') \<Longrightarrow>
     accepts env tmpl start ver v w as v' w' \<or>
     (\<exists>pre a post v1 w1 w2. as = pre @ a # post \<and> accepts env tmpl start ver v w pre v1 w1 \<and>
        process_arg env tmpl start ver a v1 w1 = Some (False, v', w2) \<and>
        w' = (if rrd_test_error w2 then rrd_set_error (fn @ '': '' @ rrd_error w2) w2 else w2))"
proof (induction as arbitrary: v w)
  case (Cons a as)
  obtain ok v1 w1 where a: "process_arg env tmpl start ver a v w = Some (ok, v1, w1)"
    using Cons.prems by (auto split: option.splits)
  show ?case
  proof (cases ok)
    case True
    with Cons.prems a have "process_args env fn tmpl start ver as v1 w1 = Some (v', w')" by simp
    from Cons.IH [OF this] show ?thesis
    proof (elim disjE exE conjE)
      assume "accepts env tmpl start ver v1 w1 as v' w'"
      with a True show ?thesis by (auto intro: accepts_more)
    next
      fix pre b post v2 w2 w3
      assume "as = pre @ b # post" "accepts env tmpl start ver v1 w1 pre v2 w2"
        "process_arg env tmpl start ver b v2 w2 = Some (False, v', w3)"
        "w' = (if rrd_test_error w3 then rrd_set_error (fn @ '': '' @ rrd_error w3) w3 else w3)"
      then show ?thesis
        using accepts_more [of env tmpl start ver a v w v1 w1] a True
        by (intro disjI2 exI [of _ "a # pre"] exI [of _ b] exI [of _ post] exI [of _ v2] exI [of _ w2]
            exI [of _ w3]) simp
    qed
  next
    case False
    with Cons.prems a show ?thesis
      by (intro disjI2 exI [of _ "[]"] exI [of _ a] exI [of _ as] exI [of _ v] exI [of _ w] exI [of _ w1])
         (auto intro: accepts_none)
  qed
qed (simp add: accepts_none)

lemma process_args_frame:
  assumes "process_args env fn tmpl start ver as v w = Some (v', w')"
  shows "framed w w'" "last_time (db w') = last_time (db w) \<or> later (last_time (db w)) (last_time (db w'))"
proof -
  have msg: "framed u (if rrd_test_error u then rrd_set_error m u else u) \<and>
      last_time (db (if rrd_test_error u then rrd_set_error m u else u)) = last_time (db u)" for u m
    using kept_framed [OF kept_error [of u m]] by simp
  have "framed w w' \<and> (last_time (db w') = last_time (db w) \<or> later (last_time (db w)) (last_time (db w')))"
    using process_args_run [OF assms]
  proof (elim disjE exE conjE)
    assume "accepts env tmpl start ver v w as v' w'"
    from accepts_frame [OF this] show ?thesis by auto
  next
    fix pre a post v1 w1 w2
    assume "accepts env tmpl start ver v w pre v1 w1"
      and a: "process_arg env tmpl start ver a v1 w1 = Some (False, v', w2)"
      and w': "w' = (if rrd_test_error w2 then rrd_set_error (fn @ '': '' @ rrd_error w2) w2 else w2)"
    from accepts_frame [OF this(1)] have "framed w w1" "w1 = w \<or> later (last_time (db w)) (last_time (db w1))"
      by auto
    then show ?thesis
      unfolding w' using msg [of w2 "fn @ '': '' @ rrd_error w2"] process_arg_frame [OF a]
      by (auto intro: framed_trans)
  qed
  then show "framed w w'" "last_time (db w') = last_time (db w) \<or> later (last_time (db w)) (last_time (db w'))"
    by auto
qed

lemma update_open_db_frame:
  assumes "update_open_db env locked fn tmplt args sm w = Some (rc, sm', w')"
  shows "framed w w'" "last_time (db w') = last_time (db w) \<or> later (last_time (db w)) (last_time (db w'))"
proof -
  let ?ver = "atoi (version (stat_head (db w)))"
  obtain t w1 where t: "initialize_time ?ver w = (t, w1)" by fastforce
  obtain tm w2 where tm: "allocate_data_structures (db w1) tmplt w1 = (tm, w2)" by fastforce
  have k1: "kept w w1" and k2: "kept w w2"
    using kept_library(3) [OF t] kept_trans [OF kept_library(3) [OF t] kept_library(6) [OF tm]] by auto
  have same: "framed w u \<and> last_time (db u) = last_time (db w)" if "kept w u" for u
    using kept_framed [OF that] .
  have run: "framed w u \<and> (last_time (db u) = last_time (db w) \<or> later (last_time (db w)) (last_time (db u)))"
    if "process_args env fn tmpl start ver args v w2 = Some (v', u')" "kept u' u" for tmpl start ver v v' u' u
    using process_args_frame [OF that(1)] same [OF k2] kept_framed [OF that(2)]
    by (auto intro: framed_trans)
  have "framed w w' \<and> (last_time (db w') = last_time (db w) \<or> later (last_time (db w)) (last_time (db w')))"
    using assms same [OF k2] same [OF kept_then_error [OF k1]]
    by (auto simp: update_open_db_def t tm Let_def split: if_splits option.splits prod.splits
        dest: run [OF _ kept_refl] run [OF _ kept_smooth_all_rras])
  then show "framed w w'" "last_time (db w') = last_time (db w) \<or> later (last_time (db w)) (last_time (db w'))"
    by auto
qed

end
