(* ===== verification/Double_Int.thy ===== *)
theory Double_Int
  imports Double_Order
begin

text \<open>
  Integers below \<open>2 ^ 53\<close> are exact in a double: their conversion keeps the value, sums,
  differences and products of such values are the correctly rounded integers, the comparisons are
  the integer ones, and the conversions back return the integer.
\<close>

section \<open>Lengths\<close>

lemma bit_len_pos: "0 < n \<Longrightarrow> 0 < bit_len n"
proof (induction n rule: bit_len.induct)
  case (1 n)
  show ?case
  proof (cases "n div 2 = 0")
    case True
    with 1 show ?thesis by (simp add: bit_len.simps [of n] bit_len.simps [of 0])
  next
    case False
    with "1.prems" have "0 < n div 2" by linarith
    with 1 have "0 < bit_len (n div 2)" by simp
    with "1.prems" show ?thesis by (simp add: bit_len.simps [of n])
  qed
qed

lemma bit_len_bounds: "0 < n \<Longrightarrow> 2 ^ (nat (bit_len n) - 1) \<le> n \<and> n < 2 ^ nat (bit_len n)"
proof (induction n rule: bit_len.induct)
  case (1 n)
  show ?case
  proof (cases "n = 1")
    case True
    then show ?thesis by (simp add: bit_len.simps [of 1] bit_len.simps [of 0])
  next
    case False
    with "1.prems" have h: "0 < n div 2" by simp
    then have l: "0 < bit_len (n div 2)" by (rule bit_len_pos)
    have b: "bit_len n = 1 + bit_len (n div 2)" using "1.prems" by (simp add: bit_len.simps [of n])
    from "1.IH" [OF _ h] "1.prems"
    have ih: "2 ^ (nat (bit_len (n div 2)) - 1) \<le> n div 2" "n div 2 < 2 ^ nat (bit_len (n div 2))" by auto
    have "nat (bit_len n) = Suc (nat (bit_len (n div 2)))" using b l by (simp add: nat_add_distrib)
    moreover have "(2 :: int) ^ nat (bit_len (n div 2)) = 2 * 2 ^ (nat (bit_len (n div 2)) - 1)"
      using l by (simp add: power_eq_if)
    moreover have "2 * (n div 2) \<le> n" "n \<le> 2 * (n div 2) + 1" by simp_all
    ultimately show ?thesis using ih by (simp only: power_Suc diff_Suc_1) linarith
  qed
qed

lemma bit_len_double: "0 < n \<Longrightarrow> bit_len (2 * n) = bit_len n + 1"
  by (simp add: bit_len.simps [of "2 * n"])

lemma bit_len_shift: "0 < n \<Longrightarrow> bit_len (n * 2 ^ t) = bit_len n + int t"
proof (induction t)
  case (Suc t)
  have "bit_len (n * 2 ^ Suc t) = bit_len (2 * (n * 2 ^ t))" by (simp add: ac_simps)
  also have "\<dots> = bit_len (n * 2 ^ t) + 1" using Suc.prems by (intro bit_len_double) simp
  finally show ?case using Suc by simp
qed simp

lemma bit_len_one: "bit_len 1 = 1"
  by (simp add: bit_len.simps [of 1] bit_len.simps [of 0])

lemma bit_len_le: "0 < n \<Longrightarrow> n < 2 ^ k \<Longrightarrow> bit_len n \<le> int k"
proof (rule ccontr)
  assume n: "0 < n" "n < 2 ^ k" "\<not> bit_len n \<le> int k"
  then have "(2 :: int) ^ k \<le> 2 ^ (nat (bit_len n) - 1)" by (intro power_increasing) auto
  with bit_len_bounds [OF n(1)] n(2) show False by linarith
qed

section \<open>Rounding of integers\<close>

lemma round_half_even_scale: "0 < c \<Longrightarrow> 0 < d \<Longrightarrow> round_half_even (n * c) (d * c) = round_half_even n d"
proof -
  assume c: "0 < c" "0 < d"
  have "n * c div (d * c) = n div d" "n * c mod (d * c) = (n mod d) * c"
    using c by (simp_all add: mult_mod_left)
  moreover have "2 * (n mod d * c) > d * c \<longleftrightarrow> 2 * (n mod d) > d" "2 * (n mod d * c) = d * c \<longleftrightarrow> 2 * (n mod d) = d"
    using c by (metis mult.assoc mult_less_cancel_right_pos, metis mult.assoc mult_cancel_right less_irrefl)
  ultimately show ?thesis by (simp only: round_half_even_def Let_def)
qed

lemma round_half_even_one [simp]: "round_half_even n 1 = n"
  by (simp add: round_half_even_def)

text \<open>The unit in the last place of a positive integer.\<close>

definition ulp_exp :: "int \<Rightarrow> int \<Rightarrow> int" where
  "ulp_exp n e = max (- 1074) (bit_len n - 1 + e - 52)"

lemma round_to_int:
  assumes "0 < n"
  shows "round_to 53 (- 1074) n 1 e =
    (round_half_even (n * scale_num (e - ulp_exp n e)) (scale_num (ulp_exp n e - e)), ulp_exp n e)"
proof -
  have "scale_num (bit_len n - 1) = 2 ^ (nat (bit_len n) - 1)" "scale_num (1 - bit_len n) = 1"
    using bit_len_pos [OF assms] by (simp_all add: scale_num_def nat_diff_distrib)
  then have "scale_num (bit_len n - 1) \<le> n * scale_num (1 - bit_len n)"
    using bit_len_bounds [OF assms] by simp
  then show ?thesis by (simp add: round_to_def Let_def bit_len_one ulp_exp_def)
qed

lemma round_mag_int:
  assumes "0 < n"
  shows "round_mag n 1 e = min inf_mag ((ulp_exp n e + 1074) * 2 ^ 52 +
    round_half_even (n * scale_num (e - ulp_exp n e)) (scale_num (ulp_exp n e - e)))"
  using assms by (simp add: round_mag_def round_to_int)

lemma scale_num_add: "0 \<le> a \<Longrightarrow> 0 \<le> b \<Longrightarrow> scale_num (a + b) = scale_num a * scale_num b"
  by (simp add: scale_num_def nat_add_distrib power_add)

text \<open>Rounding only depends on the value.\<close>

lemma round_mag_shift: "round_mag (n * 2 ^ t) 1 (e - int t) = round_mag n 1 e"
proof (cases "0 < n")
  case True
  let ?u = "ulp_exp n e"
  have u: "ulp_exp (n * 2 ^ t) (e - int t) = ?u" using True by (simp add: ulp_exp_def bit_len_shift)
  have t: "2 ^ t = scale_num (int t)" by (simp add: scale_num_def)
  have "round_half_even (n * 2 ^ t * scale_num (e - int t - ?u)) (scale_num (?u - (e - int t))) =
      round_half_even (n * scale_num (e - ?u)) (scale_num (?u - e))"
  proof -
    consider "?u \<le> e - int t" | "e - int t < ?u" "?u \<le> e" | "e < ?u" by linarith
    then show ?thesis
    proof cases
      case 1
      have "scale_num (e - ?u) = scale_num (int t) * scale_num (e - int t - ?u)"
        using 1 by (subst scale_num_add [symmetric]) simp_all
      moreover have "scale_num (?u - (e - int t)) = 1" "scale_num (?u - e) = 1"
        using 1 by (simp_all add: scale_num_def)
      ultimately show ?thesis by (simp only: t mult.assoc)
    next
      case 2
      have "scale_num (int t) = scale_num (e - ?u) * scale_num (?u - (e - int t))"
        using 2 by (subst scale_num_add [symmetric]) simp_all
      moreover have "scale_num (e - int t - ?u) = 1" "scale_num (?u - e) = 1"
        using 2 by (simp_all add: scale_num_def)
      ultimately show ?thesis
        using round_half_even_scale [of "scale_num (?u - (e - int t))" 1 "n * scale_num (e - ?u)"]
        by (simp add: t mult.assoc)
    next
      case 3
      have "scale_num (?u - (e - int t)) = scale_num (?u - e) * scale_num (int t)"
        using 3 by (subst scale_num_add [symmetric]) (simp_all add: algebra_simps)
      moreover have "scale_num (e - int t - ?u) = 1" "scale_num (e - ?u) = 1"
        using 3 by (simp_all add: scale_num_def)
      ultimately show ?thesis
        using round_half_even_scale [of "scale_num (int t)" "scale_num (?u - e)" n] by (simp add: t)
    qed
  qed
  then show ?thesis using True by (simp add: round_mag_int u)
next
  case False
  then have "n * 2 ^ t \<le> 0" by (simp add: mult_le_0_iff)
  with False show ?thesis by (simp add: round_mag_def)
qed


section \<open>Exact integers\<close>

definition small_int :: "int \<Rightarrow> bool" where
  "small_int i \<longleftrightarrow> \<bar>i\<bar> < 2 ^ 53"

text \<open>The significand and the exponent of a converted integer.\<close>

lemma sig_exp_round:
  assumes "0 < n" "n < 2 ^ 53"
  shows "sig_exp (round_mag n 1 0) = (n * 2 ^ nat (- ulp_exp n 0), ulp_exp n 0)"
    and "- 52 \<le> ulp_exp n 0" "ulp_exp n 0 \<le> 0" "round_mag n 1 0 < inf_mag"
proof -
  let ?u = "ulp_exp n 0" and ?m = "n * 2 ^ nat (- ulp_exp n 0)"
  have l: "0 < bit_len n" "bit_len n \<le> 53" using bit_len_pos bit_len_le [of n 53] assms by auto
  then have u: "?u = bit_len n - 53" by (simp add: ulp_exp_def)
  then show u0: "- 52 \<le> ?u" "?u \<le> 0" using l by simp_all
  have b: "2 ^ (nat (bit_len n) - 1) \<le> n" "n < 2 ^ nat (bit_len n)"
    using bit_len_bounds [OF assms(1)] by auto
  have e: "nat (bit_len n) - 1 + nat (- ?u) = 52" "nat (bit_len n) + nat (- ?u) = 53" using l u by auto
  have m: "2 ^ 52 \<le> ?m" "?m < 2 ^ 53"
    using mult_right_mono [OF b(1), of "2 ^ nat (- ?u)"] mult_strict_right_mono [OF b(2), of "2 ^ nat (- ?u)"]
    by (simp_all only: power_add [symmetric] e) simp_all
  have r: "(?u + 1074) * 2 ^ 52 + ?m = (?u + 1075) * 2 ^ 52 + (?m - 2 ^ 52)" by simp
  have lt: "(?u + 1074) * 2 ^ 52 + ?m < inf_mag"
    using m(2) u0 by (simp add: inf_mag_def)
  have sc: "scale_num (0 - ?u) = 2 ^ nat (- ?u)" "scale_num (?u - 0) = 1"
    using u0 by (auto simp: scale_num_def)
  have rm: "round_mag n 1 0 = (?u + 1075) * 2 ^ 52 + (?m - 2 ^ 52)"
    unfolding round_mag_int [OF assms(1)] sc
    by (simp only: round_half_even_one r min_absorb2 [OF less_imp_le [OF lt [unfolded r]]])
  then show "round_mag n 1 0 < inf_mag" using lt r by simp
  have dm: "(a * 2 ^ 52 + b) div 2 ^ 52 = a" "(a * 2 ^ 52 + b) mod 2 ^ 52 = b"
    if "0 \<le> b" "b < 2 ^ 52" for a b :: int using that by simp_all
  have m': "0 \<le> ?m - 2 ^ 52" "?m - 2 ^ 52 < 2 ^ 52" using m by simp_all
  have "(?u + 1075) * 2 ^ 52 + (?m - 2 ^ 52) \<ge> 2 ^ 52" using m u0 by simp
  moreover have "((?u + 1075) * 2 ^ 52 + (?m - 2 ^ 52)) div 2 ^ 52 = ?u + 1075"
    "((?u + 1075) * 2 ^ 52 + (?m - 2 ^ 52)) mod 2 ^ 52 = ?m - 2 ^ 52"
    by (rule dm [OF m'])+
  ultimately show "sig_exp (round_mag n 1 0) = (?m, ?u)"
    by (simp add: rm sig_exp_def)
qed

lemma mag_dbl_of_int: "mag (dbl_of_int i) = round_mag \<bar>i\<bar> 1 0"
proof -
  have "0 \<le> round_mag \<bar>i\<bar> 1 0"
    using round_mag_pos [of "\<bar>i\<bar>" 0] by (cases "i = 0") simp_all
  then show ?thesis using round_mag_le [of "\<bar>i\<bar>" 1 0] by (simp add: dbl_of_int_def mag_mk_dbl_small)
qed

lemma sign_dbl_of_int [simp]: "sign_of (dbl_of_int i) \<longleftrightarrow> i < 0"
  by (simp add: dbl_of_int_def)

text \<open>A double that is exactly an integer, with an exponent that is not positive.\<close>

lemma dbl_of_int_parts:
  assumes "small_int i"
  shows "signed_sig (dbl_of_int i) = i * 2 ^ nat (- exp_of (dbl_of_int i))"
    and "exp_of (dbl_of_int i) \<le> 0" "\<not> isnan (dbl_of_int i)" "\<not> isinf (dbl_of_int i)"
    and "fst (sig_exp (mag (dbl_of_int i))) = \<bar>i\<bar> * 2 ^ nat (- exp_of (dbl_of_int i))"
proof -
  have "signed_sig (dbl_of_int i) = i * 2 ^ nat (- exp_of (dbl_of_int i)) \<and>
    exp_of (dbl_of_int i) \<le> 0 \<and> \<not> isnan (dbl_of_int i) \<and> \<not> isinf (dbl_of_int i) \<and>
    fst (sig_exp (mag (dbl_of_int i))) = \<bar>i\<bar> * 2 ^ nat (- exp_of (dbl_of_int i))"
  proof (cases "i = 0")
    case True
    then show ?thesis
      by (simp add: signed_sig_def exp_of_def mag_dbl_of_int sig_exp_def isnan_def isinf_def inf_mag_def)
  next
    case False
    then have n: "0 < \<bar>i\<bar>" "\<bar>i\<bar> < 2 ^ 53" using assms by (simp_all add: small_int_def)
    show ?thesis
      using sig_exp_round [OF n]
      by (auto simp: signed_sig_def exp_of_def mag_dbl_of_int isnan_def isinf_def)
  qed
  then show "signed_sig (dbl_of_int i) = i * 2 ^ nat (- exp_of (dbl_of_int i))"
    "exp_of (dbl_of_int i) \<le> 0" "\<not> isnan (dbl_of_int i)" "\<not> isinf (dbl_of_int i)"
    "fst (sig_exp (mag (dbl_of_int i))) = \<bar>i\<bar> * 2 ^ nat (- exp_of (dbl_of_int i))" by blast+
qed

lemma round_signed_int: "i \<noteq> 0 \<or> \<not> z \<Longrightarrow> round_signed z (i * 2 ^ t) (- int t) = dbl_of_int i"
  using round_mag_shift [of "\<bar>i\<bar>" t 0]
  by (auto simp: round_signed_def dbl_of_int_def abs_mult mult_less_0_iff)

text \<open>Addition is the correctly rounded sum of the integers.\<close>

lemma fadd_int:
  assumes "small_int i" "small_int j"
  shows "fadd (dbl_of_int i) (dbl_of_int j) = dbl_of_int (i + j)"
proof -
  note x = dbl_of_int_parts [OF assms(1)] and y = dbl_of_int_parts [OF assms(2)]
  let ?ex = "exp_of (dbl_of_int i)" and ?ey = "exp_of (dbl_of_int j)"
  let ?e = "min ?ex ?ey" let ?t = "nat (- ?e)"
  have t: "int ?t = - ?e" "nat (- ?ex) + nat (?ex - ?e) = ?t" "nat (- ?ey) + nat (?ey - ?e) = ?t"
    using x(2) y(2) by auto
  have "signed_sig (dbl_of_int i) * scale_num (?ex - ?e) = i * 2 ^ ?t"
    "signed_sig (dbl_of_int j) * scale_num (?ey - ?e) = j * 2 ^ ?t"
    unfolding x(1) y(1) mult.assoc by (simp_all add: scale_num_def power_add [symmetric] t)
  moreover have "?e = - int ?t" using t(1) by simp
  ultimately have "fadd (dbl_of_int i) (dbl_of_int j) =
      round_signed (i < 0 \<and> j < 0) ((i + j) * 2 ^ ?t) (- int ?t)"
    using x(3,4) y(3,4) by (simp only: fadd_def Let_def distrib_right sign_dbl_of_int if_False simp_thms)
  also have "\<dots> = dbl_of_int (i + j)" by (rule round_signed_int) auto
  finally show ?thesis .
qed


lemma fneg_int: "i \<noteq> 0 \<Longrightarrow> fneg (dbl_of_int i) = dbl_of_int (- i)"
  unfolding fneg_def mag_dbl_of_int sign_dbl_of_int by (cases "i < 0") (simp_all add: dbl_of_int_def)

lemma small_int_neg: "small_int i \<Longrightarrow> small_int (- i)"
  by (simp add: small_int_def)

lemma dbl_of_int_0: "dbl_of_int 0 = 0"
  by (simp add: dbl_of_int_def mk_dbl_def)

lemma exp_sig_zero: "exp_of (fneg 0) = - 1074" "signed_sig (fneg 0) = 0" "sign_of (fneg 0)"
    "\<not> isnan (fneg 0)" "\<not> isinf (fneg 0)"
proof -
  have "mag 0 = 0" "\<not> sign_of 0" by (simp_all add: mag_def sign_of_def)
  then show "exp_of (fneg 0) = - 1074" "signed_sig (fneg 0) = 0" "sign_of (fneg 0)"
    "\<not> isnan (fneg 0)" "\<not> isinf (fneg 0)"
    by (simp_all add: exp_of_def signed_sig_def sig_exp_def isinf_def inf_mag_def)
qed

lemma fsub_int:
  assumes "small_int i" "small_int j"
  shows "fsub (dbl_of_int i) (dbl_of_int j) = dbl_of_int (i - j)"
proof (cases "j = 0")
  case False
  then have "fsub (dbl_of_int i) (dbl_of_int j) = fadd (dbl_of_int i) (dbl_of_int (- j))"
    using dbl_of_int_parts(3) [OF assms(2)] by (simp add: fsub_def fneg_int)
  then show ?thesis using fadd_int [OF assms(1) small_int_neg [OF assms(2)]] by simp
next
  case True
  note x = dbl_of_int_parts [OF assms(1)]
  let ?ex = "exp_of (dbl_of_int i)"
  have "- 1074 \<le> ?ex" by (rule exp_of_ge)
  then have m: "min ?ex (- 1074) = - int 1074" "nat (- ?ex) + nat (?ex + 1074) = 1074" using x(2) by auto
  then have s: "signed_sig (dbl_of_int i) * scale_num (?ex - - int 1074) = i * 2 ^ 1074"
    unfolding x(1) mult.assoc using \<open>- 1074 \<le> ?ex\<close> by (simp add: scale_num_def power_add [symmetric])
  have "fsub (dbl_of_int i) 0 = round_signed (i < 0) (i * 2 ^ 1074) (- int 1074)"
    using x(3,4) exp_sig_zero by (simp only: fsub_def fadd_def Let_def m s isnan_zero if_False) simp
  also have "\<dots> = dbl_of_int i" by (rule round_signed_int) auto
  finally show ?thesis using True by (simp add: dbl_of_int_0)
qed

text \<open>The order is the order of the integers.\<close>

lemma flt_int:
  assumes "small_int i" "small_int j"
  shows "flt (dbl_of_int i) (dbl_of_int j) \<longleftrightarrow> i < j"
proof -
  have n: "\<not> isnan (dbl_of_int i)" "\<not> isnan (dbl_of_int j)" using assms dbl_of_int_parts(3) by auto
  have k: "key (dbl_of_int k) < 0 \<longleftrightarrow> k < 0" for k
    using key_round_signed(2) [of 0 False k] by (cases "k = 0") (simp_all add: round_signed_def dbl_of_int_def mk_dbl_def)
  have "\<not> isnan (dbl_of_int (i - j))"
    using key_round_signed(1) [of 0 False "i - j"]
    by (cases "i = j") (simp_all add: round_signed_def dbl_of_int_def mk_dbl_def)
  then have "flt (dbl_of_int (i - j)) 0 \<longleftrightarrow> i < j" using k [of "i - j"] by (simp add: flt_def)
  with fsub_sign(1) [OF n] fsub_int [OF assms] show ?thesis by simp
qed

lemma fle_int:
  assumes "small_int i" "small_int j"
  shows "fle (dbl_of_int i) (dbl_of_int j) \<longleftrightarrow> i \<le> j"
  using flt_int [OF assms(2,1)] flt_not_fle [of "dbl_of_int j" "dbl_of_int i"] assms dbl_of_int_parts(3)
  by auto

text \<open>The conversions back.\<close>

lemma trunc_dbl_of_int: "small_int i \<Longrightarrow> trunc_int (dbl_of_int i) = i"
proof -
  assume i: "small_int i"
  note x = dbl_of_int_parts [OF i]
  have s: "scale_num (- exp_of (dbl_of_int i)) = 2 ^ nat (- exp_of (dbl_of_int i))"
    "scale_num (exp_of (dbl_of_int i)) = 1" using x(2) by (auto simp: scale_num_def)
  have "\<bar>i\<bar> * 2 ^ nat (- exp_of (dbl_of_int i)) div 2 ^ nat (- exp_of (dbl_of_int i)) = \<bar>i\<bar>"
    by (rule nonzero_mult_div_cancel_right) simp
  then show ?thesis by (simp only: trunc_int_def Let_def x(5) s sign_dbl_of_int mult_1_right) simp
qed

lemma floor_dbl_of_int: "small_int i \<Longrightarrow> floor_int (dbl_of_int i) = i"
proof -
  assume i: "small_int i"
  note x = dbl_of_int_parts [OF i]
  have s: "scale_num (- exp_of (dbl_of_int i)) = 2 ^ nat (- exp_of (dbl_of_int i))"
    "scale_num (exp_of (dbl_of_int i)) = 1" using x(2) by (auto simp: scale_num_def)
  show ?thesis unfolding floor_int_def x(1) s by simp
qed

lemma ffloor_dbl_of_int: "small_int i \<Longrightarrow> ffloor (dbl_of_int i) = dbl_of_int i"
  using dbl_of_int_parts(3,4) [of i] floor_dbl_of_int [of i] round_signed_int [of i "i < 0" 0]
  by (simp add: ffloor_def)

lemma isfinite_dbl_of_int: "small_int i \<Longrightarrow> isfinite (dbl_of_int i)"
  using dbl_of_int_parts(3,4) [of i] by (simp add: isfinite_def isnan_def isinf_def)

lemma dbl_to_int_of_int: "small_int i \<Longrightarrow> - (2 ^ 31) \<le> i \<Longrightarrow> i < 2 ^ 31 \<Longrightarrow> dbl_to_int (dbl_of_int i) = i"
  by (simp add: dbl_to_int_def dbl_to_sint_def trunc_dbl_of_int isfinite_dbl_of_int)

lemma dbl_to_long_of_int: "small_int i \<Longrightarrow> dbl_to_long (dbl_of_int i) = i"
  by (auto simp: dbl_to_long_def dbl_to_sint_def trunc_dbl_of_int isfinite_dbl_of_int small_int_def)


section \<open>Neutral elements\<close>

text \<open>Rounding the value of a double gives the double.\<close>

lemma round_mag_sig:
  assumes "0 < b" "b < inf_mag" "sig_exp b = (s, e)"
  shows "round_mag s 1 e = b"
proof (cases "b < 2 ^ 52")
  case True
  then have se: "s = b" "e = - 1074" using assms(3) by (simp_all add: sig_exp_def)
  have "bit_len b \<le> 52" using bit_len_le [OF assms(1), of 52] True by simp
  then have "ulp_exp s e = - 1074" by (simp add: ulp_exp_def se)
  then show ?thesis using assms(1,2) by (simp add: round_mag_int se scale_num_def)
next
  case False
  then have se: "s = 2 ^ 52 + b mod 2 ^ 52" "e = b div 2 ^ 52 - 1075" using assms(3) by (simp_all add: sig_exp_def)
  have s: "0 < s" "2 ^ 52 \<le> s" "s < 2 ^ 53" using se(1) by (auto simp: add_pos_nonneg)
  have "(2::int) ^ 52 < 2 ^ nat (bit_len s)" using bit_len_bounds [OF s(1)] s(2) by linarith
  then have "52 < nat (bit_len s)" by (simp only: power_strict_increasing_iff)
  then have l: "bit_len s = 53" using bit_len_le [OF s(1), of 53] s(3) by simp
  have "1 \<le> b div 2 ^ 52" using False by (simp add: zdiv_mono1 [of "2 ^ 52" b "2 ^ 52", simplified])
  then have u: "ulp_exp s e = e" by (simp add: ulp_exp_def l se(2))
  have "(e + 1074) * 2 ^ 52 + s = b" unfolding se by (simp add: left_diff_distrib distrib_right)
  then show ?thesis using s(1) assms(2) by (simp add: round_mag_int u scale_num_def)
qed

lemma finite_mag: "\<not> isnan x \<Longrightarrow> \<not> isinf x \<Longrightarrow> mag x < inf_mag"
  by (simp add: isnan_def isinf_def)

lemma round_mag_of_mag: "\<not> isnan x \<Longrightarrow> \<not> isinf x \<Longrightarrow> mag x \<noteq> 0 \<Longrightarrow>
    round_mag (fst (sig_exp (mag x))) 1 (exp_of x) = mag x"
  using round_mag_sig [of "mag x"] mag_nonneg [of x] finite_mag [of x]
  by (cases "sig_exp (mag x)") (auto simp: exp_of_def)

lemma dbl_one: "dbl_of_ulong 1 = dbl_of_int 1" "sig_exp (mag (dbl_of_int 1)) = (2 ^ 52, - 52)"
  using sig_exp_round(1) [of 1] by (simp_all add: dbl_of_ulong_def mag_dbl_of_int ulp_exp_def bit_len_one)

lemma fmul_one: "\<not> isnan x \<Longrightarrow> fmul x (dbl_of_int 1) = x"
proof -
  assume x: "\<not> isnan x"
  have one: "\<not> isnan (dbl_of_int 1)" "\<not> isinf (dbl_of_int 1)" "mag (dbl_of_int 1) \<noteq> 0"
    using dbl_of_int_parts(3,4) [of 1] dbl_one(2) by (auto simp: small_int_def sig_exp_def)
  show ?thesis
  proof (cases "isinf x")
    case True
    then have "mag x \<noteq> 0" by (simp add: isinf_def inf_mag_def)
    then show ?thesis
      using x one True mk_dbl_sign_mag [of x] by (simp add: fmul_def isinf_def)
  next
    case False
    let ?s = "fst (sig_exp (mag x))"
    have "round_mag (?s * 2 ^ 52) 1 (exp_of x + - 52) = round_mag ?s 1 (exp_of x)"
      using round_mag_shift [of ?s 52 "exp_of x"] by simp
    moreover have "round_mag ?s 1 (exp_of x) = mag x"
      using round_mag_of_mag [OF x False] by (cases "mag x = 0") (simp_all add: sig_exp_def)
    ultimately show ?thesis
      using x False one dbl_one(2) mk_dbl_sign_mag [of x] by (simp add: fmul_def exp_of_def [of "dbl_of_int 1"])
  qed
qed

text \<open>Adding zero changes nothing but a negative zero.\<close>

lemma zero_parts: "exp_of 0 = - 1074" "signed_sig 0 = 0" "\<not> sign_of 0" "\<not> isinf 0"
  by (simp_all add: exp_of_def signed_sig_def sig_exp_def mag_def sign_of_def isinf_def inf_mag_def)

lemma fadd_zero: "\<not> isnan x \<Longrightarrow> x \<noteq> fneg 0 \<Longrightarrow> fadd x 0 = x"
proof -
  assume x: "\<not> isnan x" "x \<noteq> fneg 0"
  show ?thesis
  proof (cases "isinf x")
    case True
    then show ?thesis using x zero_parts(4) by (simp add: fadd_def)
  next
    case False
    let ?s = "fst (sig_exp (mag x))" and ?t = "nat (exp_of x + 1074)"
    have e: "- 1074 \<le> exp_of x" by (rule exp_of_ge)
    then have t: "- 1074 = exp_of x - int ?t" "min (exp_of x) (- 1074) = - 1074"
      "scale_num (exp_of x + 1074) = 2 ^ ?t" by (auto simp: scale_num_def)
    have add: "fadd x 0 = round_signed False (signed_sig x * 2 ^ ?t) (- 1074)"
      using x(1) False zero_parts t(2,3) by (simp add: fadd_def Let_def del: nat_eq_iff)
    show ?thesis
    proof (cases "mag x = 0")
      case True
      then have "\<not> sign_of x" using x(2) mk_dbl_sign_mag [of x] by (auto simp: fneg_def mag_def [of 0] sign_of_def [of 0])
      moreover have "signed_sig x = 0" using True by (simp add: signed_sig_def sig_exp_def)
      ultimately show ?thesis using add True mk_dbl_sign_mag [of x] by (simp add: round_signed_def)
    next
      case False
      then have s: "0 < ?s" using mag_pos [of x] by (auto simp: sig_exp_def add_pos_nonneg)
      have "round_mag (?s * 2 ^ ?t) 1 (- 1074) = mag x"
        using round_mag_shift [of ?s ?t "exp_of x"] round_mag_of_mag [OF x(1) \<open>\<not> isinf x\<close> False]
        by (simp only: t(1) [symmetric])
      then show ?thesis
        using add s mk_dbl_sign_mag [of x]
        by (auto simp: round_signed_def signed_sig_def abs_mult mult_less_0_iff)
    qed
  qed
qed

end
