(* ===== verification/Update_Inv.thy ===== *)
theory Update_Inv
  imports Update_Frame Double_Int
begin

text \<open>
  Properties of the update as a whole: it keeps the database well formed whatever the arguments
  are and whether or not they are accepted, the time of the last update never goes back, an
  argument that cannot be read leaves no trace, and the readings of an argument reach the data
  sources the template names.
\<close>

section \<open>A run on the sample database\<close>

definition sample_then :: world where
  "sample_then = sample_world\<lparr>clock_readings := [(1200000100, 0)]\<rparr>"
definition sample_vars :: upd_vars where "sample_vars = initial_vars sample_db None"


lemma sample_parse: "parse_ds (env_zone sample_env) sample_db [0, 1] ''N:U'' 3 sample_then =
   Some (Some ([''N'',''U''], 1200000100, 0), sample_world)"
 by code_simp




section \<open>Arguments that cannot be read\<close>

lemma reading_time_None: "reading_time tz ch txt c = (None, c') \<Longrightarrow> rrd_error c' \<noteq> []"
  by (auto simp: reading_time_def numeric_time_def Let_def simp del: gettimeofday.simps
      split: prod.splits sum.splits if_splits)

lemma get_time_None: "get_time_from_reading tz r ch txt ver c = (None, c') \<Longrightarrow> rrd_error c' \<noteq> []"
  by (auto simp: get_time_from_reading_def Let_def dest: reading_time_None
      split: prod.splits option.splits if_splits)

lemma assign_readings_Inl: "assign_readings tmpl i vs uv = Inl m \<Longrightarrow> m \<noteq> []"
  by (induction tmpl i vs uv rule: assign_readings.induct) (auto split: if_splits)

lemma parse_ds_None:
  "parse_ds tz r tmpl a ver c = Some (None, c') \<Longrightarrow> rrd_error c' \<noteq> []"
  by (auto simp: parse_ds_def dest: get_time_None assign_readings_Inl
      split: prod.splits option.splits if_splits sum.splits)

section \<open>Where the readings go\<close>

lemma assign_readings_length:
  "assign_readings tmpl i vs uv = Inr (k, uv') \<Longrightarrow> k = i + length vs \<and> length uv' = length uv \<and> (vs \<noteq> [] \<longrightarrow> k \<le> length tmpl)"
  by (induction tmpl i vs uv rule: assign_readings.induct) (auto split: if_splits)

lemma assign_readings_other:
  "assign_readings tmpl i vs uv = Inr (k, uv') \<Longrightarrow> \<forall>m. i \<le> m \<and> m < i + length vs \<longrightarrow> tmpl ! m \<noteq> j \<Longrightarrow> uv' ! j = uv ! j"
proof (induction tmpl i vs uv rule: assign_readings.induct)
  case (2 tmpl i v vs uv)
  then have "assign_readings tmpl (Suc i) vs (uv[tmpl ! i := v]) = Inr (k, uv')" "i < length tmpl"
    by (auto split: if_splits)
  moreover have "tmpl ! i \<noteq> j" using 2(3) by auto
  moreover have "\<forall>m. Suc i \<le> m \<and> m < Suc i + length vs \<longrightarrow> tmpl ! m \<noteq> j" using 2(3) by auto
  ultimately show ?case using 2(1) by auto
qed simp

lemma assign_readings_nth:
  assumes "assign_readings tmpl i vs uv = Inr (k, uv')" "distinct tmpl" "\<forall>j \<in> set tmpl. j < length uv"
    "m < length vs"
  shows "uv' ! (tmpl ! (i + m)) = vs ! m"
  using assms
proof (induction tmpl i vs uv arbitrary: m rule: assign_readings.induct)
  case (2 tmpl i v vs uv)
  then have rest: "assign_readings tmpl (Suc i) vs (uv[tmpl ! i := v]) = Inr (k, uv')" and i: "i < length tmpl"
    by (auto split: if_splits)
  note len = assign_readings_length [OF rest]
  show ?case
  proof (cases m)
    case 0
    have "tmpl ! n \<noteq> tmpl ! i" if "Suc i \<le> n \<and> n < Suc i + length vs" for n
    proof -
      from that have "vs \<noteq> []" by auto
      with that len have "n < length tmpl" by auto
      with that i "2.prems"(2) show ?thesis by (simp add: nth_eq_iff_index_eq)
    qed
    then have "uv' ! (tmpl ! i) = uv[tmpl ! i := v] ! (tmpl ! i)"
      using assign_readings_other [OF rest, of "tmpl ! i"] by blast
    with 0 i "2.prems"(3) show ?thesis by simp
  next
    case (Suc n)
    with "2.IH" [OF i rest "2.prems"(2), of n] "2.prems"(3,4) show ?thesis by simp
  qed
qed simp


section \<open>The properties\<close>




text \<open>C7. An argument that cannot be read leaves no trace. When the time stamp is missing,
  malformed or not later than the last update, or the number of readings is not that of the
  template, the argument fails, the header and the values of the database are exactly what they
  were, the rest of the arguments is not processed, and the caller finds a message that names the
  file.\<close>

theorem rejected_argument:
  assumes "parse_ds (env_zone env) (db w) tmpl a ver w = Some (None, w1)"
  shows "process_args env filename tmpl rra_begin ver (a # as) v w =
           Some (v, rrd_set_error (filename @ '': '' @ rrd_error w1) w1) \<and>
         rrd_error w1 \<noteq> [] \<and> db w1 = db w \<and> dbfile w1 = dbfile w"
  using assms parse_ds_None [OF assms] more_db [OF more_parse_ds [OF assms]]
  by (simp add: process_arg_def rrd_test_error_def)

theorem rejected_argument_witness:
  "\<exists>w1. process_args sample_env ''a.rrd'' [0, 1] 792 3 [''N:1:2'', ''N:8''] sample_vars sample_then =
     Some (sample_vars, rrd_set_error (''a.rrd'' @ '': '' @ rrd_error w1) w1) \<and>
     rrd_error w1 = ''found extra data on update argument: 2'' \<and> db w1 = sample_db"
proof -
  let ?w1 = "rrd_set_error ''found extra data on update argument: 2'' sample_then"
  have d: "db sample_then = sample_db" by (simp add: sample_then_def)
  have "parse_ds (env_zone sample_env) (db sample_then) [0, 1] ''N:1:2'' 3 sample_then = Some (None, ?w1)"
    unfolding d by code_simp
  from rejected_argument [OF this] d show ?thesis by (intro exI [of _ ?w1]) simp
qed

text \<open>C8. Readings reach the data sources the template names. Of an argument that is read, the
  number of readings is the number of names in the template, the reading at a place goes to the
  data source of that place, every data source the template does not name is unknown, and the
  time stamp is later than the last update.\<close>

theorem template_routes_readings:
  assumes "parse_ds tz r tmpl arg ver c = Some (Some (updvals, t, us), c')"
    and "distinct tmpl" and "\<forall>j \<in> set tmpl. j \<le> n_ds r"
  shows "\<exists>ch txt rest. find_time_end arg = Some (ch, txt, rest) \<and>
           length (split_all CHR '':'' rest) = length tmpl - 1 \<and> length updvals = Suc (n_ds r) \<and>
           (\<forall>m < length tmpl - 1. updvals ! (tmpl ! Suc m) = split_all CHR '':'' rest ! m) \<and>
           (\<forall>j \<in> {1..n_ds r} - set (tl tmpl). updvals ! j = ''U'') \<and>
           later (last_time r) (t, sint us)"
proof -
  obtain ch stamp rest where f: "find_time_end arg = Some (ch, stamp, rest)"
    and a: "assign_readings tmpl 1 (split_all CHR '':'' rest) (stamp # replicate (n_ds r) ''U'')
              = Inr (length tmpl, updvals)"
    using assms(1) by (auto simp: parse_ds_def split: option.splits prod.splits if_splits sum.splits)
  let ?vs = "split_all CHR '':'' rest"
  note len = assign_readings_length [OF a]
  have nth: "updvals ! (tmpl ! Suc m) = ?vs ! m" if "m < length tmpl - 1" for m
    using assign_readings_nth [OF a assms(2), of m] assms(3) that len by (auto simp: less_Suc_eq_le)
  have "updvals ! j = ''U''" if j: "j \<in> {1..n_ds r} - set (tl tmpl)" for j
  proof -
    have "tmpl ! m \<noteq> j" if "1 \<le> m \<and> m < 1 + length ?vs" for m
      using that len j by (cases tmpl; cases m) auto
    then have "updvals ! j = (stamp # replicate (n_ds r) ''U'') ! j"
      using assign_readings_other [OF a] by blast
    with j show ?thesis by (cases j) auto
  qed
  then show ?thesis using f nth len parse_ds_later [OF assms(1)] by auto
qed

theorem template_routes_readings_witness:
  "parse_ds (env_zone sample_env) sample_db [0, 1] ''N:U'' 3 sample_then =
     Some (Some ([''N'', ''U''], 1200000100, 0), sample_world) \<and>
   later (last_time sample_db) (1200000100, 0)"
  using template_routes_readings [OF sample_parse] sample_parse by auto

end
