(* ===== verification/Create.thy ===== *)
theory Create
  imports Hw Rpn_Parse Parsetime
begin

text \<open>
  Creating a database (\<open>rrd_create.c\<close>, the creating branch of \<open>rrd_open.c\<close>, the hash of
  \<open>hash_32.c\<close>): the definitions of data sources and archives are parsed from the arguments, the
  archives a Holt-Winters predictor needs are added, and the initial file is written. \<open>None\<close> is
  undefined behaviour: a remainder by zero, a crash of the COMPUTE parser, sizes whose sum wraps.
\<close>

unbundle bit_operations_syntax

section \<open>Hash of the file name\<close>

type_synonym Fnv32_t = ulong

definition FNV_32_PRIME :: Fnv32_t where "FNV_32_PRIME = 0x01000193"
definition FNV1_32_INIT :: Fnv32_t where "FNV1_32_INIT = 0x811c9dc5"

fun fnv_32_str :: "string \<Rightarrow> Fnv32_t \<Rightarrow> Fnv32_t" where
  "fnv_32_str [] hval = hval"
| "fnv_32_str (s # ss) hval = fnv_32_str ss ((hval * FNV_32_PRIME) XOR word_of_int (ord s))"

definition FnvHash :: "string \<Rightarrow> ulong" where
  "FnvHash str = fnv_32_str str FNV1_32_INIT"

section \<open>Scanning\<close>

text \<open>\<open>%n[set]\<close>: the longest run of characters of the set, at most \<open>n\<close> of them.\<close>

definition scan_set :: "nat \<Rightarrow> (char \<Rightarrow> bool) \<Rightarrow> string \<Rightarrow> string" where
  "scan_set n p s = take n (takeWhile p s)"

text \<open>\<open>%lu\<close>: blanks, a sign and digits; a value beyond the range saturates, a negative one is
  negated as an unsigned number.\<close>

definition scan_lu :: "string \<Rightarrow> (ulong \<times> string) option" where
  "scan_lu s0 =
     (case take_sign (skip_space s0) of (neg, s) \<Rightarrow>
        let ds = takeWhile isdigit s; v = digits_val ds in
        if ds = [] then None
        else Some (if v \<ge> 2 ^ 64 then - 1 else if neg then word_of_int (- v) else word_of_int v,
                   dropWhile isdigit s))"

text \<open>The number of conversions of the name and type of a data source, the two texts and the
  rest; - 1 is the end of the input before the first conversion.\<close>

definition scan_ds :: "string \<Rightarrow> int \<times> string \<times> string \<times> string" where
  "scan_ds s =
     (if s = [] then (- 1, [], [], [])
      else
        (let nam = scan_set 19 is_name_char s; r1 = drop (length nam) s in
         if nam = [] then (0, [], [], r1)
         else if r1 = [] \<or> hd r1 \<noteq> CHR '':'' then (1, nam, [], r1)
         else
           (let ty = scan_set 19 isupper (tl r1); r2 = drop (length ty) (tl r1) in
            if ty = [] then (2, nam, [], r2)
            else if r2 = [] \<or> hd r2 \<noteq> CHR '':'' then (3, nam, ty, r2)
            else (4, nam, ty, tl r2))))"

text \<open>\<open>smoothing-window=%lf\<close>: the result of \<open>sscanf\<close> and the value if it was converted. A text
  that ends inside the literal, or behind it, is an input failure, - 1.\<close>

definition smoothing_key :: string where "smoothing_key = ''smoothing-window=''"

definition scan_smoothing :: "string \<Rightarrow> int \<times> dbl option" where
  "scan_smoothing s =
     (let n = length smoothing_key in
      if take n s = smoothing_key then
        (let r = drop n s in
         if skip_space r = [] then (- 1, None)
         else (case strtod r of (v, rest, _) \<Rightarrow> if rest = r then (0, None) else (1, Some v)))
      else if length s < n \<and> take (length s) smoothing_key = s then (- 1, None)
      else (0, None))"

text \<open>\<open>strtok_r\<close> at colons: empty tokens are skipped.\<close>

definition tokens :: "string \<Rightarrow> string list" where
  "tokens s = filter (\<lambda>t. t \<noteq> []) (split_all CHR '':'' s)"

text \<open>\<open>%f\<close>: six decimals.\<close>

definition pad_zeros :: "nat \<Rightarrow> string \<Rightarrow> string" where
  "pad_zeros n s = replicate (n - length s) CHR ''0'' @ s"

definition show_fixed :: "nat \<Rightarrow> dbl \<Rightarrow> string" where
  "show_fixed k x =
     (let sgn = (if sign_of x then ''-'' else []) in
      if isnan x then sgn @ ''nan''
      else if isinf x then sgn @ ''inf''
      else
        (let e = exp_of x;
             n = nat (round_half_even (fst (sig_exp (mag x)) * 10 ^ k * scale_num e) (scale_num (- e)))
         in sgn @ show_nat (n div 10 ^ k)
              @ (if k = 0 then [] else CHR ''.'' # pad_zeros k (show_nat (n mod 10 ^ k)))))"

section \<open>Data sources\<close>

definition zero_ds :: ds_def_t where
  "zero_ds = \<lparr>ds_nam = [], dst = [], ds_par = replicate 10 0\<rparr>"

definition set_ds_par :: "nat \<Rightarrow> nat \<Rightarrow> unival \<Rightarrow> rrd_t \<Rightarrow> rrd_t" where
  "set_ds_par i k v r =
     r\<lparr>ds_def := (ds_def r)[i := (ds_def r ! i)\<lparr>ds_par := (ds_par (ds_def r ! i))[k := v]\<rparr>]\<rparr>"

text \<open>\<open>%lu:%18[^:]:%18[^:]\<close>: the heartbeat if it was converted, and the two limits if all three
  conversions succeeded.\<close>

definition scan_generic :: "string \<Rightarrow> ulong option \<times> (string \<times> string) option" where
  "scan_generic def =
     (case scan_lu def of
        None \<Rightarrow> (None, None)
      | Some (hb, r1) \<Rightarrow>
          (Some hb,
           if r1 = [] \<or> hd r1 \<noteq> CHR '':'' then None
           else
             (let mn = scan_set 18 (\<lambda>c. c \<noteq> CHR '':'') (tl r1); r2 = drop (length mn) (tl r1) in
              if mn = [] \<or> r2 = [] \<or> hd r2 \<noteq> CHR '':'' then None
              else
                (let mx = scan_set 18 (\<lambda>c. c \<noteq> CHR '':'') (tl r2)
                 in if mx = [] then None else Some (mn, mx)))))"

definition limit_of :: "string \<Rightarrow> dbl" where
  "limit_of s = (if s = ''U'' then DNAN else atof s)"

definition parseGENERIC_DS :: "string \<Rightarrow> rrd_t \<Rightarrow> nat \<Rightarrow> 'a ctx_scheme \<Rightarrow> rrd_t \<times> 'a ctx_scheme" where
  "parseGENERIC_DS def r ds_idx c =
     (let old_locale = lc_numeric c; c1 = setlocale ''C'' c in
      case scan_generic def of (hb, limits) \<Rightarrow>
        let r1 = (case hb of None \<Rightarrow> r | Some h \<Rightarrow> set_ds_par ds_idx DS_mrhb_cnt h r) in
        case limits of
          None \<Rightarrow>
            (r1, setlocale old_locale (rrd_set_error (''failed to parse data source '' @ def) c1))
        | Some (mn, mx) \<Rightarrow>
            (let lo = limit_of mn; hi = limit_of mx;
                 r2 = set_ds_par ds_idx DS_max_val hi (set_ds_par ds_idx DS_min_val lo r1)
             in if \<not> isnan lo \<and> \<not> isnan hi \<and> fge lo hi
                then (r2, setlocale old_locale
                        (rrd_set_error ''min must be less than max in DS definition'' c1))
                else (r2, setlocale old_locale c1)))"

text \<open>The argument behind \<open>DS:\<close>; the boolean tells whether the data source was added.\<close>

definition create_ds :: "string \<Rightarrow> rrd_t \<Rightarrow> 'a ctx_scheme \<Rightarrow> (bool \<times> rrd_t \<times> 'a ctx_scheme) option" where
  "create_ds arg r c =
     (case scan_ds arg of (n, nam, ty, rest) \<Rightarrow>
        let i = n_ds r;
            r1 = r\<lparr>ds_def := ds_def r @ [zero_ds\<lparr>ds_nam := nam, dst := ty\<rparr>]\<rparr>;
            c1 = (if n = 0 \<or> n = 1 then rrd_set_error ''Invalid DS name'' c
                  else if n = 2 \<or> n = 3 then rrd_set_error ''Invalid DS type'' c
                  else if n = 4 then
                    (if nam \<in> set (map ds_nam (take i (ds_def r)))
                     then rrd_set_error (''Duplicate DS name: '' @ nam) c else c)
                  else rrd_set_error ''invalid DS format'' c)
        in if rrd_test_error c1 then Some (False, r1, c1)
           else
             (case dst_conv ty c1 of (d, c2) \<Rightarrow>
                (case (case d of
                         None \<Rightarrow> Some (r1, rrd_set_error ''invalid DS type specified'' c2)
                       | Some DST_CDEF \<Rightarrow> parseCDEF_DS rest r1 i c2
                       | Some _ \<Rightarrow> Some (parseGENERIC_DS rest r1 i c2)) of
                   None \<Rightarrow> None
                 | Some (r2, c3) \<Rightarrow>
                     (if rrd_test_error c3 then Some (False, r2, c3)
                      else Some (True, r2\<lparr>stat_head := (stat_head r2)\<lparr>ds_cnt := ds_cnt (stat_head r2) + 1\<rparr>\<rparr>,
                                 c3)))))"

section \<open>Archives\<close>

definition zero_rra :: rra_def_t where
  "zero_rra = \<lparr>cf_nam = [], row_cnt = 0, pdp_cnt = 0, rra_par = replicate 10 0\<rparr>"

definition set_par :: "nat \<Rightarrow> unival \<Rightarrow> rra_def_t \<Rightarrow> rra_def_t" where
  "set_par k v d = d\<lparr>rra_par := (rra_par d)[k := v]\<rparr>"

text \<open>What the tokens of an archive accumulate: the definition, the version of the file, the
  length of the seasonal cycle (an \<open>unsigned short\<close> that lives across the arguments) and the
  number of tokens expected.\<close>

record rra_parse =
  rp_def :: rra_def_t
  rp_version :: string
  rp_period :: nat
  rp_min :: int

definition upd_def :: "(rra_def_t \<Rightarrow> rra_def_t) \<Rightarrow> rra_parse \<Rightarrow> rra_parse" where
  "upd_def f s = s\<lparr>rp_def := f (rp_def s)\<rparr>"

definition RRD_VERSION3 :: string where "RRD_VERSION3 = ''0003''"
definition MAX_FAILURES_WINDOW_LEN :: int where "MAX_FAILURES_WINDOW_LEN = 28"

definition f01 :: dbl where "f01 = dlit 1 10"
definition f1_288 :: dbl where "f1_288 = dlit 1 288"
definition f005 :: dbl where "f005 = dlit 5 100"

definition is_hw :: "cf_en option \<Rightarrow> bool" where
  "is_hw cf \<longleftrightarrow> cf = Some CF_HWPREDICT \<or> cf = Some CF_MHWPREDICT"

definition is_seasonal :: "cf_en option \<Rightarrow> bool" where
  "is_seasonal cf \<longleftrightarrow> cf = Some CF_SEASONAL \<or> cf = Some CF_DEVSEASONAL"

text \<open>Token 0: the consolidation function, with the defaults of its parameters.\<close>

definition rra_token_cf ::
  "string \<Rightarrow> ulong \<Rightarrow> rra_parse \<Rightarrow> 'a ctx_scheme \<Rightarrow> rra_parse \<times> 'a ctx_scheme" where
  "rra_token_cf tok rra_idx s c =
     (let nm = scan_set 19 isupper tok;
          s1 = upd_def (\<lambda>d. d\<lparr>cf_nam := nm\<rparr>) s;
          c1 = (if nm = [] then rrd_set_error ''Failed to parse CF name'' c else c)
      in case cf_conv nm c1 of (cf, c2) \<Rightarrow>
        let s2 =
          (if is_hw cf then
             upd_def (set_par RRA_dependent_rra_idx rra_idx \<circ> set_par RRA_hw_beta f1_288
                      \<circ> set_par RRA_hw_alpha f01)
               (s1\<lparr>rp_min := 5,
                   rp_version := (if cf = Some CF_MHWPREDICT then RRD_VERSION else rp_version s1)\<rparr>)
           else if is_seasonal cf then
             upd_def (set_par RRA_dependent_rra_idx (- 1) \<circ> set_par RRA_seasonal_smoothing_window f005
                      \<circ> set_par RRA_seasonal_gamma f01)
               (s1\<lparr>rp_min := (if cf = Some CF_SEASONAL then 4 else 3)\<rparr>)
           else if cf = Some CF_DEVPREDICT then
             upd_def (set_par RRA_dependent_rra_idx (- 1)) (s1\<lparr>rp_min := 3\<rparr>)
           else if cf = Some CF_FAILURES then
             upd_def (set_par RRA_dependent_rra_idx (- 1) \<circ> set_par RRA_failure_threshold 2
                      \<circ> set_par RRA_window_len 3 \<circ> set_par RRA_delta_neg D2 \<circ> set_par RRA_delta_pos D2)
               (s1\<lparr>rp_min := 5\<rparr>)
           else s1);
            c3 = (if cf = None
                  then rrd_set_error (''Unrecognized consolidation function '' @ nm) c2 else c2)
        in (upd_def (\<lambda>d. d\<lparr>pdp_cnt := 1\<rparr>) s2, c3))"

text \<open>Tokens 1 to 5. The index of another archive counts from 1 in the argument; the subtraction is
  one of \<open>int\<close>.\<close>

definition index_token :: "string \<Rightarrow> ulong" where
  "index_token tok = word_of_int (wrap_int (atoi tok - 1))"

definition row_token :: "string \<Rightarrow> rra_parse \<Rightarrow> 'a ctx_scheme \<Rightarrow> rra_parse \<times> 'a ctx_scheme" where
  "row_token tok s c =
     (let n = atoi tok
      in (upd_def (\<lambda>d. d\<lparr>row_cnt := word_of_int n\<rparr>) s,
          if n \<le> 0 then rrd_set_error (''Invalid row count: '' @ show_int n) c else c))"

definition range_error :: "bool \<Rightarrow> string \<Rightarrow> 'a ctx_scheme \<Rightarrow> 'a ctx_scheme" where
  "range_error bad m c = (if bad then rrd_set_error m c else c)"

definition rra_token_1 ::
  "string \<Rightarrow> cf_en option \<Rightarrow> rra_parse \<Rightarrow> 'a ctx_scheme \<Rightarrow> rra_parse \<times> 'a ctx_scheme" where
  "rra_token_1 tok cf s c =
     (if is_hw cf \<or> is_seasonal cf \<or> cf = Some CF_DEVPREDICT \<or> cf = Some CF_FAILURES
      then row_token tok s c
      else (let x = atof tok
            in (upd_def (set_par RRA_cdp_xff_val x) s,
                range_error (flt x 0 \<or> fge x D1) ''Invalid xff: must be between 0 and 1'' c)))"

text \<open>The seasonal archives take the row of their smoother from the hash of the file name.\<close>

definition rra_token_2 ::
  "string \<Rightarrow> ulong \<Rightarrow> cf_en option \<Rightarrow> rra_parse \<Rightarrow> 'a ctx_scheme \<Rightarrow> (rra_parse \<times> 'a ctx_scheme) option" where
  "rra_token_2 tok hashed_name cf s c =
     (let x = atof tok; n = atoi tok in
      if is_hw cf then
        Some (upd_def (set_par RRA_hw_alpha x) s,
              range_error (fle x 0 \<or> fge x D1) ''Invalid alpha: must be between 0 and 1'' c)
      else if is_seasonal cf then
        (if row_cnt (rp_def s) = 0 then None
         else Some
           (upd_def (set_par RRA_seasonal_smooth_idx (hashed_name mod row_cnt (rp_def s))
                     \<circ> set_par RRA_seasonal_gamma x) s,
            range_error (fle x 0 \<or> fge x D1) ''Invalid gamma: must be between 0 and 1'' c))
      else if cf = Some CF_FAILURES then
        Some (upd_def (set_par RRA_failure_threshold (word_of_int n)) s,
              range_error (n < 1 \<or> n > MAX_FAILURES_WINDOW_LEN)
                (''Failure threshold is out of range 1, '' @ show_int MAX_FAILURES_WINDOW_LEN) c)
      else if cf = Some CF_DEVPREDICT then
        Some (upd_def (set_par RRA_dependent_rra_idx (index_token tok)) s, c)
      else
        Some (upd_def (\<lambda>d. d\<lparr>pdp_cnt := word_of_int n\<rparr>) s,
              range_error (n < 1) ''Invalid step: must be >= 1'' c))"

definition rra_token_3 ::
  "string \<Rightarrow> cf_en option \<Rightarrow> rra_parse \<Rightarrow> 'a ctx_scheme \<Rightarrow> rra_parse \<times> 'a ctx_scheme" where
  "rra_token_3 tok cf s c =
     (let x = atof tok; n = atoi tok in
      if is_hw cf then
        (upd_def (set_par RRA_hw_beta x) s,
         range_error (flt x 0 \<or> fgt x D1) ''Invalid beta: must be between 0 and 1'' c)
      else if is_seasonal cf then
        (upd_def (set_par RRA_dependent_rra_idx (index_token tok)) s, c)
      else if cf = Some CF_FAILURES then
        (upd_def (set_par RRA_window_len (word_of_int n)) s,
         range_error ((word_of_int n :: ulong) < rra_par (rp_def s) ! RRA_failure_threshold)
           ''Window length is shorter than the failure threshold''
           (range_error (n < 1 \<or> n > MAX_FAILURES_WINDOW_LEN)
             (''Window length is out of range 1, '' @ show_int MAX_FAILURES_WINDOW_LEN) c))
      else if cf = Some CF_DEVPREDICT then
        (s, rrd_set_error ''Unexpected extra argument for consolidation function DEVPREDICT'' c)
      else row_token tok s c)"

definition rra_token_4 ::
  "string \<Rightarrow> cf_en option \<Rightarrow> rra_parse \<Rightarrow> 'a ctx_scheme \<Rightarrow> rra_parse \<times> 'a ctx_scheme" where
  "rra_token_4 tok cf s c =
     (if cf = Some CF_FAILURES then
        (upd_def (set_par RRA_dependent_rra_idx (index_token tok)) s, c)
      else if is_seasonal cf then
        (case scan_smoothing tok of (n, v) \<Rightarrow>
           if n = 0 then (s, rrd_set_error (''Invalid option '' @ tok) c)
           else
             (let s1 = (case v of None \<Rightarrow> s | Some x \<Rightarrow> upd_def (set_par RRA_seasonal_smoothing_window x) s);
                  w = rra_par (rp_def s1) ! RRA_seasonal_smoothing_window
              in (s1\<lparr>rp_version := RRD_VERSION\<rparr>,
                  range_error (flt w 0 \<or> fgt w D1)
                    (''Invalid smoothing-window '' @ show_fixed 6 w @ '': must be between 0 and 1'') c)))
      else if is_hw cf then
        (let period = nat (atoi tok mod 2 ^ 16)
         in (s\<lparr>rp_period := period\<rparr>,
             range_error (of_nat period > row_cnt (rp_def s))
               ''Length of seasonal cycle exceeds length of HW prediction array'' c))
      else
        (s, rrd_set_error (''Unexpected extra argument for consolidation function '' @ cf_nam (rp_def s)) c))"

definition rra_token ::
  "nat \<Rightarrow> string \<Rightarrow> ulong \<Rightarrow> ulong \<Rightarrow> rra_parse \<Rightarrow> 'a ctx_scheme \<Rightarrow> (rra_parse \<times> 'a ctx_scheme) option" where
  "rra_token token_idx tok hashed_name rra_idx s c =
     (if token_idx = 0 then Some (rra_token_cf tok rra_idx s c)
      else if token_idx > 5 then Some (s, rrd_set_error ''Unknown error'' c)
      else if token_idx = 5 then
        Some (upd_def (set_par RRA_dependent_rra_idx (index_token tok)) s, c)
      else
        (case cf_conv (cf_nam (rp_def s)) c of (cf, c1) \<Rightarrow>
           if token_idx = 1 then Some (rra_token_1 tok cf s c1)
           else if token_idx = 2 then rra_token_2 tok hashed_name cf s c1
           else if token_idx = 3 then Some (rra_token_3 tok cf s c1)
           else Some (rra_token_4 tok cf s c1)))"

text \<open>All tokens, up to the first that leaves an error. The index is an \<open>unsigned short\<close>, and an
  argument has fewer tokens than it can count because the seventh is an error. The boolean tells
  whether no error is pending; the number is that of the tokens.\<close>

fun rra_tokens ::
  "string list \<Rightarrow> nat \<Rightarrow> ulong \<Rightarrow> ulong \<Rightarrow> rra_parse \<Rightarrow> 'a ctx_scheme
     \<Rightarrow> (bool \<times> nat \<times> rra_parse \<times> 'a ctx_scheme) option" where
  "rra_tokens [] k hashed_name rra_idx s c = Some (True, k, s, c)"
| "rra_tokens (t # ts) k hashed_name rra_idx s c =
     (case rra_token k t hashed_name rra_idx s c of
        None \<Rightarrow> None
      | Some (s1, c1) \<Rightarrow>
          (if rrd_test_error c1 then Some (False, k, s1, c1)
           else rra_tokens ts (Suc k) hashed_name rra_idx s1 c1))"

section \<open>Contingent archives\<close>

text \<open>The four archives behind a predictor without a seasonal archive of its own. The remainder by
  an empty cycle is undefined.\<close>

definition seasonal_rra :: "string \<Rightarrow> nat \<Rightarrow> ulong \<Rightarrow> ulong \<Rightarrow> dbl \<Rightarrow> rra_def_t" where
  "seasonal_rra nm period hashed_name hw_index gamma =
     set_par RRA_dependent_rra_idx hw_index
       (set_par RRA_seasonal_gamma gamma
         (set_par RRA_seasonal_smooth_idx (hashed_name mod of_nat period)
           (zero_rra\<lparr>cf_nam := nm, row_cnt := of_nat period, pdp_cnt := 1\<rparr>)))"

definition create_hw_contingent_rras :: "rrd_t \<Rightarrow> nat \<Rightarrow> ulong \<Rightarrow> rrd_t option" where
  "create_hw_contingent_rras r period hashed_name =
     (let hw = rra_cnt (stat_head r); d = rra_def r ! unat hw; alpha = rra_par d ! RRA_hw_alpha in
      if period = 0 then None
      else Some
        (r\<lparr>rra_def := (rra_def r)[unat hw := set_par RRA_dependent_rra_idx (hw + 1) d] @
             [seasonal_rra ''SEASONAL'' period hashed_name hw alpha,
              seasonal_rra ''DEVSEASONAL'' period hashed_name hw alpha,
              set_par RRA_dependent_rra_idx (hw + 2)
                (zero_rra\<lparr>cf_nam := ''DEVPREDICT'', row_cnt := row_cnt d, pdp_cnt := 1\<rparr>),
              set_par RRA_dependent_rra_idx (hw + 2)
                (set_par RRA_window_len 9 (set_par RRA_failure_threshold 7
                  (set_par RRA_delta_neg D2 (set_par RRA_delta_pos D2
                    (zero_rra\<lparr>cf_nam := ''FAILURES'', row_cnt := of_nat period, pdp_cnt := 1\<rparr>)))))],
           stat_head := (stat_head r)\<lparr>rra_cnt := hw + 4\<rparr>\<rparr>))"

text \<open>The argument behind \<open>RRA:\<close>, together with the cycle length that is passed on.\<close>

definition create_rra ::
  "string \<Rightarrow> ulong \<Rightarrow> nat \<Rightarrow> rrd_t \<Rightarrow> 'a ctx_scheme \<Rightarrow> (bool \<times> nat \<times> rrd_t \<times> 'a ctx_scheme) option" where
  "create_rra arg hashed_name period r c =
     (let idx = rra_cnt (stat_head r);
          put = (\<lambda>s. r\<lparr>rra_def := rra_def r @ [rp_def s],
                       stat_head := (stat_head r)\<lparr>version := rp_version s\<rparr>\<rparr>)
      in case rra_tokens (tokens arg) 0 hashed_name idx
                \<lparr>rp_def = zero_rra, rp_version = version (stat_head r), rp_period = period, rp_min = 4\<rparr> c of
           None \<Rightarrow> None
         | Some (False, k, s, c1) \<Rightarrow> Some (False, rp_period s, put s, c1)
         | Some (True, k, s, c1) \<Rightarrow>
             (if int k < rp_min s then
                Some (False, rp_period s, put s,
                  rrd_set_error (''Expected at least '' @ show_int (rp_min s)
                    @ '' arguments for RRA but got '' @ show_nat k) c1)
              else
                (case cf_conv (cf_nam (rp_def s)) c1 of (cf, c2) \<Rightarrow>
                   (case (if is_hw cf \<and> rra_par (rp_def s) ! RRA_dependent_rra_idx = idx
                          then create_hw_contingent_rras (put s) (rp_period s) hashed_name
                          else Some (put s)) of
                      None \<Rightarrow> None
                    | Some r1 \<Rightarrow>
                        Some (True, rp_period s,
                          r1\<lparr>stat_head := (stat_head r1)\<lparr>rra_cnt := rra_cnt (stat_head r1) + 1\<rparr>\<rparr>, c2)))))"

section \<open>All arguments\<close>

fun create_args ::
  "string list \<Rightarrow> ulong \<Rightarrow> nat \<Rightarrow> rrd_t \<Rightarrow> 'a ctx_scheme \<Rightarrow> (bool \<times> rrd_t \<times> 'a ctx_scheme) option" where
  "create_args [] hashed_name period r c = Some (True, r, c)"
| "create_args (a # as) hashed_name period r c =
     (if take 3 a = ''DS:'' then
        (case create_ds (drop 3 a) r c of
           Some (True, r1, c1) \<Rightarrow> create_args as hashed_name period r1 c1
         | res \<Rightarrow> res)
      else if take 4 a = ''RRA:'' then
        (case create_rra (drop 4 a) hashed_name period r c of
           None \<Rightarrow> None
         | Some (True, period1, r1, c1) \<Rightarrow> create_args as hashed_name period1 r1 c1
         | Some (False, period1, r1, c1) \<Rightarrow> Some (False, r1, c1))
      else Some (False, r, rrd_set_error (''can'' @ [CHR 0x27] @ ''t parse argument '' @ quoted a) c))"

definition empty_rrd :: "ulong \<Rightarrow> int \<Rightarrow> rrd_t" where
  "empty_rrd st last_t =
     \<lparr>stat_head = \<lparr>cookie = RRD_COOKIE, version = RRD_VERSION3, float_cookie = FLOAT_COOKIE,
                   ds_cnt = 0, rra_cnt = 0, pdp_step = st\<rparr>,
      ds_def = [], rra_def = [], live_head = \<lparr>last_up = last_t, last_up_usec = 0\<rparr>,
      legacy_last_up = 0, pdp_prep = [], cdp_prep = [], rra_ptr = []\<rparr>"

section \<open>The initial file\<close>

text \<open>What the operating system does when the file is created (the boolean is the request to fail
  on an existing file): nothing, or the message of the failure. \<open>rrd_random\<close> is the random number
  of a call.\<close>

record create_env =
  open_new :: "bool \<Rightarrow> string option"
  rrd_random :: "nat \<Rightarrow> nat"

definition rrd_select_initial_row :: "create_env \<Rightarrow> nat \<Rightarrow> rra_def_t \<Rightarrow> ulong option" where
  "rrd_select_initial_row e i rra =
     (if row_cnt rra = 0 then None else Some (of_nat (rrd_random e i) mod row_cnt rra))"

definition value_cnt :: "rrd_t \<Rightarrow> ulong" where
  "value_cnt r = sum_list (map (\<lambda>d. ds_cnt (stat_head r) * row_cnt d) (rra_def r))"

definition newfile_size :: "rrd_t \<Rightarrow> ulong" where
  "newfile_size r = of_nat (rrd_get_header_size r) + of_nat sizeof_value * value_cnt r"

text \<open>\<open>unkn_cnt\<close> is an \<open>int\<close>, to which the product of unsigned numbers is added.\<close>

definition unknown_count :: "rrd_t \<Rightarrow> int" where
  "unknown_count r =
     foldl (\<lambda>n d. wrap_int (n + uint (ds_cnt (stat_head r) * row_cnt d))) 0 (rra_def r)"

definition initial_pdp :: "rrd_t \<Rightarrow> pdp_prep_t" where
  "initial_pdp r =
     \<lparr>last_ds = ''U'',
      pdp_scratch = (replicate 10 0)[PDP_val := 0,
        PDP_unkn_sec_cnt := word_of_int (last_up (live_head r)) mod pdp_step (stat_head r)]\<rparr>"

text \<open>One scratch area is reused for all archives: what an archive does not set is left from the
  one before it.\<close>

definition initial_cdp ::
  "rrd_t \<Rightarrow> rra_def_t \<Rightarrow> cdp_prep_t \<Rightarrow> 'a ctx_scheme \<Rightarrow> (cdp_prep_t \<times> 'a ctx_scheme) option" where
  "initial_cdp r d s c =
     (case cf_conv (cf_nam d) c of (cf, c1) \<Rightarrow>
        let st = pdp_step (stat_head r); last_w = word_of_int (last_up (live_head r)) :: ulong in
        if is_hw cf then Some (init_hwpredict_cdp s, c1)
        else if is_seasonal cf then Some (init_seasonal_cdp s, c1)
        else if cf = Some CF_FAILURES then Some (replicate MAX_CDP_PAR_EN 0, c1)
        else if st * pdp_cnt d = 0 then None
        else Some (s[CDP_val := DNAN,
                     CDP_unkn_pdp_cnt := (last_w - last_w mod st) mod (st * pdp_cnt d) div st], c1))"

fun initial_cdps ::
  "rrd_t \<Rightarrow> rra_def_t list \<Rightarrow> cdp_prep_t \<Rightarrow> 'a ctx_scheme \<Rightarrow> (cdp_prep_t list \<times> 'a ctx_scheme) option" where
  "initial_cdps r [] s c = Some ([], c)"
| "initial_cdps r (d # ds) s c =
     (case initial_cdp r d s c of
        None \<Rightarrow> None
      | Some (s1, c1) \<Rightarrow>
          map_option (\<lambda>(rest, c2). (replicate (n_ds r) s1 @ rest, c2)) (initial_cdps r ds s1 c1))"

fun initial_rows :: "create_env \<Rightarrow> nat \<Rightarrow> rra_def_t list \<Rightarrow> ulong list option" where
  "initial_rows e i [] = Some []"
| "initial_rows e i (d # ds) =
     (case rrd_select_initial_row e i d of
        None \<Rightarrow> None
      | Some k \<Rightarrow> map_option ((#) k) (initial_rows e (Suc i) ds))"

text \<open>The empty data area, in blocks of 512 values; the boolean tells whether all writes
  succeeded.\<close>

function write_unknown :: "int \<Rightarrow> world \<Rightarrow> (bool \<times> world) option" where
  "write_unknown unkn_cnt w =
     (if unkn_cnt \<le> 0 then Some (True, w)
      else (case rrd_write w (replicate (nat (min unkn_cnt 512)) DNAN) of
              None \<Rightarrow> None
            | Some (got, w') \<Rightarrow> if got < 0 then Some (False, w') else write_unknown (unkn_cnt - 512) w'))"
  by pat_completeness auto
termination
  by (relation "measure (\<lambda>(n, w). nat n)") auto

declare write_unknown.simps [simp del]

text \<open>Of a version below 4 the creating code writes the live header of 16 bytes, but the size it
  reserves counts the older header of 8 bytes too, so 8 bytes stay behind the values. The fresh
  file is filled with the lowest byte of a NaN converted to \<open>int\<close>, a zero on this build. At the
  end the file is opened once more, for hints to the page cache only.\<close>

definition created_header_len :: "rrd_t \<Rightarrow> nat" where
  "created_header_len r = rrd_get_header_size r - sizeof_time"

definition rrd_create_fn ::
  "create_env \<Rightarrow> bool \<Rightarrow> string \<Rightarrow> rrd_t \<Rightarrow> ctx \<Rightarrow> (int \<times> sys_open option \<times> ctx) option" where
  "rrd_create_fn e no_overwrite file_name r c =
     (case open_new e no_overwrite of
        Some m \<Rightarrow> Some (- 1, None, rrd_set_error (''creating '' @ quoted file_name @ '': '' @ m) c)
      | None \<Rightarrow>
          (if pdp_step (stat_head r) = 0 \<or> unat (newfile_size r) < rrd_get_header_size r then None
           else
             (case (initial_cdps r (rra_def r) (replicate MAX_CDP_PAR_EN 0) c, initial_rows e 0 (rra_def r)) of
                (Some (cdps, c1), Some ptrs) \<Rightarrow>
                  (let r1 = r\<lparr>pdp_prep := replicate (n_ds r) (initial_pdp r), cdp_prep := cdps,
                              rra_ptr := ptrs\<rparr>;
                       hl = created_header_len r; fl = unat (newfile_size r);
                       w = \<lparr>rrd_error = rrd_error c1, lc_numeric = lc_numeric c1,
                            clock_readings = clock_readings c1, db = r1,
                            dbfile = \<lparr>header_len = hl, file_len = fl, pos = hl,
                                      vals = replicate ((fl - hl) div sizeof_value) 0\<rparr>\<rparr>
                   in case write_unknown (unknown_count r) w of
                        None \<Rightarrow> None
                      | Some (ok, w') \<Rightarrow>
                          (let im = Opened \<lparr>img_len = fl, img_rrd = db w', img_vals = vals (dbfile w')\<rparr>;
                               c2 = ctx.truncate w'
                           in Some (if ok then (0, Some im, snd (rrd_open file_name im c2))
                                    else (- 1, Some im, rrd_set_error ''creating rrd: Success'' c2))))
              | _ \<Rightarrow> None)))"

definition rrd_create_r ::
  "create_env \<Rightarrow> bool \<Rightarrow> string \<Rightarrow> ulong \<Rightarrow> int \<Rightarrow> string list \<Rightarrow> ctx \<Rightarrow> (int \<times> sys_open option \<times> ctx) option" where
  "rrd_create_r e no_overwrite filename st last_t args c =
     (case create_args args (FnvHash filename) 0 (empty_rrd st last_t) c of
        None \<Rightarrow> None
      | Some (False, r, c1) \<Rightarrow> Some (- 1, None, c1)
      | Some (True, r, c1) \<Rightarrow>
          (if rra_cnt (stat_head r) < 1 then
             Some (- 1, None, rrd_set_error ''you must define at least one Round Robin Archive'' c1)
           else if ds_cnt (stat_head r) < 1 then
             Some (- 1, None, rrd_set_error ''you must define at least one Data Source'' c1)
           else rrd_create_fn e no_overwrite filename r c1))"

section \<open>The command\<close>

text \<open>The options as \<open>getopt_long\<close> delivers them. The flag against overwriting is a static
  variable: once set, it stays set for later calls.\<close>

datatype create_opt = Opt_begin string | Opt_step string | Opt_no_overwrite | Opt_bad string

record create_opts =
  co_last_up :: int
  co_step :: ulong
  co_keep :: bool

definition create_opt_step ::
  "tzone \<Rightarrow> create_opt \<Rightarrow> create_opts \<Rightarrow> ctx \<Rightarrow> create_opts option \<times> ctx" where
  "create_opt_step tz opt s c =
     (case opt of
        Opt_begin optarg \<Rightarrow>
          (case rrd_parsetime tz optarg c of
             (Inl m, c1) \<Rightarrow> (None, rrd_set_error (''start time: '' @ m) c1)
           | (Inr tv, c1) \<Rightarrow>
               (if tv_type tv = RELATIVE_TO_END_TIME \<or> tv_type tv = RELATIVE_TO_START_TIME then
                  (None, rrd_set_error (''specifying time relative to the '' @ quoted ''start'' @ '' or ''
                     @ quoted ''end'' @ '' makes no sense here'') c1)
                else if absolute_of tz tv < 3600 * 24 * 365 * 10 then
                  (None, rrd_set_error ''the first entry to the RRD should be after 1980'' c1)
                else (Some (s\<lparr>co_last_up := absolute_of tz tv\<rparr>), c1)))
      | Opt_step optarg \<Rightarrow>
          (if atol optarg < 1 then
             (None, rrd_set_error ''step size should be no less than one second'' c)
           else (Some (s\<lparr>co_step := word_of_int (atol optarg)\<rparr>), c))
      | Opt_no_overwrite \<Rightarrow> (Some (s\<lparr>co_keep := True\<rparr>), c)
      | Opt_bad o_text \<Rightarrow> (None, rrd_set_error (''unknown option '' @ quoted o_text) c))"

fun create_options ::
  "tzone \<Rightarrow> create_opt list \<Rightarrow> create_opts \<Rightarrow> ctx \<Rightarrow> create_opts option \<times> ctx" where
  "create_options tz [] s c = (Some s, c)"
| "create_options tz (opt # opts) s c =
     (case create_opt_step tz opt s c of
        (None, c1) \<Rightarrow> (None, c1)
      | (Some s1, c1) \<Rightarrow> create_options tz opts s1 c1)"

text \<open>The clock gives the default of ten seconds ago.\<close>

definition rrd_create ::
  "create_env \<Rightarrow> tzone \<Rightarrow> bool \<Rightarrow> create_opt list \<Rightarrow> string list \<Rightarrow> ctx
     \<Rightarrow> (int \<times> sys_open option \<times> ctx) option" where
  "rrd_create e tz keep opts args c =
     (case gettimeofday c of ((now, _), c1) \<Rightarrow>
      case create_options tz opts \<lparr>co_last_up = now - 10, co_step = 300, co_keep = keep\<rparr> c1 of
        (None, c2) \<Rightarrow> Some (- 1, None, c2)
      | (Some s, c2) \<Rightarrow>
          (case args of
             [] \<Rightarrow> Some (- 1, None, rrd_set_error ''need name of an rrd file to create'' c2)
           | filename # rest \<Rightarrow>
               rrd_create_r e (co_keep s) filename (co_step s) (co_last_up s) rest c2))"

end
