(* ===== verification/Create_Inv.thy ===== *)
theory Create_Inv
  imports Create Update_Frame
begin

text \<open>
  What creating a database gives: definitions that satisfy the rules of the file format, and a
  file that opens as a well formed database whose archives are unknown everywhere.
\<close>

section \<open>Valid definitions\<close>

definition ds_valid :: "ds_def_t \<Rightarrow> bool" where
  "ds_valid d \<longleftrightarrow> ds_nam d \<noteq> [] \<and> length (ds_nam d) < DS_NAM_SIZE \<and>
     (\<forall>c \<in> set (ds_nam d). is_name_char c) \<and> map_of dst_table (dst d) \<noteq> None \<and>
     length (ds_par d) = 10"

definition rra_valid :: "rra_def_t \<Rightarrow> bool" where
  "rra_valid d \<longleftrightarrow> map_of cf_table (cf_nam d) \<noteq> None \<and> pdp_cnt d \<noteq> 0 \<and> length (rra_par d) = 10"

definition head_valid :: "stat_head_t \<Rightarrow> bool" where
  "head_valid h \<longleftrightarrow> cookie h = RRD_COOKIE \<and> float_cookie h = FLOAT_COOKIE \<and>
     (version h = RRD_VERSION3 \<or> version h = RRD_VERSION)"

definition defs_valid :: "nat \<Rightarrow> rrd_t \<Rightarrow> bool" where
  "defs_valid k r \<longleftrightarrow>
     head_valid (stat_head r) \<and>
     ds_cnt (stat_head r) = of_nat (length (ds_def r)) \<and> length (ds_def r) \<le> k \<and>
     rra_cnt (stat_head r) = of_nat (length (rra_def r)) \<and> length (rra_def r) \<le> 5 * k \<and>
     (\<forall>d \<in> set (ds_def r). ds_valid d) \<and> distinct (map ds_nam (ds_def r)) \<and>
     (\<forall>d \<in> set (rra_def r). rra_valid d)"

text \<open>What the arguments do not touch.\<close>

definition same_run :: "rrd_t \<Rightarrow> rrd_t \<Rightarrow> bool" where
  "same_run r r' \<longleftrightarrow> pdp_step (stat_head r') = pdp_step (stat_head r) \<and> live_head r' = live_head r \<and>
     legacy_last_up r' = legacy_last_up r"

lemma same_run_trans: "same_run r r' \<Longrightarrow> same_run r' r'' \<Longrightarrow> same_run r r''"
  by (simp add: same_run_def)

section \<open>Errors are seen\<close>

lemma test_error_range [simp]:
  "m \<noteq> [] \<Longrightarrow> rrd_test_error (range_error bad m c) \<longleftrightarrow> bad \<or> rrd_test_error c"
  by (simp add: range_error_def)

lemma test_error_setlocale [simp]: "rrd_test_error (setlocale l c) = rrd_test_error c"
  by (simp add: rrd_test_error_def)

lemma cf_conv_error: "cf_conv s c = (cf, c') \<Longrightarrow> rrd_test_error c \<Longrightarrow> rrd_test_error c'"
  by (auto simp: cf_conv_def split: option.splits)

lemma cf_conv_cases: "cf_conv s c = (cf, c') \<Longrightarrow> cf = map_of cf_table s \<and> (cf \<noteq> None \<longrightarrow> c' = c) \<and> (cf = None \<longrightarrow> rrd_test_error c')"
  by (auto simp: cf_conv_def split: option.splits)

section \<open>Data sources\<close>

lemma scan_ds_full:
  "scan_ds s = (n, nam, ty, rest) \<Longrightarrow> n = 4 \<Longrightarrow>
     nam \<noteq> [] \<and> length nam < DS_NAM_SIZE \<and> (\<forall>c \<in> set nam. is_name_char c)"
  by (auto simp: scan_ds_def scan_set_def DS_NAM_SIZE_def Let_def dest!: in_set_takeD set_takeWhileD
      split: if_splits)

lemma length_store_nodes [simp]: "length (store_nodes cs par) = length par"
  by (induction cs par rule: store_nodes.induct) auto

text \<open>A change of the parameters of one data source.\<close>

definition par_change :: "nat \<Rightarrow> rrd_t \<Rightarrow> rrd_t \<Rightarrow> bool" where
  "par_change i r r' \<longleftrightarrow> (\<exists>ps. length ps = length (ds_par (ds_def r ! i)) \<and>
     r' = r\<lparr>ds_def := (ds_def r)[i := (ds_def r ! i)\<lparr>ds_par := ps\<rparr>]\<rparr>)"

lemma par_changeI:
  "length ps = length (ds_par (ds_def r ! i)) \<Longrightarrow>
     par_change i r (r\<lparr>ds_def := (ds_def r)[i := (ds_def r ! i)\<lparr>ds_par := ps\<rparr>]\<rparr>)"
  by (auto simp: par_change_def)

lemma par_change_refl: "i < length (ds_def r) \<Longrightarrow> par_change i r r"
  by (auto simp: par_change_def intro!: exI [of _ "ds_par (ds_def r ! i)"])

lemma par_change_set [intro]:
  "i < length (ds_def r) \<Longrightarrow> par_change i r s \<Longrightarrow> par_change i r (set_ds_par i k v s)"
  by (auto simp: par_change_def set_ds_par_def) (metis length_list_update)

lemma par_change_generic:
  "parseGENERIC_DS def r i c = (r', c') \<Longrightarrow> i < length (ds_def r) \<Longrightarrow> par_change i r r'"
  by (auto simp: parseGENERIC_DS_def Let_def intro!: par_change_set par_change_refl
      split: prod.splits option.splits if_splits)

lemma par_change_cdef:
  "parseCDEF_DS def r i c = Some (r', c') \<Longrightarrow> i < length (ds_def r) \<Longrightarrow> par_change i r r'"
  by (auto simp: parseCDEF_DS_def Let_def intro: par_change_refl par_changeI
      split: prod.splits option.splits if_splits parse_res.splits)

lemma create_ds_valid:
  assumes "create_ds arg r c = Some (True, r', c')" "defs_valid k r" "k < 2 ^ 40"
  shows "defs_valid (Suc k) r'" "same_run r r'"
proof -
  obtain n nam ty rest where sc: "scan_ds arg = (n, nam, ty, rest)" by (cases "scan_ds arg")
  let ?d = "zero_ds\<lparr>ds_nam := nam, dst := ty\<rparr>"
  let ?r1 = "r\<lparr>ds_def := ds_def r @ [?d]\<rparr>"
  have cnt: "n_ds r = length (ds_def r)"
    using assms(2,3) by (auto simp: defs_valid_def unat_of_nat take_bit_nat_eq_self)
  define c1 where "c1 = (if n = 0 \<or> n = 1 then rrd_set_error ''Invalid DS name'' c
      else if n = 2 \<or> n = 3 then rrd_set_error ''Invalid DS type'' c
      else if n = 4 then
        (if nam \<in> set (map ds_nam (take (n_ds r) (ds_def r)))
         then rrd_set_error (''Duplicate DS name: '' @ nam) c else c)
      else rrd_set_error ''invalid DS format'' c)"
  note step = assms(1) [unfolded create_ds_def sc prod.case Let_def, folded c1_def]
  have ok1: "\<not> rrd_test_error c1" using step by (auto split: if_splits)
  then have n4: "n = 4" and new: "nam \<notin> set (map ds_nam (ds_def r))"
    using cnt by (auto simp: c1_def split: if_splits)
  obtain d c2 where d: "dst_conv ty c1 = (d, c2)" by fastforce
  obtain r2 c3 where body: "(case d of None \<Rightarrow> Some (?r1, rrd_set_error ''invalid DS type specified'' c2)
      | Some DST_CDEF \<Rightarrow> parseCDEF_DS rest ?r1 (n_ds r) c2
      | Some _ \<Rightarrow> Some (parseGENERIC_DS rest ?r1 (n_ds r) c2)) = Some (r2, c3)"
    and ok3: "\<not> rrd_test_error c3"
    and r2: "r' = r2\<lparr>stat_head := (stat_head r2)\<lparr>ds_cnt := ds_cnt (stat_head r2) + 1\<rparr>\<rparr>"
    using step ok1 by (auto simp: d split: option.splits if_splits prod.splits)
  have "d \<noteq> None" using body ok3 by (cases d) auto
  then have ty: "map_of dst_table ty \<noteq> None" "d \<noteq> None" using dst_conv_fst [of ty c1] d by simp_all
  have change: "par_change (length (ds_def r)) ?r1 r2"
    using body ty(2) cnt
    by (auto split: option.splits dst_en.splits dest: par_change_generic par_change_cdef)
  from change r2 obtain ps where ps: "length ps = 10"
    "r' = ?r1\<lparr>ds_def := ds_def r @ [?d\<lparr>ds_par := ps\<rparr>],
             stat_head := (stat_head r)\<lparr>ds_cnt := ds_cnt (stat_head r) + 1\<rparr>\<rparr>"
    by (auto simp: par_change_def zero_ds_def nth_append)
  show "defs_valid (Suc k) r'" "same_run r r'"
    using assms(2) scan_ds_full [OF sc n4] new ty ps
    by (auto simp: defs_valid_def ds_valid_def head_valid_def same_run_def)
qed

section \<open>Archives\<close>

text \<open>What the tokens establish: \<open>k\<close> counts those already read.\<close>

definition parse_valid :: "nat \<Rightarrow> rra_parse \<Rightarrow> bool" where
  "parse_valid k s \<longleftrightarrow> length (rra_par (rp_def s)) = 10 \<and>
     (rp_version s = RRD_VERSION3 \<or> rp_version s = RRD_VERSION) \<and>
     (0 < k \<longrightarrow> map_of cf_table (cf_nam (rp_def s)) \<noteq> None \<and> pdp_cnt (rp_def s) \<noteq> 0)"

lemma set_par_fields [simp]:
  "cf_nam (set_par k v d) = cf_nam d" "row_cnt (set_par k v d) = row_cnt d"
  "pdp_cnt (set_par k v d) = pdp_cnt d" "length (rra_par (set_par k v d)) = length (rra_par d)"
  by (simp_all add: set_par_def)

lemma upd_def_fields [simp]:
  "rp_def (upd_def f s) = f (rp_def s)" "rp_version (upd_def f s) = rp_version s"
  "rp_period (upd_def f s) = rp_period s" "rp_min (upd_def f s) = rp_min s"
  by (simp_all add: upd_def_def)

lemma rra_token_cf_valid:
  assumes "rra_token_cf t i s c = (s', c')" "\<not> rrd_test_error c'" "parse_valid 0 s"
  shows "parse_valid (Suc k) s'"
proof -
  let ?nm = "scan_set 19 isupper t"
  obtain cf c2 where cf: "cf_conv ?nm (if ?nm = [] then rrd_set_error ''Failed to parse CF name'' c else c) = (cf, c2)"
    by fastforce
  have "cf \<noteq> None"
    using assms(1,2) cf by (auto simp: rra_token_cf_def Let_def split: if_splits)
  then have "map_of cf_table ?nm \<noteq> None" using cf_conv_cases [OF cf] by simp
  then show ?thesis
    using assms(1,3) cf by (auto simp: rra_token_cf_def Let_def parse_valid_def split: if_splits)
qed

lemma word_of_atoi: "0 < atoi t \<Longrightarrow> (word_of_int (atoi t) :: ulong) \<noteq> 0"
proof
  assume a: "0 < atoi t" "(word_of_int (atoi t) :: ulong) = 0"
  have "atoi t < 2 ^ 31" by (simp add: atoi_def wrap_int_def signed_take_bit_int_less_exp [of 31, simplified])
  then have "uint (word_of_int (atoi t) :: ulong) = atoi t"
    using a(1) by (simp add: uint_word_of_int take_bit_int_eq_self)
  with a show False by simp
qed

lemma rra_token_valid:
  assumes "rra_token k t h i s c = Some (s', c')" "\<not> rrd_test_error c'" "parse_valid k s"
  shows "parse_valid (Suc k) s'"
proof (cases "k = 0")
  case True
  then show ?thesis using assms rra_token_cf_valid [of t i s c s' c'] by (simp add: rra_token_def)
next
  case False
  obtain cf c1 where cf: "cf_conv (cf_nam (rp_def s)) c = (cf, c1)" by fastforce
  have v: "length (rra_par (rp_def s)) = 10" "rp_version s = RRD_VERSION3 \<or> rp_version s = RRD_VERSION"
    "map_of cf_table (cf_nam (rp_def s)) \<noteq> None" "pdp_cnt (rp_def s) \<noteq> 0"
    using assms(3) False by (auto simp: parse_valid_def)
  have 1: ?thesis if "rra_token_1 t cf s c1 = (s', c')"
    using that v assms(2)
    by (auto simp: rra_token_1_def row_token_def Let_def parse_valid_def split: if_splits)
  have 2: ?thesis if "rra_token_2 t h cf s c1 = Some (s', c')"
    using that v assms(2) word_of_atoi [of t]
    by (auto simp: rra_token_2_def Let_def parse_valid_def split: if_splits)
  have 3: ?thesis if "rra_token_3 t cf s c1 = (s', c')"
    using that v assms(2)
    by (auto simp: rra_token_3_def row_token_def Let_def parse_valid_def split: if_splits)
  have 4: ?thesis if "rra_token_4 t cf s c1 = (s', c')"
    using that v assms(2)
    by (auto simp: rra_token_4_def Let_def parse_valid_def split: if_splits prod.splits option.splits)
  have 5: ?thesis if "s' = upd_def (set_par RRA_dependent_rra_idx (index_token t)) s"
    using that v by (simp add: parse_valid_def)
  show ?thesis using assms(1,2) False 1 2 3 4 5 by (auto simp: rra_token_def cf split: if_splits)
qed

lemma rra_tokens_valid:
  "rra_tokens ts k h i s c = Some (True, n, s', c') \<Longrightarrow> parse_valid k s \<Longrightarrow>
     parse_valid n s' \<and> n = k + length ts"
proof (induction ts arbitrary: k s c)
  case (Cons t ts)
  then obtain s1 c1 where t: "rra_token k t h i s c = Some (s1, c1)" "\<not> rrd_test_error c1"
    and rest: "rra_tokens ts (Suc k) h i s1 c1 = Some (True, n, s', c')"
    by (auto split: option.splits if_splits)
  from Cons.IH [OF rest rra_token_valid [OF t Cons.prems(2)]] show ?case by auto
qed simp

lemma rp_min_pos:
  "rra_token k t h i s c = Some (s', c') \<Longrightarrow> 0 < rp_min s \<Longrightarrow> 0 < rp_min s'"
  by (auto simp: rra_token_def rra_token_cf_def rra_token_1_def rra_token_2_def rra_token_3_def
      rra_token_4_def row_token_def Let_def split: if_splits prod.splits option.splits)

lemma rra_tokens_min:
  "rra_tokens ts k h i s c = Some (b, n, s', c') \<Longrightarrow> 0 < rp_min s \<Longrightarrow> 0 < rp_min s'"
  by (induction ts arbitrary: k s c) (auto split: option.splits if_splits dest!: rp_min_pos)

lemma contingent_valid: "rra_valid (seasonal_rra nm p h hw g) \<longleftrightarrow> map_of cf_table nm \<noteq> None"
  by (simp add: rra_valid_def seasonal_rra_def zero_rra_def)

lemma hw_contingent_valid:
  assumes "create_hw_contingent_rras r p h = Some r'" "rra_def r = ds @ [d]" "unat (rra_cnt (stat_head r)) = length ds"
    "\<forall>d \<in> set (rra_def r). rra_valid d"
  shows "\<forall>d \<in> set (rra_def r'). rra_valid d" "length (rra_def r') = length ds + 5"
    "r' = r\<lparr>rra_def := rra_def r', stat_head := (stat_head r)\<lparr>rra_cnt := rra_cnt (stat_head r) + 4\<rparr>\<rparr>"
  using assms
  by (auto simp: create_hw_contingent_rras_def Let_def contingent_valid cf_table_def split: if_splits)
     (auto simp: rra_valid_def zero_rra_def cf_table_def)

lemma create_rra_valid:
  assumes "create_rra arg h p r c = Some (True, p', r', c')" "defs_valid k r" "k < 2 ^ 40"
  shows "defs_valid (Suc k) r'" "same_run r r'"
proof -
  let ?i = "rra_cnt (stat_head r)"
  let ?s0 = "\<lparr>rp_def = zero_rra, rp_version = version (stat_head r), rp_period = p, rp_min = 4\<rparr>"
  define put where "put s = r\<lparr>rra_def := rra_def r @ [rp_def s],
      stat_head := (stat_head r)\<lparr>version := rp_version s\<rparr>\<rparr>" for s :: rra_parse
  obtain n s c1 where toks: "rra_tokens (tokens arg) 0 h ?i ?s0 c = Some (True, n, s, c1)"
    and enough: "rp_min s \<le> int n"
    using assms(1) by (auto simp: create_rra_def Let_def split: option.splits bool.splits if_splits prod.splits)
  obtain cf c2 where cf: "cf_conv (cf_nam (rp_def s)) c1 = (cf, c2)" by fastforce
  obtain r1 where r1: "(if is_hw cf \<and> rra_par (rp_def s) ! RRA_dependent_rra_idx = ?i
      then create_hw_contingent_rras (put s) (rp_period s) h else Some (put s)) = Some r1"
    and r': "r' = r1\<lparr>stat_head := (stat_head r1)\<lparr>rra_cnt := rra_cnt (stat_head r1) + 1\<rparr>\<rparr>"
    using assms(1) toks enough
    by (auto simp: create_rra_def Let_def cf put_def split: option.splits if_splits)
  have len: "unat ?i = length (rra_def r)"
    using assms(2,3) by (auto simp: defs_valid_def unat_of_nat take_bit_nat_eq_self)
  have "parse_valid 0 ?s0" using assms(2) by (simp add: parse_valid_def zero_rra_def defs_valid_def head_valid_def)
  note pv = rra_tokens_valid [OF toks this]
  have "0 < n" using rra_tokens_min [OF toks] enough by simp
  with pv have d: "rra_valid (rp_def s)" "rp_version s = RRD_VERSION3 \<or> rp_version s = RRD_VERSION"
    by (auto simp: parse_valid_def rra_valid_def)
  have all: "\<forall>d \<in> set (rra_def (put s)). rra_valid d"
    using d assms(2) by (simp add: put_def defs_valid_def)
  show "defs_valid (Suc k) r'" "same_run r r'"
  proof (atomize (full), cases "is_hw cf \<and> rra_par (rp_def s) ! RRA_dependent_rra_idx = ?i")
    case True
    then have hw: "create_hw_contingent_rras (put s) (rp_period s) h = Some r1" using r1 by simp
    have "rra_def (put s) = rra_def r @ [rp_def s]" "unat (rra_cnt (stat_head (put s))) = length (rra_def r)"
      using len by (simp_all add: put_def)
    note v = hw_contingent_valid [OF hw this all]
    have eqs: "stat_head r1 = (stat_head (put s))\<lparr>rra_cnt := rra_cnt (stat_head (put s)) + 4\<rparr>"
      "ds_def r1 = ds_def r" "live_head r1 = live_head r" "legacy_last_up r1 = legacy_last_up r"
      by (subst v(3), simp add: put_def)+
    show "defs_valid (Suc k) r' \<and> same_run r r'"
      using assms(2) d v(1,2) by (auto simp: r' eqs put_def defs_valid_def head_valid_def same_run_def)
  next
    case False
    then have "r1 = put s" using r1 by (simp split: if_splits)
    then show "defs_valid (Suc k) r' \<and> same_run r r'"
      using assms(2) d all by (auto simp: r' put_def defs_valid_def head_valid_def same_run_def)
  qed
qed

lemma create_args_valid:
  "create_args as h p r c = Some (True, r', c') \<Longrightarrow> defs_valid k r \<Longrightarrow> k + length as < 2 ^ 40 \<Longrightarrow>
     defs_valid (k + length as) r' \<and> same_run r r'"
proof (induction as arbitrary: p r c k)
  case (Cons a as)
  have step: "defs_valid (k + length (a # as)) r' \<and> same_run r r'"
    if "create_args as h p1 r1 c1 = Some (True, r', c')" "defs_valid (Suc k) r1" "same_run r r1" for p1 r1 c1
    using Cons.IH [OF that(1,2)] Cons.prems(3) that(3) by (auto intro: same_run_trans)
  have k: "k < 2 ^ 40" using Cons.prems(3) by simp
  show ?case
  proof (cases "take 3 a = ''DS:''")
    case True
    then obtain r1 c1 where "create_ds (drop 3 a) r c = Some (True, r1, c1)"
      "create_args as h p r1 c1 = Some (True, r', c')"
      using Cons.prems(1) by (auto split: option.splits bool.splits)
    then show ?thesis using create_ds_valid [OF _ Cons.prems(2) k] step by blast
  next
    case False
    then obtain p1 r1 c1 where "create_rra (drop 4 a) h p r c = Some (True, p1, r1, c1)"
      "create_args as h p1 r1 c1 = Some (True, r', c')"
      using Cons.prems(1) by (auto split: option.splits bool.splits if_splits)
    then show ?thesis using create_rra_valid [OF _ Cons.prems(2) k] step by blast
  qed
qed (simp add: same_run_def)

lemma empty_rrd_valid: "defs_valid 0 (empty_rrd st t)"
  by (simp add: defs_valid_def head_valid_def empty_rrd_def)

end
