(* ===== verification/Create_File.thy ===== *)
theory Create_File
  imports Create_Inv Double_Order
begin

text \<open>
  The file a creation leaves: its sections add up to the header that opening expects, the data
  area is unknown everywhere, and opening it gives a well formed database.
\<close>

section \<open>Sizes\<close>

text \<open>The number of values as a natural number.\<close>

definition total_values :: "rrd_t \<Rightarrow> nat" where
  "total_values r = sum_list (map (\<lambda>d. n_ds r * unat (row_cnt d)) (rra_def r))"

lemma rra_base_total:
  assumes "length (rra_def r) = n_rra r"
  shows "rra_base r (n_rra r) = total_values r"
proof -
  have "i \<le> length (rra_def r) \<Longrightarrow>
      rra_base r i = sum_list (map (\<lambda>d. n_ds r * unat (row_cnt d)) (take i (rra_def r)))" for i
    by (induction i) (simp_all add: take_Suc_conv_app_nth rra_size_def)
  from this [of "n_rra r"] show ?thesis using assms by (simp add: total_values_def)
qed

lemma value_cnt_total: "value_cnt r = of_nat (total_values r)"
proof -
  have "sum_list (map (\<lambda>d. ds_cnt (stat_head r) * row_cnt d) ds) =
      of_nat (sum_list (map (\<lambda>d. n_ds r * unat (row_cnt d)) ds))" for ds
    by (induction ds) simp_all
  then show ?thesis by (simp add: value_cnt_def total_values_def)
qed

lemma newfile_size_total:
  assumes "total_values r < 2 ^ 31" "rrd_get_header_size r \<le> unat (newfile_size r)"
  shows "unat (newfile_size r) = rrd_get_header_size r + sizeof_value * total_values r"
proof -
  let ?h = "rrd_get_header_size r" and ?t = "sizeof_value * total_values r"
  have n: "newfile_size r = of_nat (?h + ?t)"
    by (simp add: newfile_size_def value_cnt_total)
  have b: "unat (newfile_size r) < 2 ^ LENGTH(64)" by (rule unsigned_less)
  have t: "?t < 2 ^ 64" using assms(1) by (simp add: sizeof_value_def)
  have m: "unat (newfile_size r) = (?h + ?t) mod 2 ^ 64" unfolding n by (simp add: unat_of_nat take_bit_nat_def del: of_nat_add of_nat_mult)
  have "?h + ?t < 2 ^ 64"
  proof (rule ccontr)
    assume big: "\<not> ?h + ?t < 2 ^ 64"
    moreover have "?h < 2 ^ 64" using assms(2) b by simp
    ultimately have "(?h + ?t) mod 2 ^ 64 = ?h + ?t - 2 ^ 64"
      using t by (simp add: mod_if)
    with assms(2) m t big show False by arith
  qed
  with m show ?thesis by simp
qed

lemma unknown_count_total:
  assumes "total_values r < 2 ^ 31"
  shows "unknown_count r = int (total_values r)"
proof -
  have "foldl (\<lambda>n d. wrap_int (n + uint (ds_cnt (stat_head r) * row_cnt d))) (int k) ds =
      int (k + sum_list (map (\<lambda>d. n_ds r * unat (row_cnt d)) ds))"
    if "k + sum_list (map (\<lambda>d. n_ds r * unat (row_cnt d)) ds) < 2 ^ 31" for k ds
    using that
  proof (induction ds arbitrary: k)
    case (Cons d ds)
    let ?p = "n_ds r * unat (row_cnt d)"
    have p: "?p < 2 ^ 31" using Cons.prems by simp
    have "unat (ds_cnt (stat_head r) * row_cnt d) = ?p mod 2 ^ 64"
      by (simp only: unat_word_ariths) simp
    then have "unat (ds_cnt (stat_head r) * row_cnt d) = ?p" using p by simp
    then have "uint (ds_cnt (stat_head r) * row_cnt d) = int ?p" by (metis int_nat_eq uint_nat)
    moreover have "wrap_int (int k + int q) = int (k + q)" if "k + q < 2 ^ 31" for q
      using that by (subst wrap_int_id) simp_all
    from this [of ?p] have "wrap_int (int k + int ?p) = int (k + ?p)" using Cons.prems by simp
    ultimately have turn: "wrap_int (int k + uint (ds_cnt (stat_head r) * row_cnt d)) = int (k + ?p)" by simp
    show ?case
      unfolding foldl.simps turn using Cons.IH [of "k + ?p"] Cons.prems
      by (simp only: list.map sum_list.Cons add.assoc)
  qed simp
  from this [of 0 "rra_def r"] show ?thesis using assms by (simp add: unknown_count_def total_values_def)
qed

section \<open>The data area\<close>

lemma write_unknown_ok:
  assumes "pos (dbfile w) = header_len (dbfile w) + sizeof_value * k"
    and "header_len (dbfile w) + sizeof_value * (k + n) \<le> file_len (dbfile w)"
    and "k + n \<le> length (vals (dbfile w))"
  shows "\<exists>p. write_unknown (int n) w = Some (True,
      w\<lparr>dbfile := (dbfile w)\<lparr>vals := overwrite k (replicate n DNAN) (vals (dbfile w)), pos := p\<rparr>\<rparr>)"
  using assms
proof (induction n arbitrary: k w rule: less_induct)
  case (less n)
  show ?case
  proof (cases "n = 0")
    case True
    then show ?thesis by (subst write_unknown.simps) (auto simp: overwrite_def intro!: exI [of _ "pos (dbfile w)"])
  next
    case False
    define m where "m = min n 512"
    have m: "0 < m" "m \<le> n" using False by (auto simp: m_def)
    let ?w = "w\<lparr>dbfile := (dbfile w)\<lparr>vals := overwrite k (replicate m DNAN) (vals (dbfile w)),
        pos := pos (dbfile w) + sizeof_value * m\<rparr>\<rparr>"
    have wr: "rrd_write w (replicate m DNAN) = Some (int (sizeof_value * m), ?w)"
      using rrd_write_aligned [OF less.prems(1), of "replicate m DNAN"] less.prems(1,2) m
      by (simp add: sizeof_value_def)
    have len: "length (overwrite k (replicate m DNAN) (vals (dbfile w))) = length (vals (dbfile w))"
      using less.prems(3) m by (intro length_overwrite) simp
    have join: "overwrite (k + m) (replicate (n - m) DNAN) (overwrite k (replicate m DNAN) (vals (dbfile w))) =
        overwrite k (replicate n DNAN) (vals (dbfile w))"
    proof -
      have "replicate m DNAN @ replicate (n - m) DNAN = replicate n DNAN"
        using m by (simp add: replicate_add [symmetric])
      moreover have "overwrite (k + m) (replicate (n - m) DNAN) (overwrite k (replicate m DNAN) (vals (dbfile w))) =
          take k (vals (dbfile w)) @ (replicate m DNAN @ replicate (n - m) DNAN) @ drop (k + n) (vals (dbfile w))"
        using less.prems(3) m by (simp add: overwrite_def add.commute)
      ultimately show ?thesis by (simp only: overwrite_def length_replicate)
    qed
    have e: "nat (min (int n) 512) = m" by (auto simp: m_def)
    have "\<exists>p. write_unknown (int (n - m)) ?w = Some (True,
        ?w\<lparr>dbfile := (dbfile ?w)\<lparr>vals := overwrite (k + m) (replicate (n - m) DNAN) (vals (dbfile ?w)), pos := p\<rparr>\<rparr>)"
      using less.prems len m by (intro less.IH) (auto simp: sizeof_value_def)
    moreover have "write_unknown (int n - 512) ?w = write_unknown (int (n - m)) ?w"
      by (cases "n \<le> 512") (simp add: m_def write_unknown.simps, simp add: m_def of_nat_diff)
    moreover have "write_unknown (int n) w = write_unknown (int n - 512) ?w"
      using False wr e by (subst write_unknown.simps) (simp add: sizeof_value_def)
    ultimately show ?thesis by (simp add: join)
  qed
qed

lemma write_unknown_db: "write_unknown n w = Some (ok, w') \<Longrightarrow> db w' = db w"
proof (induction n w rule: write_unknown.induct)
  case (1 n w)
  have db: "rrd_write w vs = Some (got, w1) \<Longrightarrow> db w1 = db w" for vs got w1
    by (auto simp: rrd_write_def Let_def rrd_set_error_def rrd_clear_error_def split: if_splits option.splits)
  show ?case
    using "1.prems" "1.IH" by (subst (asm) write_unknown.simps)
      (auto split: if_splits option.splits dest: db)
qed

section \<open>The header\<close>

lemma initial_cdps_shape:
  "initial_cdps r ds s c = Some (cs, c') \<Longrightarrow> length s = 10 \<Longrightarrow>
     length cs = length ds * n_ds r \<and> (\<forall>p \<in> set cs. length p = 10)"
proof (induction ds arbitrary: s c cs)
  case (Cons d ds)
  then obtain s1 c1 rest where s1: "initial_cdp r d s c = Some (s1, c1)"
    and rest: "initial_cdps r ds s1 c1 = Some (rest, c')" and cs: "cs = replicate (n_ds r) s1 @ rest"
    by (auto split: option.splits prod.splits)
  have "length s1 = 10"
    using s1 Cons.prems(2)
    by (auto simp: initial_cdp_def Let_def init_hwpredict_cdp_def init_seasonal_cdp_def MAX_CDP_PAR_EN_def
        split: if_splits prod.splits)
  from Cons.IH [OF rest this] this show ?case by (auto simp: cs)
qed simp

lemma initial_rows_shape:
  "initial_rows e i ds = Some ps \<Longrightarrow>
     length ps = length ds \<and> (\<forall>k < length ds. unat (ps ! k) < unat (row_cnt (ds ! k)))"
proof (induction ds arbitrary: i ps)
  case (Cons d ds)
  then obtain k rest where k: "rrd_select_initial_row e i d = Some k"
    and rest: "initial_rows e (Suc i) ds = Some rest" and ps: "ps = k # rest"
    by (auto split: option.splits)
  have "row_cnt d \<noteq> 0" "k = of_nat (rrd_random e i) mod row_cnt d"
    using k by (auto simp: rrd_select_initial_row_def split: if_splits)
  then have "unat k < unat (row_cnt d)" by (simp add: unat_mod unat_gt_0)
  with Cons.IH [OF rest] show ?case by (auto simp: ps nth_Cons split: nat.splits)
qed simp

text \<open>A section that fits.\<close>

lemma map_section_fits:
  "a + sz * n \<le> flen \<Longrightarrow> flen < 2 ^ 64 \<Longrightarrow>
     map_section nm sz (of_nat n) flen (Inr (of_nat a)) = Inr (of_nat (a + sz * n))"
proof -
  assume b: "a + sz * n \<le> flen" "flen < 2 ^ 64"
  have "(of_nat a + of_nat sz * of_nat n :: ulong) = of_nat (a + sz * n)" by simp
  moreover have "unat (of_nat (a + sz * n) :: ulong) = a + sz * n"
    using b by (simp add: unat_of_nat take_bit_nat_eq_self del: of_nat_add of_nat_mult)
  ultimately show ?thesis using b(1) by (simp add: map_section_def del: of_nat_add of_nat_mult)
qed

lemma float_cookie_ok: "feq FLOAT_COOKIE FLOAT_COOKIE"
proof -
  define n where "n = (8642135 * 10 ^ 124 :: int)"
  have n: "0 < n" by (simp add: n_def)
  have cookie: "FLOAT_COOKIE = mk_dbl False (round_mag n 1 0)"
    using n unfolding FLOAT_COOKIE_def dlit_def n_def by (simp only: abs_of_pos not_less_iff_gr_or_eq) simp
  have "mag FLOAT_COOKIE \<le> inf_mag"
    unfolding cookie using round_mag_le [of n 1 0] round_mag_pos [of n 0] n
    by (subst mag_mk_dbl_small) simp_all
  then show ?thesis by (simp add: feq_def isnan_def)
qed

lemma header_versions: "atoi ''0003'' = 3" "atoi ''0004'' = 4"
  by code_simp+

lemma check_that_True: "check_that True m res = res"
  by (simp add: check_that_def split: sum.split)

lemma map_header_created:
  assumes r: "img_rrd im = r" "head_valid (stat_head r)"
    and len: "created_header_len r \<le> img_len im" "img_len im < 2 ^ 64"
  shows "rrd_map_header fn im = Inr (of_nat (created_header_len r))"
proof -
  define d a where da: "d = n_ds r" "a = n_rra r"
  let ?n = "img_len im"
  have cnts: "ds_cnt (stat_head r) = of_nat d" "rra_cnt (stat_head r) = of_nat a"
    "rra_cnt (stat_head r) * ds_cnt (stat_head r) = of_nat (a * d)" by (simp_all add: da)
  have h: "created_header_len r = 128 + 120 * d + 120 * a + 16 + 112 * d + 80 * (a * d) + 8 * a"
    by (simp add: da created_header_len_def rrd_get_header_size_def sizeof_defs algebra_simps)
  note fits = len [unfolded h]
  have s1: "map_section nm 128 1 ?n (Inr 0) = Inr (of_nat 128)" for nm
    using map_section_fits [of 0 128 1 ?n nm] fits by simp
  have s2: "map_section nm 120 (of_nat d) ?n (Inr (of_nat 128)) = Inr (of_nat (128 + 120 * d))" for nm
    using fits by (intro map_section_fits) auto
  have s3: "map_section nm 120 (of_nat a) ?n (Inr (of_nat (128 + 120 * d)))
      = Inr (of_nat (128 + 120 * d + 120 * a))" for nm
    using fits by (intro map_section_fits) auto
  have s4: "map_section nm 16 1 ?n (Inr (of_nat (128 + 120 * d + 120 * a)))
      = Inr (of_nat (128 + 120 * d + 120 * a + 16))" for nm
    using map_section_fits [of "128 + 120 * d + 120 * a" 16 1 ?n nm] fits by simp
  have s5: "map_section nm 112 (of_nat d) ?n (Inr (of_nat (128 + 120 * d + 120 * a + 16)))
      = Inr (of_nat (128 + 120 * d + 120 * a + 16 + 112 * d))" for nm
    using fits by (intro map_section_fits) auto
  have s6: "map_section nm 80 (of_nat (a * d)) ?n
        (Inr (of_nat (128 + 120 * d + 120 * a + 16 + 112 * d)))
      = Inr (of_nat (128 + 120 * d + 120 * a + 16 + 112 * d + 80 * (a * d)))" for nm
    using fits by (intro map_section_fits) auto
  have s7: "map_section nm 8 (of_nat a) ?n
        (Inr (of_nat (128 + 120 * d + 120 * a + 16 + 112 * d + 80 * (a * d))))
      = Inr (of_nat (created_header_len r))" for nm
    unfolding h using fits by (intro map_section_fits) auto
  have ver: "3 \<le> atoi (version (stat_head r))" "atoi (version (stat_head r)) \<le> atoi RRD_VERSION"
    using r(2) by (auto simp: head_valid_def RRD_VERSION_def RRD_VERSION3_def header_versions)
  have old: "(atoi (version (stat_head r)) < 3) = False" using ver(1) by simp
  have checks: "cookie (stat_head r) = RRD_COOKIE" "feq (float_cookie (stat_head r)) FLOAT_COOKIE"
    using r(2) float_cookie_ok by (auto simp: head_valid_def)
  then have checks: "(cookie (stat_head r) = RRD_COOKIE) = True"
    "feq (float_cookie (stat_head r)) FLOAT_COOKIE = True"
    "(atoi (version (stat_head r)) \<le> atoi RRD_VERSION) = True" using ver(2) by simp_all
  show ?thesis
    unfolding rrd_map_header_def Let_def r(1) cnts(3)
    unfolding cnts(1,2) sizeof_defs s1
    by (simp only: checks check_that_True s2 s3 s4 s5 s6 s7 old if_False)
qed

section \<open>Opening what was created\<close>

lemma correct_len_total:
  assumes "length (rra_def r) = n_rra r"
  shows "correct_len (of_nat h) r = of_nat (h + sizeof_value * total_values r)"
proof -
  have "sum_list (map row_cnt ds) * ds_cnt (stat_head r) =
      of_nat (sum_list (map (\<lambda>d. n_ds r * unat (row_cnt d)) ds))" for ds
    by (induction ds) (simp_all add: algebra_simps)
  from this [of "rra_def r"] show ?thesis
    unfolding correct_len_def total_values_def assms [symmetric] take_all [OF order_refl] mult.assoc
    by (simp only: of_nat_add of_nat_mult)
qed

text \<open>The state of a created file: the header lists have the announced lengths, and all values of
  the archives are unknown.\<close>

definition fresh :: "rrd_t \<Rightarrow> dbl list \<Rightarrow> bool" where
  "fresh r xs \<longleftrightarrow> wf_rrd r \<and> wf_rows r \<and> (\<exists>ys. xs = replicate (total_values r) DNAN @ ys)"

lemma fresh_rows:
  assumes "fresh r (vals f)" "i < n_rra r" "row < n_rows r i"
  shows "rra_row r f i row = replicate (n_ds r) DNAN"
proof -
  obtain ys where ys: "vals f = replicate (total_values r) DNAN @ ys" using assms(1) by (auto simp: fresh_def)
  have t: "rra_base r (n_rra r) = total_values r"
    using assms(1) by (intro rra_base_total) (simp add: fresh_def wf_rrd_def)
  have "rra_base r i + row * n_ds r + n_ds r \<le> total_values r"
    using row_end [OF assms(3)] rra_base_disjoint [OF assms(2), of r] t by linarith
  then show ?thesis by (simp add: rra_row_def ys min_def)
qed

lemma create_fn_fresh:
  assumes run: "rrd_create_fn e keep fn r c = Some (0, Some (Opened im), c')"
    and r: "defs_valid k r" "k < 2 ^ 40" and small: "total_values r < 2 ^ 31"
  shows "fresh (img_rrd im) (img_vals im)" "same_defs r (img_rrd im)" "live_head (img_rrd im) = live_head r"
    "img_len im = rrd_get_header_size r + sizeof_value * total_values r"
    "length (img_vals im) = Suc (total_values r)"
proof -
  have nd: "n_ds r = length (ds_def r)" and na: "n_rra r = length (rra_def r)"
    using r by (auto simp: defs_valid_def unat_of_nat take_bit_nat_eq_self)
  obtain cdps c1 ptrs where cd: "initial_cdps r (rra_def r) (replicate MAX_CDP_PAR_EN 0) c = Some (cdps, c1)"
    and pt: "initial_rows e 0 (rra_def r) = Some ptrs"
    and size: "rrd_get_header_size r \<le> unat (newfile_size r)"
    using run by (auto simp: rrd_create_fn_def Let_def split: option.splits if_splits prod.splits)
  let ?fl = "rrd_get_header_size r + sizeof_value * total_values r" let ?hl = "created_header_len r"
  note fl = newfile_size_total [OF small size]
  have hl: "rrd_get_header_size r = ?hl + 8" by (simp add: created_header_len_def rrd_get_header_size_def sizeof_defs)
  define r1 where "r1 = r\<lparr>pdp_prep := replicate (n_ds r) (initial_pdp r), cdp_prep := cdps, rra_ptr := ptrs\<rparr>"
  define w where "w = \<lparr>rrd_error = rrd_error c1, lc_numeric = lc_numeric c1, clock_readings = clock_readings c1,
      db = r1, dbfile = \<lparr>header_len = ?hl, file_len = ?fl, pos = ?hl,
        vals = replicate ((?fl - ?hl) div sizeof_value) 0\<rparr>\<rparr>"
  have cells: "(?fl - ?hl) div sizeof_value = Suc (total_values r)" using hl by (simp add: sizeof_value_def)
  obtain p where wr: "write_unknown (int (total_values r)) w = Some (True, w\<lparr>dbfile := (dbfile w)\<lparr>
      vals := overwrite 0 (replicate (total_values r) DNAN) (vals (dbfile w)), pos := p\<rparr>\<rparr>)"
    using write_unknown_ok [of w 0 "total_values r"] hl cells by (auto simp: w_def)
  have im: "im = \<lparr>img_len = ?fl, img_rrd = r1,
      img_vals = overwrite 0 (replicate (total_values r) DNAN) (replicate (Suc (total_values r)) 0)\<rparr>"
    using run cd pt wr fl cells
    by (auto simp: rrd_create_fn_def Let_def unknown_count_total [OF small] r1_def [symmetric]
        w_def split: option.splits if_splits)
  have rows: "wf_rows r1"
    using initial_rows_shape [OF pt] na by (auto simp: wf_rows_def r1_def)
  have wf: "wf_rrd r1"
    using initial_cdps_shape [OF cd] initial_rows_shape [OF pt] r(1) nd na
    by (auto simp: wf_rrd_def r1_def defs_valid_def ds_valid_def rra_valid_def initial_pdp_def MAX_CDP_PAR_EN_def)
  have total: "total_values r1 = total_values r" by (simp add: total_values_def r1_def)
  show "fresh (img_rrd im) (img_vals im)" using wf rows by (auto simp: im fresh_def total overwrite_def)
  show "same_defs r (img_rrd im)" "live_head (img_rrd im) = live_head r" "img_len im = ?fl"
    "length (img_vals im) = Suc (total_values r)"
    by (simp_all add: im r1_def same_defs_def overwrite_def)
qed

text \<open>A file as the creation leaves it and as every update keeps it.\<close>

definition image_ok :: "rrd_image \<Rightarrow> bool" where
  "image_ok im \<longleftrightarrow> head_valid (stat_head (img_rrd im)) \<and> wf_rrd (img_rrd im) \<and> wf_rows (img_rrd im) \<and>
     img_len im = rrd_get_header_size (img_rrd im) + sizeof_value * total_values (img_rrd im) \<and>
     length (img_vals im) = Suc (total_values (img_rrd im)) \<and> img_len im < 2 ^ 64"

text \<open>Opening such a file gives its header, the values, and the frame the archives need.\<close>

lemma open_image_ok:
  assumes "image_ok im"
  shows "\<exists>f. rrd_open fn (Opened im) c = (Some (img_rrd im, f), c) \<and> vals f = img_vals im \<and>
           wf_file (img_rrd im) f \<and> file_len f = img_len im \<and>
           header_len f = created_header_len (img_rrd im)"
proof -
  let ?r = "img_rrd im" let ?hl = "created_header_len ?r"
  have ok: "head_valid (stat_head ?r)" "wf_rrd ?r"
    "img_len im = rrd_get_header_size ?r + sizeof_value * total_values ?r"
    "length (img_vals im) = Suc (total_values ?r)" "img_len im < 2 ^ 64"
    using assms by (auto simp: image_ok_def)
  have hl: "rrd_get_header_size ?r = ?hl + 8" by (simp add: created_header_len_def rrd_get_header_size_def sizeof_defs)
  have h: "rrd_map_header fn im = Inr (of_nat ?hl)"
    using ok(1,3,5) hl by (intro map_header_created) auto
  have n: "length (rra_def ?r) = n_rra ?r" using ok(2) by (simp add: wf_rrd_def)
  have len: "unat (correct_len (of_nat ?hl) ?r) = ?hl + sizeof_value * total_values ?r"
    unfolding correct_len_total [OF n] using ok(3,5) hl
    by (simp add: unat_of_nat take_bit_nat_eq_self del: of_nat_add of_nat_mult)
  have hlw: "unat (of_nat ?hl :: ulong) = ?hl" using ok(3,5) hl by (simp add: unat_of_nat take_bit_nat_eq_self)
  have ver: "\<not> atoi (version (stat_head ?r)) < 3"
    using ok(1) by (auto simp: head_valid_def RRD_VERSION_def RRD_VERSION3_def header_versions)
  let ?f = "\<lparr>header_len = ?hl, file_len = img_len im, pos = ?hl, vals = img_vals im\<rparr>"
  have "rrd_open fn (Opened im) c = (Some (?r, ?f), c)"
    using h ver len hl ok(3) by (simp add: rrd_open_def hlw Let_def)
  moreover have "wf_file ?r ?f"
    using ok(3,4) hl rra_base_total [OF n] by (simp add: wf_file_def sizeof_value_def)
  ultimately show ?thesis by (intro exI [of _ ?f]) simp
qed

section \<open>Creation succeeds\<close>

lemma initial_cdps_exist:
  "\<forall>d \<in> set ds. map_of cf_table (cf_nam d) \<noteq> None \<and> pdp_step (stat_head r) * pdp_cnt d \<noteq> 0 \<Longrightarrow>
     \<exists>cs. initial_cdps r ds s c = Some (cs, c)"
proof (induction ds arbitrary: s)
  case (Cons d ds)
  then obtain cf where cf: "cf_conv (cf_nam d) c = (Some cf, c)" by (auto simp: cf_conv_known)
  have "\<exists>s1. initial_cdp r d s c = Some (s1, c)"
    using Cons.prems cf by (simp add: initial_cdp_def Let_def)
  then obtain s1 where "initial_cdp r d s c = Some (s1, c)" by blast
  moreover obtain cs where "initial_cdps r ds s1 c = Some (cs, c)" using Cons.IH [of s1] Cons.prems by auto
  ultimately show ?case by simp
qed simp

lemma initial_rows_exist: "\<forall>d \<in> set ds. row_cnt d \<noteq> 0 \<Longrightarrow> \<exists>ps. initial_rows e i ds = Some ps"
proof (induction ds arbitrary: i)
  case (Cons d ds)
  then obtain ps where "initial_rows e (Suc i) ds = Some ps" by auto
  with Cons.prems show ?case by (simp add: rrd_select_initial_row_def)
qed simp

lemma header_size_small:
  assumes "defs_valid k r" "k \<le> 2 ^ 20"
  shows "rrd_get_header_size r < 2 ^ 60"
proof -
  have nd: "n_ds r \<le> 2 ^ 20" and na: "n_rra r \<le> 5 * 2 ^ 20"
    using assms by (auto simp: defs_valid_def unat_of_nat take_bit_nat_eq_self)
  then have "n_ds r * n_rra r \<le> 2 ^ 20 * (5 * 2 ^ 20)" by (rule mult_le_mono)
  with nd na show ?thesis by (simp add: rrd_get_header_size_def sizeof_defs mult.assoc)
qed

lemma create_fn_succeeds:
  assumes "open_new e keep = None" "pdp_step (stat_head r) \<noteq> 0"
    and "\<forall>d \<in> set (rra_def r). row_cnt d \<noteq> 0 \<and> pdp_step (stat_head r) * pdp_cnt d \<noteq> 0"
    and r: "defs_valid k r" "k \<le> 2 ^ 20" and small: "total_values r < 2 ^ 31"
  shows "\<exists>im c'. rrd_create_fn e keep fn r c = Some (0, Some (Opened im), c')"
proof -
  obtain cdps where cd: "initial_cdps r (rra_def r) (replicate MAX_CDP_PAR_EN 0) c = Some (cdps, c)"
    using initial_cdps_exist [of "rra_def r" r "replicate MAX_CDP_PAR_EN 0" c] assms(3) r(1)
    by (simp add: defs_valid_def rra_valid_def) blast
  obtain ptrs where pt: "initial_rows e 0 (rra_def r) = Some ptrs" using initial_rows_exist assms(3) by blast
  have "rrd_get_header_size r + sizeof_value * total_values r < 2 ^ 64"
    using header_size_small [OF r] small by (simp add: sizeof_value_def)
  then have "unat (newfile_size r) = rrd_get_header_size r + sizeof_value * total_values r"
    by (simp add: newfile_size_def value_cnt_total unat_of_nat take_bit_nat_eq_self flip: of_nat_add of_nat_mult)
  then have size: "\<not> unat (newfile_size r) < rrd_get_header_size r" by simp
  note fl = newfile_size_total [OF small] size
  have hl: "rrd_get_header_size r = created_header_len r + 8"
    by (simp add: created_header_len_def rrd_get_header_size_def sizeof_defs)
  define w where "w = \<lparr>rrd_error = rrd_error c, lc_numeric = lc_numeric c, clock_readings = clock_readings c,
      db = r\<lparr>pdp_prep := replicate (n_ds r) (initial_pdp r), cdp_prep := cdps, rra_ptr := ptrs\<rparr>,
      dbfile = \<lparr>header_len = created_header_len r, file_len = unat (newfile_size r), pos = created_header_len r,
        vals = replicate ((unat (newfile_size r) - created_header_len r) div sizeof_value) 0\<rparr>\<rparr>"
  obtain p where wr: "write_unknown (int (total_values r)) w = Some (True, w\<lparr>dbfile := (dbfile w)\<lparr>
      vals := overwrite 0 (replicate (total_values r) DNAN) (vals (dbfile w)), pos := p\<rparr>\<rparr>)"
    using write_unknown_ok [of w 0 "total_values r"] hl fl by (auto simp: w_def sizeof_value_def)
  show ?thesis
    using assms(1,2) size cd pt wr
    by (auto simp: rrd_create_fn_def Let_def unknown_count_total [OF small] w_def [symmetric])
qed

section \<open>Databases that can come about\<close>

lemma total_same_defs: "same_defs r r' \<Longrightarrow> total_values r' = total_values r"
  by (simp add: same_defs_def total_values_def)

lemma header_same_defs: "same_defs r r' \<Longrightarrow> rrd_get_header_size r' = rrd_get_header_size r"
  by (simp add: same_defs_def rrd_get_header_size_def)

lemma update_image_ok:
  assumes "image_ok im" "rrd_update_file env locked fn tmplt args sm (Opened im) c = Some (rc, sm', so, c')"
  shows "\<exists>im'. so = Opened im' \<and> image_ok im' \<and> same_defs (img_rrd im) (img_rrd im')"
proof (cases "args = []")
  case True
  then show ?thesis using assms by (auto simp: rrd_update_file_def)
next
  case False
  obtain f where f: "rrd_open fn (Opened im) c = (Some (img_rrd im, f), c)" "wf_file (img_rrd im) f"
    "file_len f = img_len im" "header_len f = created_header_len (img_rrd im)"
    using open_image_ok [OF assms(1)] by blast
  let ?w = "open_world c (img_rrd im) f"
  have ok: "db_ok ?w" using assms(1) f(2) by (simp add: db_ok_def image_ok_def open_world_def)
  obtain w where up: "update_open_db env locked fn tmplt args sm ?w = Some (rc, sm', w)" and so: "so = Opened (image_of w)"
    using assms(2) False f(1) by (auto simp: rrd_update_file_def split: option.splits)
  have fr: "framed ?w w" by (rule update_open_db_frame [OF up])
  then have same: "same_defs (img_rrd im) (db w)" and w: "db_ok w"
    "header_len (dbfile w) = created_header_len (img_rrd im)" "file_len (dbfile w) = img_len im"
    using ok f(3,4) by (auto simp: framed_def open_world_def)
  have hl: "rrd_get_header_size (img_rrd im) = created_header_len (img_rrd im) + 8"
    by (simp add: created_header_len_def rrd_get_header_size_def sizeof_defs)
  have "length (vals (dbfile w)) = Suc (total_values (db w))"
    using w assms(1) hl total_same_defs [OF same]
    by (simp add: db_ok_def wf_file_def image_ok_def sizeof_value_def)
  then have "image_ok (image_of w)"
    using assms(1) w same total_same_defs [OF same] header_same_defs [OF same]
    by (simp add: image_ok_def image_of_def db_ok_def same_defs_def)
  then show ?thesis using so same by (simp add: image_of_def)
qed

text \<open>The files that creations and updates, in any number and with any outcome, lead to.\<close>

inductive reachable_db :: "rrd_image \<Rightarrow> bool" where
  reach_create: "rrd_create_r e keep fn st t args c = Some (0, Some (Opened im), c') \<Longrightarrow>
     length args \<le> 2 ^ 20 \<Longrightarrow> total_values (img_rrd im) < 2 ^ 31 \<Longrightarrow> reachable_db im"
| reach_update: "reachable_db im \<Longrightarrow>
     rrd_update_file env locked fn tmplt args sm (Opened im) c = Some (rc, sm', Opened im', c') \<Longrightarrow>
     reachable_db im'"

lemma create_r_parts:
  assumes "rrd_create_r e keep fn st t args c = Some (0, Some (Opened im), c')" "length args \<le> 2 ^ 20"
  obtains r c1 where "create_args args (FnvHash fn) 0 (empty_rrd st t) c = Some (True, r, c1)"
    "rrd_create_fn e keep fn r c1 = Some (0, Some (Opened im), c')" "defs_valid (length args) r"
    "same_run (empty_rrd st t) r"
proof -
  obtain r c1 where r: "create_args args (FnvHash fn) 0 (empty_rrd st t) c = Some (True, r, c1)"
    "rrd_create_fn e keep fn r c1 = Some (0, Some (Opened im), c')"
    using assms(1) by (auto simp: rrd_create_r_def split: option.splits bool.splits if_splits)
  from create_args_valid [OF r(1) empty_rrd_valid] assms(2) that r show thesis by simp
qed

lemma create_image_ok:
  assumes "rrd_create_r e keep fn st t args c = Some (0, Some (Opened im), c')" "length args \<le> 2 ^ 20"
    and "total_values (img_rrd im) < 2 ^ 31"
  shows "image_ok im" "fresh (img_rrd im) (img_vals im)"
    "live_head (img_rrd im) = \<lparr>last_up = t, last_up_usec = 0\<rparr>" "pdp_step (stat_head (img_rrd im)) = st"
proof -
  obtain r c1 where fn: "rrd_create_fn e keep fn r c1 = Some (0, Some (Opened im), c')"
    and v: "defs_valid (length args) r" and run: "same_run (empty_rrd st t) r"
    using create_r_parts [OF assms(1,2)] by metis
  have k: "length args < 2 ^ 40" using assms(2) by simp
  have defs: "same_defs r (img_rrd im)"
    using fn by (auto simp: rrd_create_fn_def Let_def same_defs_def dest!: write_unknown_db
        split: option.splits if_splits prod.splits)
  have small: "total_values r < 2 ^ 31" using assms(3) total_same_defs [OF defs] by simp
  note fr = create_fn_fresh [OF fn v k small]
  have "img_len im < 2 ^ 64"
    using fr(4) header_size_small [OF v assms(2)] small by (simp add: sizeof_value_def)
  then show "image_ok im"
    using fr v total_same_defs [OF defs] header_same_defs [OF defs] defs
    by (simp add: image_ok_def fresh_def defs_valid_def same_defs_def)
  show "fresh (img_rrd im) (img_vals im)" by (rule fr(1))
  show "live_head (img_rrd im) = \<lparr>last_up = t, last_up_usec = 0\<rparr>" "pdp_step (stat_head (img_rrd im)) = st"
    using fr(3) run defs by (simp_all add: same_run_def empty_rrd_def same_defs_def)
qed

lemma reachable_ok: "reachable_db im \<Longrightarrow> image_ok im"
proof (induction rule: reachable_db.induct)
  case (reach_create e keep fn st t args c im c')
  then show ?case by (rule create_image_ok(1))
next
  case (reach_update im env locked fn tmplt args sm c rc sm' im' c')
  from update_image_ok [OF reach_update.IH reach_update.hyps(2)] show ?case by auto
qed

end
