(* ===== verification/Create_Spec.thy ===== *)
theory Create_Spec
  imports Create_File
begin

text \<open>
  The properties of creating a database, and the hash it derives the schedule of the smoothers
  from.
\<close>

section \<open>A small creation\<close>

definition new_args :: "string list" where
  "new_args = [''DS:t:GAUGE:600:U:U'', ''RRA:LAST:0:1:3'']"
definition new_rrd :: rrd_t where
  "new_rrd = (empty_rrd 300 1200000000)\<lparr>
     stat_head := (stat_head (empty_rrd 300 1200000000))\<lparr>ds_cnt := 1, rra_cnt := 1\<rparr>,
     ds_def := [\<lparr>ds_nam = ''t'', dst = ''GAUGE'', ds_par = [600, DNAN, DNAN, 0, 0, 0, 0, 0, 0, 0]\<rparr>],
     rra_def := [\<lparr>cf_nam = ''LAST'', row_cnt = 3, pdp_cnt = 1, rra_par = replicate 10 0\<rparr>]\<rparr>"
lemma new_scan: "scan_ds ''t:GAUGE:600:U:U'' = (4, ''t'', ''GAUGE'', ''600:U:U'')" by code_simp
lemma new_generic: "scan_generic ''600:U:U'' = (Some 600, Some (''U'', ''U''))" by code_simp
lemma new_dst: "dst_conv ''GAUGE'' init_ctx = (Some DST_GAUGE, init_ctx)" by code_simp
lemma new_ctx: "rrd_error init_ctx = []" "setlocale (lc_numeric init_ctx) (setlocale l init_ctx) = init_ctx"
  by (simp_all add: init_ctx_def setlocale_def)
lemma ten_zeros: "replicate 10 (0::64 word) = [0,0,0,0,0,0,0,0,0,0]" by (simp add: numeral_eq_Suc)
lemma new_ds: "create_ds ''t:GAUGE:600:U:U'' (empty_rrd 300 1200000000) init_ctx =
  Some (True, new_rrd\<lparr>rra_def := [], stat_head := (stat_head new_rrd)\<lparr>rra_cnt := 0\<rparr>\<rparr>, init_ctx)"
  by (simp add: create_ds_def new_scan new_dst parseGENERIC_DS_def new_generic limit_of_def set_ds_par_def new_rrd_def empty_rrd_def
   rrd_test_error_def zero_ds_def new_ctx Let_def ten_zeros)
lemma new_tokens: "tokens ''LAST:0:1:3'' = [''LAST'', ''0'', ''1'', ''3'']" by code_simp
lemma new_rra: "rra_tokens [''LAST'', ''0'', ''1'', ''3''] 0 h 0 
   \<lparr>rp_def = zero_rra, rp_version = RRD_VERSION3, rp_period = 0, rp_min = 4\<rparr> init_ctx =
   Some (True, 4, \<lparr>rp_def = \<lparr>cf_nam = ''LAST'', row_cnt = 3, pdp_cnt = 1, rra_par = replicate 10 0\<rparr>, rp_version = RRD_VERSION3, rp_period = 0, rp_min = 4\<rparr>, init_ctx)"
  by code_simp

definition new_ds_rrd :: rrd_t where
  "new_ds_rrd = new_rrd\<lparr>rra_def := [], stat_head := (stat_head new_rrd)\<lparr>rra_cnt := 0\<rparr>\<rparr>"

lemma new_create_args:
  "create_args new_args h 0 (empty_rrd 300 1200000000) init_ctx = Some (True, new_rrd, init_ctx)"
proof -
  have "create_args new_args h 0 (empty_rrd 300 1200000000) init_ctx =
      create_args [''RRA:LAST:0:1:3''] h 0 new_ds_rrd init_ctx"
    by (simp add: new_args_def new_ds new_ds_rrd_def)
  moreover have "cf_conv ''LAST'' init_ctx = (Some CF_LAST, init_ctx)" by code_simp
  ultimately show ?thesis
    by (simp add: create_rra_def Let_def new_tokens new_rra is_hw_def new_ds_rrd_def new_rrd_def empty_rrd_def
        del: rra_tokens.simps)
qed

lemma new_total: "total_values new_rrd = 3"
  by (simp add: total_values_def new_rrd_def)

definition new_env :: create_env where
  "new_env = \<lparr>open_new = \<lambda>excl. None, rrd_random = \<lambda>i. 7 * i + 1\<rparr>"

section \<open>Creation succeeds\<close>

lemma creation_ok:
  assumes "create_args args (FnvHash fn) 0 (empty_rrd st t) c = Some (True, r, c1)"
    and "length args \<le> 2 ^ 20" and "open_new e keep = None" and "st \<noteq> 0"
    and "\<forall>d \<in> set (rra_def r). row_cnt d \<noteq> 0 \<and> st * pdp_cnt d \<noteq> 0" and "total_values r < 2 ^ 31"
    and "0 < n_ds r" "0 < n_rra r"
  shows "\<exists>im c'. rrd_create_r e keep fn st t args c = Some (0, Some (Opened im), c') \<and>
           same_defs r (img_rrd im)"
proof -
  have v: "defs_valid (length args) r" "same_run (empty_rrd st t) r"
    using create_args_valid [OF assms(1) empty_rrd_valid] assms(2) by auto
  then have st: "pdp_step (stat_head r) = st" by (simp add: same_run_def empty_rrd_def)
  have cnt: "\<not> rra_cnt (stat_head r) < 1" "\<not> ds_cnt (stat_head r) < 1"
    using assms(7,8) by (auto simp: word_less_nat_alt)
  obtain im c' where fn: "rrd_create_fn e keep fn r c1 = Some (0, Some (Opened im), c')"
    using create_fn_succeeds [OF assms(3) _ _ v(1) assms(2,6), of fn c1] assms(4,5) st by auto
  moreover have "length args < 2 ^ 40" using assms(2) by simp
  note create_fn_fresh(2) [OF fn v(1) this assms(6)]
  ultimately show ?thesis using assms(1) cnt by (simp add: rrd_create_r_def)
qed

lemma new_hyps:
  "length new_args \<le> 2 ^ 20" "open_new new_env True = None" "(300 :: ulong) \<noteq> 0"
  "\<forall>d \<in> set (rra_def new_rrd). row_cnt d \<noteq> 0 \<and> 300 * pdp_cnt d \<noteq> 0"
  "total_values new_rrd < 2 ^ 31" "0 < n_ds new_rrd" "0 < n_rra new_rrd"
  by (simp_all add: new_args_def new_env_def new_rrd_def total_values_def)

lemmas new_creation = creation_ok [OF new_create_args new_hyps, of "''a.rrd''"]

section \<open>The properties\<close>

text \<open>C18. The definitions of a created database obey the rules of the format. When the arguments of a
  creation are accepted, the announced counts are the numbers of definitions, the data sources
  have distinct non-empty names of less than 20 characters from the name alphabet and a known
  type, every archive has a known consolidation function and at least one primary data point per
  row, and the version and cookies are ones that opening accepts.\<close>

theorem created_definitions_valid:
  assumes "create_args args h 0 (empty_rrd st t) c = Some (True, r, c')" and "length args < 2 ^ 40"
  shows "length (ds_def r) = n_ds r \<and> length (rra_def r) = n_rra r \<and>
         distinct (map ds_nam (ds_def r)) \<and> (\<forall>d \<in> set (ds_def r). ds_valid d) \<and>
         (\<forall>d \<in> set (rra_def r). rra_valid d) \<and> head_valid (stat_head r)"
  using create_args_valid [OF assms(1) empty_rrd_valid] assms(2)
  by (auto simp: defs_valid_def unat_of_nat take_bit_nat_eq_self)

theorem created_definitions_valid_witness:
  "create_args new_args (FnvHash ''a.rrd'') 0 (empty_rrd 300 1200000000) init_ctx
     = Some (True, new_rrd, init_ctx) \<and> distinct (map ds_nam (ds_def new_rrd)) \<and> n_ds new_rrd = 1"
proof -
  have "length new_args < 2 ^ 40" by (simp add: new_args_def)
  from created_definitions_valid [OF new_create_args this] show ?thesis
    by (simp add: new_create_args) (simp add: new_rrd_def)
qed

text \<open>C17. Creating a file succeeds. For accepted definitions with at most a million arguments, whose
  archives have rows and whose values number less than 2 to the 31, the initial file is written
  completely and holds these definitions, whatever the initial rows are, provided the system
  creates the file.\<close>

theorem creation_succeeds:
  assumes "create_args args (FnvHash fn) 0 (empty_rrd st t) c = Some (True, r, c1)"
    and "length args \<le> 2 ^ 20" and "open_new e keep = None" and "st \<noteq> 0"
    and "\<forall>d \<in> set (rra_def r). row_cnt d \<noteq> 0 \<and> st * pdp_cnt d \<noteq> 0" and "total_values r < 2 ^ 31"
    and "0 < n_ds r" "0 < n_rra r"
  shows "\<exists>im c'. rrd_create_r e keep fn st t args c = Some (0, Some (Opened im), c') \<and>
           same_defs r (img_rrd im)"
  by (rule creation_ok) (use assms in auto)

theorem creation_succeeds_witness:
  "\<exists>im c'. rrd_create_r new_env True ''a.rrd'' 300 1200000000 new_args init_ctx
     = Some (0, Some (Opened im), c') \<and> same_defs new_rrd (img_rrd im)"
  by (rule creation_succeeds [OF new_create_args new_hyps])

text \<open>C11. A created file opens. A file that a creation reported as written opens under every name as
  a well formed database with the step and the start time asked for, and every row of every
  archive is unknown for every data source.\<close>

theorem created_file_opens:
  assumes "rrd_create_r e keep fn st t args c = Some (0, Some (Opened im), c')"
    and "length args \<le> 2 ^ 20" and "total_values (img_rrd im) < 2 ^ 31"
  shows "\<exists>f. rrd_open fn' (Opened im) c'' = (Some (img_rrd im, f), c'') \<and>
           db_ok (open_world c'' (img_rrd im) f) \<and>
           pdp_step (stat_head (img_rrd im)) = st \<and> last_time (img_rrd im) = (t, 0) \<and>
           (\<forall>i < n_rra (img_rrd im). \<forall>row < n_rows (img_rrd im) i.
              rra_row (img_rrd im) f i row = replicate (n_ds (img_rrd im)) DNAN)"
proof -
  note im = create_image_ok [OF assms]
  obtain f where f: "rrd_open fn' (Opened im) c'' = (Some (img_rrd im, f), c'')" "vals f = img_vals im"
    "wf_file (img_rrd im) f"
    using open_image_ok [OF im(1)] by blast
  have "db_ok (open_world c'' (img_rrd im) f)"
    using im(1) f(3) by (simp add: db_ok_def image_ok_def open_world_def)
  moreover have "rra_row (img_rrd im) f i row = replicate (n_ds (img_rrd im)) DNAN"
    if "i < n_rra (img_rrd im)" "row < n_rows (img_rrd im) i" for i row
    using fresh_rows [OF _ that] im(2) f(2) by simp
  ultimately show ?thesis using f(1) im(3,4) by (auto simp: last_time_def)
qed

lemma new_image_total: "same_defs new_rrd (img_rrd im) \<Longrightarrow> total_values (img_rrd im) < 2 ^ 31"
  using total_same_defs new_total by simp

theorem created_file_opens_witness:
  "\<exists>im f. rrd_open ''b.rrd'' (Opened im) init_ctx = (Some (img_rrd im, f), init_ctx) \<and>
     same_defs new_rrd (img_rrd im) \<and> rra_row (img_rrd im) f 0 2 = [DNAN]"
proof -
  obtain im c' where im: "rrd_create_r new_env True ''a.rrd'' 300 1200000000 new_args init_ctx
      = Some (0, Some (Opened im), c')" "same_defs new_rrd (img_rrd im)"
    using new_creation by blast
  have r: "n_rra (img_rrd im) = 1" "n_rows (img_rrd im) 0 = 3" "n_ds (img_rrd im) = 1"
    using im(2) by (simp_all add: same_defs_def n_rows_def new_rrd_def)
  from created_file_opens [OF im(1) new_hyps(1) new_image_total [OF im(2)], of "''b.rrd''" init_ctx]
  show ?thesis using im(2) r by (intro exI [of _ im]) auto
qed

text \<open>C9. Every database stays openable. A file that creations and updates lead to, in any number,
  with any arguments, successful or not, opens without an error as a well formed database.\<close>

theorem reachable_database_opens:
  assumes "reachable_db im"
  shows "\<exists>f. rrd_open fn (Opened im) c = (Some (img_rrd im, f), c) \<and>
           db_ok (open_world c (img_rrd im) f)"
  using open_image_ok [OF reachable_ok [OF assms], of fn c] reachable_ok [OF assms]
  by (auto simp: db_ok_def image_ok_def open_world_def)

theorem reachable_database_opens_witness:
  "\<exists>im f. reachable_db im \<and> rrd_open ''a.rrd'' (Opened im) init_ctx = (Some (img_rrd im, f), init_ctx)"
proof -
  obtain im c' where im: "rrd_create_r new_env True ''a.rrd'' 300 1200000000 new_args init_ctx
      = Some (0, Some (Opened im), c')" "same_defs new_rrd (img_rrd im)"
    using new_creation by blast
  have "reachable_db im" by (rule reach_create [OF im(1) new_hyps(1) new_image_total [OF im(2)]])
  with reachable_database_opens [OF this, of "''a.rrd''" init_ctx] show ?thesis by blast
qed

section \<open>The archives of a predictor\<close>

text \<open>C19. The archives added to a predictor depend on one another as the updates expect: the
  predictor takes its seasonal coefficients from the archive behind it, that archive and the
  deviations follow the predictor, the predicted deviations and the failures take the deviations,
  the seasonal archives have the length of the cycle and smooth at a row inside it.\<close>

theorem contingent_archives_linked:
  assumes "create_hw_contingent_rras r period h = Some r'" and "length (rra_def r) = Suc hw"
    and "rra_cnt (stat_head r) = of_nat hw" and "hw < 2 ^ 40" and "period < 2 ^ 16"
    and "length (rra_par (rra_def r ! hw)) = 10"
  shows "length (rra_def r') = hw + 5 \<and> hw_dep_idx r' hw = hw + 1 \<and>
         hw_dep_idx r' (hw + 1) = hw \<and> hw_dep_idx r' (hw + 2) = hw \<and>
         hw_dep_idx r' (hw + 3) = hw + 2 \<and> hw_dep_idx r' (hw + 4) = hw + 2 \<and>
         map cf_nam (drop (hw + 1) (rra_def r')) = [''SEASONAL'', ''DEVSEASONAL'', ''DEVPREDICT'', ''FAILURES''] \<and>
         (\<forall>k \<in> {hw + 1, hw + 2}. unat (row_cnt (rra_def r' ! k)) = period \<and>
            unat (par_of r' k RRA_seasonal_smooth_idx) < period)"
proof -
  have p: "period \<noteq> 0" using assms(1) by (auto simp: create_hw_contingent_rras_def Let_def split: if_splits)
  have u: "unat (of_nat hw :: ulong) = hw" "unat (of_nat period :: ulong) = period"
    using assms(4,5) by (simp_all add: unat_of_nat take_bit_nat_eq_self)
  have w: "unat (of_nat hw + 1 :: ulong) = hw + 1" "unat (of_nat hw + 2 :: ulong) = hw + 2"
    using assms(4) u(1) by (simp_all add: unat_word_ariths)
  have h: "unat (h mod of_nat period) < period" using p u(2) by (simp add: unat_mod)
  show ?thesis
    using assms(1-3,6) p u w h
    by (auto simp: create_hw_contingent_rras_def Let_def hw_dep_idx_def par_of_def nth_append
        seasonal_rra_def set_par_def zero_rra_def nth_Cons')
qed

definition new_hw_rrd :: rrd_t where
  "new_hw_rrd = new_rrd\<lparr>stat_head := (stat_head new_rrd)\<lparr>rra_cnt := 0\<rparr>\<rparr>"

theorem contingent_archives_linked_witness:
  "\<exists>r'. create_hw_contingent_rras new_hw_rrd 288 1000 = Some r' \<and> length (rra_def r') = 5 \<and>
     hw_dep_idx r' 0 = 1 \<and> hw_dep_idx r' 4 = 2"
proof -
  obtain r' where r': "create_hw_contingent_rras new_hw_rrd 288 1000 = Some r'"
    by (simp add: create_hw_contingent_rras_def Let_def)
  have "length (rra_def new_hw_rrd) = Suc 0" "rra_cnt (stat_head new_hw_rrd) = of_nat 0"
    "length (rra_par (rra_def new_hw_rrd ! 0)) = 10"
    by (simp_all add: new_hw_rrd_def new_rrd_def)
  from contingent_archives_linked [OF r' this(1,2) _ _ this(3)] r' show ?thesis by simp
qed

section \<open>The hash\<close>

text \<open>The 32 bit hash as its authors define it. The code computes with 64 bits.\<close>

fun fnv1_32 :: "string \<Rightarrow> 32 word \<Rightarrow> 32 word" where
  "fnv1_32 [] h = h"
| "fnv1_32 (x # xs) h = fnv1_32 xs ((h * 0x01000193) XOR word_of_int (ord x))"

lemma ucast_mult: "(ucast (x * y :: 64 word) :: 32 word) = ucast x * ucast y"
proof -
  have "uint (ucast (x * y) :: 32 word) = uint x * uint y mod 2 ^ 64 mod 2 ^ 32"
    by (simp add: unsigned_ucast_eq uint_word_ariths take_bit_eq_mod)
  also have "\<dots> = uint x * uint y mod 2 ^ 32" by (simp add: mod_mod_cancel)
  also have "\<dots> = uint (ucast x * ucast y :: 32 word)"
    by (simp add: unsigned_ucast_eq uint_word_ariths take_bit_eq_mod mod_simps)
  finally show ?thesis by (simp add: word_uint_eq_iff)
qed

lemma fnv_32_str_low: "(ucast (fnv_32_str s h) :: 32 word) = fnv1_32 s (ucast h)"
proof (induction s arbitrary: h)
  case (Cons x xs)
  have "0 \<le> ord x" "ord x < 256" by (simp_all add: ord_def)
  then have "(ucast (word_of_int (ord x) :: 64 word) :: 32 word) = word_of_int (ord x)"
    by (simp add: word_uint_eq_iff unsigned_ucast_eq uint_word_of_int take_bit_int_eq_self)
  with Cons show ?case by (simp add: ucast_mult FNV_32_PRIME_def unsigned_xor_eq)
qed simp

text \<open>C20. The hash of a file name, computed with unsigned long, agrees in its lower 32 bits with the
  32 bit hash it is documented to be, and only there: the remaining bits are not cleared.\<close>

theorem hash_low_bits:
  "(ucast (FnvHash s) :: 32 word) = fnv1_32 s 0x811c9dc5 \<and> FnvHash ''a'' \<noteq> ucast (fnv1_32 ''a'' 0x811c9dc5)"
proof -
  have "FnvHash ''a'' \<noteq> ucast (fnv1_32 ''a'' 0x811c9dc5)" by code_simp
  then show ?thesis by (simp add: FnvHash_def fnv_32_str_low FNV1_32_INIT_def)
qed

end
