(* ===== verification/Counter.thy ===== *)
theory Counter
  imports Update_Pdp Double_Int
begin

text \<open>
  Counter readings: \<open>rrd_diff\<close> is exact subtraction of the decimal numbers it is given, and a
  COUNTER reading is their difference modulo the width of the counter.
\<close>

section \<open>Columns\<close>








section \<open>Texts and digits\<close>





section \<open>The difference\<close>

lemma digits_prefix: "\<forall>c \<in> set s. isdigit c \<Longrightarrow> s \<noteq> [] \<Longrightarrow> diff_prefix s = []"
  by (cases s) (auto simp: diff_prefix_def not_digit_def)

lemma digits_digits: "\<forall>c \<in> set s. isdigit c \<Longrightarrow> s \<noteq> [] \<Longrightarrow> diff_digits s = s"
  by (cases s) (auto simp: diff_digits_def not_digit_def takeWhile_eq_all_conv)


text \<open>What a counter reading is: decimal digits, at least one and at most 28 of them.\<close>

definition counter_text :: "string \<Rightarrow> bool" where
  "counter_text s \<longleftrightarrow> s \<noteq> [] \<and> (\<forall>c \<in> set s. isdigit c) \<and> length s \<le> 28"



text \<open>Two readings of 29 or 30 digits pass the length check and write behind the result buffer.\<close>

lemma rrd_diff_overflow:
  assumes "\<forall>c \<in> set a. isdigit c" "\<forall>c \<in> set b. isdigit c" "a \<noteq> []" "b \<noteq> []"
    and "max (length a) (length b) \<in> {29, 30}"
  shows "rrd_diff a b = None"
  using assms digits_prefix [of a] digits_prefix [of b] digits_digits [of a] digits_digits [of b]
  by (auto simp: rrd_diff_def Let_def DIFF_LEN_def diff_neg_def)

section \<open>Counters\<close>



lemma show_nat_counter: "n < 10 ^ 28 \<Longrightarrow> counter_text (show_nat n)"
proof -
  assume n: "n < 10 ^ 28"
  have "length (show_nat n) \<le> k" if "n < 10 ^ k" "0 < k" for n k
    using that
  proof (induction n arbitrary: k rule: show_nat.induct)
    case (1 n)
    show ?case
    proof (cases "n < 10")
      case True
      then show ?thesis using "1.prems" by (simp add: show_nat.simps [of n])
    next
      case False
      then have "k \<noteq> 1" using "1.prems" by auto
      then obtain j where j: "k = Suc j" "0 < j" using "1.prems"(2) by (cases k) auto
      then have "n div 10 < 10 ^ j" using "1.prems"(1) by (simp add: less_mult_imp_div_less ac_simps)
      with "1.IH" False j show ?thesis by (simp add: show_nat.simps [of n])
    qed
  qed
  from this [OF n] show ?thesis by (simp add: counter_text_def show_nat_nonempty show_nat_digits)
qed




end
