(* ===== verification/Rpn_Store.thy ===== *)
theory Rpn_Store
  imports Rpn_Parse Double_Int
begin

text \<open>
  The way of a COMPUTE program into the file and back: the compact nodes, the words of the
  definition they are copied into, and the expansion when the definition is used.
\<close>

section \<open>Nodes and bits\<close>











section \<open>Expansion\<close>











text \<open>The definition has room for 20 nodes, and 26 are let through: a program of 20 to 25 operators
  is copied over the end of the parameters.\<close>

lemma cdef_memory_overflow:
  "DS_CDEF_MAX_RPN_NODES * sizeof_cdefds = 104" "10 * sizeof_value = 80"
  by (simp_all add: DS_CDEF_MAX_RPN_NODES_def sizeof_cdefds_def sizeof_value_def)

end
