(* ===== verification/Consolidation.thy ===== *)
theory Consolidation
  imports Update_Cdp Double_Int Sample
begin

text \<open>
  Consolidation against its specification: an archive row over \<open>n\<close> primary data points that arrive
  one by one is the average, maximum, minimum or last of the known points, unless too many of them
  are unknown.
\<close>

section \<open>Specification\<close>

definition known :: "dbl list \<Rightarrow> dbl list" where
  "known xs = filter (\<lambda>x. \<not> isnan x) xs"


definition start_val :: "cf_en \<Rightarrow> dbl" where
  "start_val cf =
     (case cf of CF_MAXIMUM \<Rightarrow> fneg DINF | CF_MINIMUM \<Rightarrow> DINF | CF_AVERAGE \<Rightarrow> 0 | _ \<Rightarrow> DNAN)"

definition combine :: "cf_en \<Rightarrow> dbl \<Rightarrow> dbl \<Rightarrow> dbl" where
  "combine cf v x =
     (case cf of CF_MAXIMUM \<Rightarrow> if fgt x v then x else v
               | CF_MINIMUM \<Rightarrow> if flt x v then x else v
               | CF_AVERAGE \<Rightarrow> fadd v x
               | _ \<Rightarrow> x)"

definition gather :: "cf_en \<Rightarrow> dbl list \<Rightarrow> dbl" where
  "gather cf xs = foldl (combine cf) (start_val cf) (known xs)"

text \<open>The value of a row.\<close>

definition row_value :: "cf_en \<Rightarrow> dbl list \<Rightarrow> dbl" where
  "row_value cf xs =
     (case cf of CF_AVERAGE \<Rightarrow> fdiv (gather cf xs) (dbl_of_int (int (length (known xs))))
               | CF_LAST \<Rightarrow> last xs
               | _ \<Rightarrow> gather cf xs)"

section \<open>The run of the code over the steps of a row\<close>







section \<open>Inside the row\<close>

lemma gather_snoc: "gather cf (xs @ [x]) = (if isnan x then gather cf xs else combine cf (gather cf xs) x)"
  by (simp add: gather_def known_def)


lemma gather_extreme: "cf = CF_MAXIMUM \<or> cf = CF_MINIMUM \<Longrightarrow> \<not> isnan (gather cf xs)"
proof (induction xs rule: rev_induct)
  case Nil
  then show ?case by (auto simp: gather_def known_def start_val_def)
next
  case (snoc x xs)
  then show ?case by (auto simp: gather_snoc combine_def)
qed











section \<open>The end of the row\<close>












text \<open>The maximum of a row is an upper bound and one of the points.\<close>

lemma row_maximum:
  assumes "known xs \<noteq> []"
  shows "\<forall>x \<in> set (known xs). fle x (row_value CF_MAXIMUM xs)"
    and "row_value CF_MAXIMUM xs \<in> set (known xs) \<or> row_value CF_MAXIMUM xs = fneg DINF"
proof -
  have "(\<forall>x \<in> set (known xs). fle x (gather CF_MAXIMUM xs)) \<and>
      (gather CF_MAXIMUM xs \<in> set (known xs) \<or> gather CF_MAXIMUM xs = fneg DINF)"
  proof (induction xs rule: rev_induct)
    case Nil
    then show ?case by (simp add: known_def gather_def start_val_def)
  next
    case (snoc x xs)
    have n: "\<not> isnan (gather CF_MAXIMUM xs)" by (rule gather_extreme) simp
    show ?case
    proof (cases "isnan x")
      case True
      then show ?thesis using snoc by (simp add: gather_snoc known_def)
    next
      case False
      have "flt (gather CF_MAXIMUM xs) x \<or> fle x (gather CF_MAXIMUM xs)"
        using flt_not_fle [OF n False] by auto
      then show ?thesis
        using snoc False by (auto simp: gather_snoc known_def combine_def flt_def fle_def)
    qed
  qed
  then show "\<forall>x \<in> set (known xs). fle x (row_value CF_MAXIMUM xs)"
    "row_value CF_MAXIMUM xs \<in> set (known xs) \<or> row_value CF_MAXIMUM xs = fneg DINF"
    by (simp_all add: row_value_def)
qed

end
