(* ===== verification/Resize.thy ===== *)
theory Resize
  imports Create
begin

text \<open>
  Growing and shrinking an archive (\<open>rrd_resize.c\<close>): a new file gets the header with the changed
  number of rows and a copy of the values, with unknown rows inserted behind the current row or
  with the oldest rows left out. \<open>None\<close> is undefined behaviour.
\<close>

section \<open>Numbers in any base\<close>

text \<open>\<open>strtol\<close> with base 0: hexadecimal behind \<open>0x\<close>, octal behind \<open>0\<close>, decimal otherwise; the
  result saturates.\<close>

definition odigits_val :: "string \<Rightarrow> int" where
  "odigits_val s = foldl (\<lambda>v c. 8 * v + digit_val c) 0 s"

definition strtol_any :: "string \<Rightarrow> int" where
  "strtol_any s0 =
     (case take_sign (skip_space s0) of (neg, s) \<Rightarrow>
        let v = (if case_prefix ''0x'' s \<and> takeWhile is_xdigit (drop 2 s) \<noteq> []
                 then xdigits_val (takeWhile is_xdigit (drop 2 s))
                 else if s \<noteq> [] \<and> hd s = CHR ''0''
                 then odigits_val (takeWhile (\<lambda>c. isdigit c \<and> digit_val c < 8) s)
                 else digits_val (takeWhile isdigit s))
        in if neg then max (- (2 ^ 63)) (- v) else min (2 ^ 63 - 1) v)"

section \<open>Copying\<close>

text \<open>The input, the output, and the one-value buffer between them, \<open>None\<close> while it is not
  initialised. The result of a write is not looked at.\<close>

record resizing =
  rz_in :: rrd_file_t
  rz_out :: world
  rz_buf :: "dbl option"

definition read_buffer :: "resizing \<Rightarrow> (int \<times> resizing) option" where
  "read_buffer s =
     (case rrd_read (rz_in s) 1 of
        None \<Rightarrow> None
      | Some (got, vs, f) \<Rightarrow>
          (case vs of
             v # _ \<Rightarrow> Some (got, s\<lparr>rz_in := f, rz_buf := Some v\<rparr>)
           | [] \<Rightarrow> if got = 0 then Some (got, s\<lparr>rz_in := f\<rparr>) else None))"

definition write_buffer :: "resizing \<Rightarrow> resizing option" where
  "write_buffer s =
     (case rz_buf s of
        None \<Rightarrow> None
      | Some v \<Rightarrow> map_option (\<lambda>(got, w). s\<lparr>rz_out := w\<rparr>) (rrd_write (rz_out s) [v]))"

fun copy_values :: "nat \<Rightarrow> resizing \<Rightarrow> resizing option" where
  "copy_values 0 s = Some s"
| "copy_values (Suc n) s =
     (case read_buffer s of
        None \<Rightarrow> None
      | Some (_, s1) \<Rightarrow> (case write_buffer s1 of None \<Rightarrow> None | Some s2 \<Rightarrow> copy_values n s2))"

fun write_copies :: "nat \<Rightarrow> resizing \<Rightarrow> resizing option" where
  "write_copies 0 s = Some s"
| "write_copies (Suc n) s =
     (case write_buffer s of None \<Rightarrow> None | Some s1 \<Rightarrow> write_copies n s1)"

definition skip_row :: "resizing \<Rightarrow> resizing" where
  "skip_row s =
     s\<lparr>rz_in := snd (rrd_seek (rz_in s) (sizeof_value * n_ds (db (rz_out s))) SEEK_CUR)\<rparr>"

text \<open>The loop to the end of the input; a read that gives nothing ends it.\<close>

function copy_rest :: "resizing \<Rightarrow> resizing option" where
  "copy_rest s =
     (if file_len (rz_in s) \<le> pos (rz_in s) then Some s
      else (case read_buffer s of
              None \<Rightarrow> None
            | Some (got, s1) \<Rightarrow>
                (if got \<le> 0 then Some s1
                 else (case write_buffer s1 of None \<Rightarrow> None | Some s2 \<Rightarrow> copy_rest s2))))"
  by pat_completeness auto
termination
proof (relation "measure (\<lambda>s. file_len (rz_in s) - pos (rz_in s))")
  fix s x got s1 s2
  assume a: "\<not> file_len (rz_in s) \<le> pos (rz_in s)" "read_buffer s = Some x" "(got, s1) = x"
    "\<not> got \<le> 0" "write_buffer s1 = Some s2"
  then have "rz_in s2 = rz_in s1" by (auto simp: write_buffer_def split: option.splits)
  moreover have "file_len (rz_in s1) = file_len (rz_in s) \<and> pos (rz_in s) < pos (rz_in s1)"
    using a(1-4) by (auto simp: read_buffer_def rrd_read_def Let_def split: option.splits list.splits if_splits)
  ultimately show "(s2, s) \<in> measure (\<lambda>s. file_len (rz_in s) - pos (rz_in s))"
    using a(1) by (simp add: diff_less_mono2)
qed simp

declare copy_rest.simps [simp del]

section \<open>The changed archive\<close>

text \<open>Rows that are left out: the input moves on, and the counters follow. The first loop runs
  from \<open>remove_end\<close> down to zero, the second until \<open>modify\<close> is zero again.\<close>

fun drop_first_rows :: "nat \<Rightarrow> ulong \<Rightarrow> ulong \<Rightarrow> int \<Rightarrow> resizing \<Rightarrow> ulong \<times> ulong \<times> int \<times> resizing" where
  "drop_first_rows 0 cur rows modify s = (cur, rows, modify, s)"
| "drop_first_rows (Suc n) cur rows modify s =
     drop_first_rows n (cur - 1) (rows - 1) (modify + 1) (skip_row s)"

fun drop_last_rows :: "nat \<Rightarrow> ulong \<Rightarrow> resizing \<Rightarrow> ulong \<times> resizing" where
  "drop_last_rows 0 rows s = (rows, s)"
| "drop_last_rows (Suc n) rows s = drop_last_rows n (rows - 1) (skip_row s)"

text \<open>The new current row and number of rows of the archive. The copying loop of the second case
  never ends when the current row has become the largest number, or when the number of data
  sources does not fit into its \<open>unsigned int\<close> counter.\<close>

definition grow_archive :: "ulong \<Rightarrow> ulong \<Rightarrow> nat \<Rightarrow> resizing \<Rightarrow> (ulong \<times> ulong \<times> resizing) option" where
  "grow_archive cur rows modify s =
     (let d = ds_cnt (stat_head (db (rz_out s))) in
      case copy_values (unat (d * (cur + 1))) s of
        None \<Rightarrow> None
      | Some s1 \<Rightarrow>
          map_option (\<lambda>s2. (cur, rows + of_nat modify, s2))
            (write_copies (unat (d * of_nat modify)) (s1\<lparr>rz_buf := Some DNAN\<rparr>)))"

definition shrink_archive :: "ulong \<Rightarrow> ulong \<Rightarrow> nat \<Rightarrow> resizing \<Rightarrow> (ulong \<times> ulong \<times> resizing) option" where
  "shrink_archive cur rows k s =
     (if rows = 0 then None
      else
        (let remove_end = sint ((cur + of_nat k) mod rows);
             (cur1, rows1, modify1, s1) =
               (if remove_end \<le> sint cur
                then drop_first_rows (nat (remove_end + 1)) cur rows (- int k) s
                else (cur, rows, - int k, s))
         in if cur1 = - 1 \<or> 2 ^ 32 \<le> n_ds (db (rz_out s1)) then None
            else
              (case copy_values (unat (cur1 + 1) * n_ds (db (rz_out s1))) s1 of
                 None \<Rightarrow> None
               | Some s2 \<Rightarrow>
                   (case drop_last_rows (nat (- modify1)) rows1 s2 of
                      (rows2, s3) \<Rightarrow> Some (cur1, rows2 + word_of_int (max modify1 0), s3)))))"

section \<open>The command\<close>

text \<open>The header of the new file. A version 1 becomes version 3 by its fourth character.\<close>

definition version_upgrade :: "string \<Rightarrow> string" where
  "version_upgrade v = (if atoi v = 1 then v[3 := CHR ''3''] else v)"

text \<open>The data part: the archives before the target, the target, the rest; at the end the
  definitions and the row pointers are written again.\<close>

definition values_before :: "rrd_t \<Rightarrow> nat \<Rightarrow> ulong" where
  "values_before r i =
     sum_list (map (\<lambda>d. ds_cnt (stat_head r) * row_cnt d) (take i (rra_def r)))"

definition resize_values :: "nat \<Rightarrow> bool \<Rightarrow> nat \<Rightarrow> resizing \<Rightarrow> resizing option" where
  "resize_values target grow n s =
     (let r = db (rz_out s) in
      case copy_values (unat (values_before r target)) s of
        None \<Rightarrow> None
      | Some s1 \<Rightarrow>
          (case (if grow then grow_archive else shrink_archive)
                  (rra_ptr r ! target) (row_cnt (rra_def r ! target)) n s1 of
             None \<Rightarrow> None
           | Some (cur, rows, s2) \<Rightarrow>
               map_option
                 (\<lambda>s3. s3\<lparr>rz_out := (rz_out s3)\<lparr>db := r\<lparr>
                     rra_def := (rra_def r)[target := (rra_def r ! target)\<lparr>row_cnt := rows\<rparr>],
                     rra_ptr := (rra_ptr r)[target := cur]\<rparr>\<rparr>\<rparr>)
                 (copy_rest s2)))"

text \<open>The locks are those of the old and of the new file. The new file is filled with zeros and
  gets the size for the changed number of rows, in the layout of version 3. When it cannot be
  created, the missing file is closed, which is undefined.\<close>

record resize_env =
  rz_locked :: bool
  rz_locked_new :: bool
  rz_create :: "string option"

definition resized_defs :: "rrd_t \<Rightarrow> nat \<Rightarrow> int \<Rightarrow> rrd_t" where
  "resized_defs r target modify =
     r\<lparr>rra_def := (rra_def r)[target := (rra_def r ! target)
         \<lparr>row_cnt := row_cnt (rra_def r ! target) + word_of_int modify\<rparr>]\<rparr>"

definition new_resizing :: "rrd_t \<Rightarrow> rrd_file_t \<Rightarrow> nat \<Rightarrow> int \<Rightarrow> ctx \<Rightarrow> resizing" where
  "new_resizing r f target modify c =
     (let hl = created_header_len r; fl = unat (newfile_size (resized_defs r target modify)) in
      \<lparr>rz_in = f,
       rz_out = \<lparr>rrd_error = rrd_error c, lc_numeric = lc_numeric c, clock_readings = clock_readings c,
         db = r\<lparr>stat_head := (stat_head r)\<lparr>version := version_upgrade (version (stat_head r))\<rparr>\<rparr>,
         dbfile = \<lparr>header_len = hl, file_len = fl, pos = hl,
           vals = replicate ((fl - hl) div sizeof_value) 0\<rparr>\<rparr>,
       rz_buf = None\<rparr>)"

definition resize_open ::
  "resize_env \<Rightarrow> rrd_t \<Rightarrow> rrd_file_t \<Rightarrow> ulong \<Rightarrow> bool \<Rightarrow> int \<Rightarrow> ctx \<Rightarrow> (int \<times> sys_open option \<times> ctx) option" where
  "resize_open e r f target grow n c =
     (if \<not> rz_locked e then Some (- 1, None, rrd_set_error ''could not lock original RRD'' c)
      else if target \<ge> rra_cnt (stat_head r) then
        Some (- 1, None, rrd_set_error ''no such RRA in this RRD'' c)
      else if \<not> grow \<and> sint (row_cnt (rra_def r ! unat target)) \<le> n then
        Some (- 1, None, rrd_set_error ''This RRA is not that big'' c)
      else if rz_create e \<noteq> None
          \<or> unat (newfile_size (resized_defs r (unat target) (if grow then n else - n))) < rrd_get_header_size r
        then None
      else if \<not> rz_locked_new e then Some (- 1, None, rrd_set_error ''could not lock new RRD'' c)
      else if atoi (version (stat_head r)) \<notin> {1, 3, 4} then
        Some (- 1, None, rrd_set_error (''Do not know how to handle RRD version '' @ version (stat_head r)) c)
      else if atoi (version (stat_head r)) = 1 \<and> length (version (stat_head r)) < 4 then None
      else
        (case resize_values (unat target) grow (nat n)
                (new_resizing r f (unat target) (if grow then n else - n) c) of
           None \<Rightarrow> None
         | Some s \<Rightarrow>
             Some (0, Some (Opened \<lparr>img_len = file_len (dbfile (rz_out s)), img_rrd = db (rz_out s),
                      img_vals = vals (dbfile (rz_out s))\<rparr>), ctx.truncate (rz_out s))))"

definition rrd_resize ::
  "resize_env \<Rightarrow> sys_open \<Rightarrow> string list \<Rightarrow> ctx \<Rightarrow> (int \<times> sys_open option \<times> ctx) option" where
  "rrd_resize e so args c =
     (case args of
        [] \<Rightarrow> None
      | infilename # _ \<Rightarrow>
          (if infilename = ''resize.rrd'' then
             Some (- 1, None, rrd_set_error ''resize.rrd is a reserved name'' c)
           else if length args \<noteq> 4 then
             Some (- 1, None, rrd_set_error ''wrong number of parameters'' c)
           else if args ! 2 \<notin> {''GROW'', ''SHRINK''} then
             Some (- 1, None, rrd_set_error ''I can only GROW or SHRINK'' c)
           else if strtol_any (args ! 3) < 1 then
             Some (- 1, None, rrd_set_error ''Please grow or shrink with at least 1 row'' c)
           else
             (case rrd_open infilename so c of
                (None, c1) \<Rightarrow> Some (- 1, None, c1)
              | (Some (r, f), c1) \<Rightarrow>
                  resize_open e r f (word_of_int (strtol_any (args ! 1))) (args ! 2 = ''GROW'')
                    (strtol_any (args ! 3)) c1)))"

end
