(* ===== verification/Resize_Spec.thy ===== *)
theory Resize_Spec
  imports Resize Archive_Fetch Create_Spec
begin

text \<open>
  What a resize does to the histories of the archives: a grown archive gets unknown rows as its
  oldest ones, a shrunk archive loses its oldest rows, and every other archive keeps its history.
\<close>

section \<open>Transfers from file to file\<close>

text \<open>The input stands at value \<open>p\<close> of its values \<open>xs\<close>, of which there are no more behind the end
  of the file; the output has room for \<open>m\<close> values, and those written so far are \<open>ws\<close>.\<close>

definition transfer :: "dbl list \<Rightarrow> nat \<Rightarrow> nat \<Rightarrow> dbl list \<Rightarrow> resizing \<Rightarrow> bool" where
  "transfer xs m p ws s \<longleftrightarrow>
     vals (rz_in s) = xs \<and> file_len (rz_in s) = header_len (rz_in s) + sizeof_value * length xs \<and>
     pos (rz_in s) = header_len (rz_in s) + sizeof_value * p \<and>
     file_len (dbfile (rz_out s)) = header_len (dbfile (rz_out s)) + sizeof_value * m \<and>
     pos (dbfile (rz_out s)) = header_len (dbfile (rz_out s)) + sizeof_value * length ws \<and>
     length (vals (dbfile (rz_out s))) = m \<and> take (length ws) (vals (dbfile (rz_out s))) = ws"

definition same_target :: "resizing \<Rightarrow> resizing \<Rightarrow> bool" where
  "same_target s s' \<longleftrightarrow>
     db (rz_out s') = db (rz_out s) \<and> ctx.truncate (rz_out s') = ctx.truncate (rz_out s) \<and>
     header_len (dbfile (rz_out s')) = header_len (dbfile (rz_out s)) \<and>
     file_len (dbfile (rz_out s')) = file_len (dbfile (rz_out s))"

lemma same_target_refl [simp]: "same_target s s"
  by (simp add: same_target_def)

lemma same_target_trans [trans]: "same_target s s1 \<Longrightarrow> same_target s1 s2 \<Longrightarrow> same_target s s2"
  by (simp add: same_target_def)

lemma read_buffer_next:
  assumes "transfer xs m p ws s" "p < length xs"
  shows "\<exists>s1. read_buffer s = Some (8, s1) \<and> transfer xs m (Suc p) ws s1 \<and> same_target s s1 \<and>
           rz_buf s1 = Some (xs ! p)"
proof -
  have "rrd_read (rz_in s) 1 = Some (8, take 1 (drop p xs), (rz_in s)\<lparr>pos := pos (rz_in s) + 8\<rparr>)"
    using rrd_read_aligned [of "rz_in s" p 1] assms by (simp add: transfer_def sizeof_value_def)
  moreover have "take 1 (drop p xs) = [xs ! p]" using assms(2) by (simp add: take_Suc_conv_app_nth hd_drop_conv_nth)
  ultimately show ?thesis
    using assms by (simp add: read_buffer_def transfer_def sizeof_value_def same_target_def)
qed

lemma write_buffer_next:
  assumes "transfer xs m p ws s" "length ws < m" "rz_buf s = Some v"
  shows "\<exists>s1. write_buffer s = Some s1 \<and> transfer xs m p (ws @ [v]) s1 \<and> same_target s s1 \<and> rz_buf s1 = Some v"
proof -
  let ?f = "dbfile (rz_out s)"
  have "rrd_write (rz_out s) [v] = Some (8, (rz_out s)\<lparr>dbfile := ?f\<lparr>
      vals := overwrite (length ws) [v] (vals ?f), pos := pos ?f + 8\<rparr>\<rparr>)"
    using rrd_write_aligned [of "rz_out s" "length ws" "[v]"] assms by (simp add: transfer_def sizeof_value_def)
  moreover have "take (Suc (length ws)) (overwrite (length ws) [v] (vals ?f)) = ws @ [v]"
    using assms by (simp add: overwrite_def transfer_def)
  moreover have "length (overwrite (length ws) [v] (vals ?f)) = m"
    using assms by (subst length_overwrite) (simp_all add: transfer_def)
  ultimately show ?thesis
    using assms by (simp add: write_buffer_def transfer_def sizeof_value_def same_target_def ctx.truncate_def)
qed

lemma copy_values_ok:
  "transfer xs m p ws s \<Longrightarrow> p + n \<le> length xs \<Longrightarrow> length ws + n \<le> m \<Longrightarrow>
     \<exists>s1. copy_values n s = Some s1 \<and> transfer xs m (p + n) (ws @ take n (drop p xs)) s1 \<and> same_target s s1"
proof (induction n arbitrary: p ws s)
  case (Suc n)
  then have p: "p < length xs" by simp
  obtain s1 where s1: "read_buffer s = Some (8, s1)" "transfer xs m (Suc p) ws s1" "same_target s s1"
    "rz_buf s1 = Some (xs ! p)"
    using read_buffer_next [OF Suc.prems(1) p] by blast
  obtain s2 where s2: "write_buffer s1 = Some s2" "transfer xs m (Suc p) (ws @ [xs ! p]) s2" "same_target s1 s2"
    using write_buffer_next [OF s1(2) _ s1(4)] Suc.prems(3) by auto
  have "take (Suc n) (drop p xs) = xs ! p # take n (drop (Suc p) xs)"
    using p by (metis Cons_nth_drop_Suc take_Suc_Cons)
  moreover obtain s3 where s3: "copy_values n s2 = Some s3"
    "transfer xs m (Suc p + n) ((ws @ [xs ! p]) @ take n (drop (Suc p) xs)) s3" "same_target s2 s3"
    using Suc.IH [OF s2(2)] Suc.prems(2,3) by auto
  moreover have "same_target s s3" using s1(3) s2(3) s3(3) by (blast intro: same_target_trans)
  ultimately show ?case using s1(1) s2(1) by simp
qed simp

lemma write_copies_ok:
  "transfer xs m p ws s \<Longrightarrow> rz_buf s = Some v \<Longrightarrow> length ws + n \<le> m \<Longrightarrow>
     \<exists>s1. write_copies n s = Some s1 \<and> transfer xs m p (ws @ replicate n v) s1 \<and> same_target s s1"
proof (induction n arbitrary: ws s)
  case (Suc n)
  obtain s1 where s1: "write_buffer s = Some s1" "transfer xs m p (ws @ [v]) s1" "same_target s s1" "rz_buf s1 = Some v"
    using write_buffer_next [OF Suc.prems(1) _ Suc.prems(2)] Suc.prems(3) by auto
  obtain s2 where "write_copies n s1 = Some s2" "transfer xs m p ((ws @ [v]) @ replicate n v) s2" "same_target s1 s2"
    using Suc.IH [OF s1(2,4)] Suc.prems(3) by auto
  then show ?case using s1 by (auto intro: same_target_trans)
qed simp

lemma copy_rest_ok:
  "transfer xs m p ws s \<Longrightarrow> p \<le> length xs \<Longrightarrow> length ws + (length xs - p) = m \<Longrightarrow>
     \<exists>s1. copy_rest s = Some s1 \<and> vals (dbfile (rz_out s1)) = ws @ drop p xs \<and> same_target s s1"
proof (induction "length xs - p" arbitrary: p ws s)
  case 0
  then have "copy_rest s = Some s" "vals (dbfile (rz_out s)) = ws"
    by (auto simp: transfer_def sizeof_value_def copy_rest.simps [of s])
  then show ?case using 0 by simp
next
  case (Suc n)
  then have p: "p < length xs" by simp
  then have room: "length ws < m" using Suc.prems(3) by simp
  obtain s1 where s1: "read_buffer s = Some (8, s1)" "transfer xs m (Suc p) ws s1" "same_target s s1"
    "rz_buf s1 = Some (xs ! p)"
    using read_buffer_next [OF Suc.prems(1) p] by blast
  obtain s2 where s2: "write_buffer s1 = Some s2" "transfer xs m (Suc p) (ws @ [xs ! p]) s2" "same_target s1 s2"
    using write_buffer_next [OF s1(2) _ s1(4)] room by blast
  have n: "n = length xs - Suc p" "Suc p \<le> length xs" "length (ws @ [xs ! p]) + (length xs - Suc p) = m"
    using Suc.hyps(2) Suc.prems(3) p by simp_all
  obtain s3 where s3: "copy_rest s2 = Some s3" "vals (dbfile (rz_out s3)) = (ws @ [xs ! p]) @ drop (Suc p) xs"
    "same_target s2 s3"
    using Suc.hyps(1) [OF n(1) s2(2) n(2,3)] by blast
  have "copy_rest s = copy_rest s2"
    using Suc.prems(1) p s1(1) s2(1) by (subst copy_rest.simps) (simp add: transfer_def sizeof_value_def)
  then show ?case
    using s1(3) s2(3) s3 p by (auto simp: Cons_nth_drop_Suc intro: same_target_trans [OF _ same_target_trans])
qed

lemma skip_row_ok:
  "transfer xs m p ws s \<Longrightarrow>
     transfer xs m (p + n_ds (db (rz_out s))) ws (skip_row s) \<and> same_target s (skip_row s) \<and>
     rz_out (skip_row s) = rz_out s"
  by (simp add: skip_row_def transfer_def rrd_seek_def SEEK_SET_def SEEK_CUR_def same_target_def
      sizeof_value_def)

lemma drop_last_rows_ok:
  "transfer xs m p ws s \<Longrightarrow> \<exists>s1. drop_last_rows n rows s = (rows - of_nat n, s1) \<and>
     transfer xs m (p + n * n_ds (db (rz_out s))) ws s1 \<and> same_target s s1"
proof (induction n arbitrary: p rows s)
  case (Suc n)
  from Suc.IH [OF skip_row_ok [OF Suc.prems, THEN conjunct1], of "rows - 1"] skip_row_ok [OF Suc.prems]
  show ?case by (auto simp: algebra_simps intro: same_target_trans)
qed simp

lemma drop_first_rows_ok:
  "transfer xs m p ws s \<Longrightarrow> \<exists>s1. drop_first_rows n cur rows k s = (cur - of_nat n, rows - of_nat n, k + int n, s1) \<and>
     transfer xs m (p + n * n_ds (db (rz_out s))) ws s1 \<and> same_target s s1"
proof (induction n arbitrary: p cur rows k s)
  case (Suc n)
  from Suc.IH [OF skip_row_ok [OF Suc.prems, THEN conjunct1], of "cur - 1" "rows - 1" "k + 1"]
    skip_row_ok [OF Suc.prems]
  show ?case by (auto simp: algebra_simps intro: same_target_trans)
qed simp

section \<open>The target archive\<close>

lemma unat_of_product:
  "a * b \<le> m \<Longrightarrow> m < 2 ^ 60 \<Longrightarrow> unat (of_nat b * of_nat a :: ulong) = a * b"
  by (simp add: unat_of_nat take_bit_nat_eq_self mult.commute flip: of_nat_mult)

lemma grow_archive_ok:
  fixes s defines "d \<equiv> n_ds (db (rz_out s))"
  assumes t: "transfer xs m p ws s" and c: "unat cur = c"
    and room: "p + Suc c * d \<le> length xs" "length ws + (Suc c + k) * d \<le> m"
    and small: "m < 2 ^ 60" "Suc c < 2 ^ 60" "k < 2 ^ 60"
  shows "\<exists>s1. grow_archive cur rows k s = Some (cur, rows + of_nat k, s1) \<and> same_target s s1 \<and>
           transfer xs m (p + Suc c * d) (ws @ take (Suc c * d) (drop p xs) @ replicate (k * d) DNAN) s1"
proof -
  have d: "ds_cnt (stat_head (db (rz_out s))) = of_nat d" by (simp add: d_def)
  have cw: "cur + 1 = of_nat (Suc c)" using c by auto
  have le: "Suc c * d \<le> m" "k * d \<le> m" using room(2) by (simp_all add: add_mult_distrib)
  then have n1: "unat (ds_cnt (stat_head (db (rz_out s))) * (cur + 1)) = Suc c * d"
    and n2: "unat (ds_cnt (stat_head (db (rz_out s))) * of_nat k) = k * d"
    using unat_of_product [OF _ small(1)] by (simp_all only: cw d)
  obtain s1 where s1: "copy_values (Suc c * d) s = Some s1" "same_target s s1"
    "transfer xs m (p + Suc c * d) (ws @ take (Suc c * d) (drop p xs)) s1"
    using copy_values_ok [OF t room(1)] room(2) by (auto simp: add_mult_distrib)
  have t2: "transfer xs m (p + Suc c * d) (ws @ take (Suc c * d) (drop p xs)) (s1\<lparr>rz_buf := Some DNAN\<rparr>)"
    and same: "same_target s1 (s1\<lparr>rz_buf := Some DNAN\<rparr>)"
    using s1(3) by (simp_all add: transfer_def same_target_def)
  have "length (ws @ take (Suc c * d) (drop p xs)) + k * d \<le> m"
    using room by (simp add: add_mult_distrib)
  from write_copies_ok [OF t2 _ this] obtain s2 where
    "write_copies (k * d) (s1\<lparr>rz_buf := Some DNAN\<rparr>) = Some s2" "same_target s1 s2"
    "transfer xs m (p + Suc c * d) ((ws @ take (Suc c * d) (drop p xs)) @ replicate (k * d) DNAN) s2"
    using same_target_trans [OF same] by auto
  then show ?thesis
    using s1(1,2) n1 n2 by (auto simp: grow_archive_def Let_def intro: same_target_trans)
qed

lemma sint_unat: "unat (w :: ulong) < 2 ^ 62 \<Longrightarrow> sint w = int (unat w)"
proof -
  assume "unat w < 2 ^ 62"
  then have "nat (uint w) < nat (2 ^ 62)" by (simp only: unat_eq_nat_uint nat_power_eq nat_numeral)
  then have "uint w < 2 ^ 62" by (simp only: nat_less_eq_zless [OF uint_ge_0])
  with sint_small [of "uint w"] have "sint w = uint w" by (simp add: order_trans [OF _ uint_ge_0])
  then show ?thesis by simp
qed

lemma shrink_archive_ok:
  fixes s defines "d \<equiv> n_ds (db (rz_out s))"
  assumes t: "transfer xs m p ws s" and c: "unat cur = c" and n: "unat rows = n" "c < n" "0 < k" "k < n" "n < 2 ^ 60"
    and room: "p + n * d \<le> length xs" "length ws + (n - k) * d \<le> m" and d: "d < 2 ^ 32"
  shows "\<exists>s1. shrink_archive cur rows k s =
             Some (if c + k < n then cur else cur - of_nat (Suc (c + k - n)), rows - of_nat k, s1) \<and>
           same_target s s1 \<and>
           (if c + k < n then transfer xs m (p + (Suc c + k) * d) (ws @ take (Suc c * d) (drop p xs)) s1
            else transfer xs m (p + n * d)
              (ws @ take ((n - k) * d) (drop (p + Suc (c + k - n) * d) xs)) s1)"
proof -
  have cur: "cur = of_nat c" and rows: "rows = of_nat n" using c n(1) by auto
  have r0: "rows \<noteq> 0" using n by auto
  have sum: "unat (cur + of_nat k) = c + k"
    using n by (simp add: cur unat_of_nat take_bit_nat_eq_self flip: of_nat_add)
  then have md: "unat ((cur + of_nat k) mod rows) = (c + k) mod n" using n(1) by (simp add: unat_mod)
  have end_row: "sint ((cur + of_nat k) mod rows) = int ((c + k) mod n)" "sint cur = int c"
    using n md c mod_less_divisor [of n "c + k"] by (simp_all add: sint_unat del: mod_less_divisor)
  show ?thesis
  proof (cases "c + k < n")
    case True
    then have e: "(c + k) mod n = c + k" by simp
    have "Suc c * d \<le> n * d" "Suc c * d \<le> (n - k) * d"
      using True n by (intro mult_le_mono1; simp)+
    then have "p + Suc c * d \<le> length xs" "length ws + Suc c * d \<le> m" using room by simp_all
    from copy_values_ok [OF t this] obtain s1 where
      s1: "copy_values (Suc c * d) s = Some s1" "same_target s s1"
      "transfer xs m (p + Suc c * d) (ws @ take (Suc c * d) (drop p xs)) s1"
      by blast
    have d1: "n_ds (db (rz_out s1)) = d" using s1(2) by (simp add: same_target_def d_def)
    obtain s2 where s2: "drop_last_rows k rows s1 = (rows - of_nat k, s2)" "same_target s1 s2"
      "transfer xs m (p + Suc c * d + k * d) (ws @ take (Suc c * d) (drop p xs)) s2"
      using drop_last_rows_ok [OF s1(3)] unfolding d1 by blast
    have "cur + 1 = of_nat (Suc c)" by (simp add: cur)
    then have cnt: "unat (cur + 1) = Suc c"
      using n by (simp add: unat_of_nat take_bit_nat_eq_self del: of_nat_Suc)
    have ne: "cur \<noteq> - 1" using cnt by auto
    have dd: "n_ds (db (rz_out s)) = d" by (simp add: d_def)
    have "shrink_archive cur rows k s = Some (cur, rows - of_nat k, s2)"
      using r0 end_row e n ne d dd cnt s1(1) s2(1) by (simp add: shrink_archive_def Let_def)
    moreover have "same_target s s2" using s1(2) s2(2) by (blast intro: same_target_trans)
    ultimately show ?thesis using True s2(3) by (simp add: add_mult_distrib add.assoc)
  next
    case False
    then have e: "(c + k) mod n = c + k - n" using n by (simp add: mod_if)
    have le: "c + k - n \<le> c" using n by simp
    let ?e = "c + k - n"
    obtain s1 where s1: "drop_first_rows (Suc ?e) cur rows (- int k) s =
        (cur - of_nat (Suc ?e), rows - of_nat (Suc ?e), - int k + int (Suc ?e), s1)"
      "transfer xs m (p + Suc ?e * d) ws s1" "same_target s s1"
      using drop_first_rows_ok [OF t] unfolding d_def by blast
    have sub: "Suc ?e \<le> c" using n False by simp
    have cur1: "cur - of_nat (Suc ?e) = of_nat (c - Suc ?e)"
      using sub by (simp only: cur of_nat_diff)
    then have "cur - of_nat (Suc ?e) + 1 = of_nat (Suc (c - Suc ?e))" by simp
    moreover have "Suc (c - Suc ?e) = n - k" using n False by simp
    ultimately have step1: "cur - of_nat (Suc ?e) + 1 = of_nat (n - k)" by (simp only:)
    have cnt: "unat (cur - of_nat (Suc ?e) + 1) = n - k"
      unfolding step1 using n by (simp add: unat_of_nat take_bit_nat_eq_self del: of_nat_diff)
    have ne: "cur - of_nat (Suc ?e) \<noteq> - 1" using cnt n by auto
    have d1: "n_ds (db (rz_out s1)) = d" using s1(3) by (simp add: same_target_def d_def)
    have "(Suc ?e + (n - k)) * d \<le> n * d" using n False by (intro mult_le_mono1) simp
    then have "Suc ?e * d + (n - k) * d \<le> n * d" by (simp only: add_mult_distrib)
    then have "p + Suc ?e * d + (n - k) * d \<le> length xs" using room(1) by simp
    from copy_values_ok [OF s1(2) this room(2)] obtain s2 where
      s2: "copy_values ((n - k) * d) s1 = Some s2" "same_target s1 s2"
      "transfer xs m (p + Suc ?e * d + (n - k) * d) (ws @ take ((n - k) * d) (drop (p + Suc ?e * d) xs)) s2"
      by blast
    have d2: "n_ds (db (rz_out s2)) = d" using s2(2) d1 by (simp add: same_target_def)
    obtain s3 where s3: "drop_last_rows (n - Suc c) (rows - of_nat (Suc ?e)) s2 =
        (rows - of_nat (Suc ?e) - of_nat (n - Suc c), s3)" "same_target s2 s3"
      "transfer xs m (p + Suc ?e * d + (n - k) * d + (n - Suc c) * d)
         (ws @ take ((n - k) * d) (drop (p + Suc ?e * d) xs)) s3"
      using drop_last_rows_ok [OF s2(3)] unfolding d2 by blast
    have "Suc ?e + (n - k) + (n - Suc c) = n" using n False by simp
    then have "Suc ?e * d + (n - k) * d + (n - Suc c) * d = n * d" by (metis add_mult_distrib)
    then have pos: "p + Suc ?e * d + (n - k) * d + (n - Suc c) * d = p + n * d" by simp
    have "Suc ?e + (n - Suc c) = k" using n False by simp
    then have k: "of_nat (Suc ?e) + of_nat (n - Suc c) = (of_nat k :: ulong)" by (metis of_nat_add)
    have left: "rows - of_nat (Suc ?e) - of_nat (n - Suc c) = rows - of_nat k"
      by (simp only: diff_diff_add k)
    have md1: "nat (- (- int k + int (Suc ?e))) = n - Suc c" "max (- int k + int (Suc ?e)) 0 = 0"
      using n False by simp_all
    define cur1 rows1 k1 where "cur1 = cur - of_nat (Suc ?e)" and "rows1 = rows - of_nat (Suc ?e)"
      and "k1 = - int k + int (Suc ?e)"
    have first: "sint ((cur + of_nat k) mod rows) \<le> sint cur"
      "nat (sint ((cur + of_nat k) mod rows) + 1) = Suc ?e"
      using le unfolding end_row e by linarith+
    have "shrink_archive cur rows k s = Some (cur1, rows1 - of_nat (n - Suc c), s3)"
      using r0 first s1(1) ne d d1 cnt s2(1) md1 s3(1)
      unfolding cur1_def [symmetric] rows1_def [symmetric] k1_def [symmetric]
      by (simp add: shrink_archive_def Let_def del: of_nat_Suc of_nat_diff drop_first_rows.simps)
    then have "shrink_archive cur rows k s = Some (cur - of_nat (Suc ?e), rows - of_nat k, s3)"
      unfolding cur1_def rows1_def left .
    moreover have "same_target s s3" using s1(3) s2(2) s3(2) by (blast intro: same_target_trans)
    ultimately show ?thesis
      using False s3(3) unfolding pos by (simp del: of_nat_Suc of_nat_diff mult_Suc)
  qed
qed

section \<open>Splicing values\<close>

text \<open>All three ways to change the values replace the stretch from \<open>p\<close> to \<open>q\<close> by others.\<close>

definition splice_vals :: "nat \<Rightarrow> dbl list \<Rightarrow> nat \<Rightarrow> dbl list \<Rightarrow> dbl list" where
  "splice_vals p mid q xs = take p xs @ mid @ drop q xs"

lemma splice_vals_before:
  "m + d \<le> p \<Longrightarrow> p \<le> length xs \<Longrightarrow> take d (drop m (splice_vals p mid q xs)) = take d (drop m xs)"
  by (simp add: splice_vals_def take_drop [symmetric]) (simp add: drop_take min_absorb1)

lemma splice_vals_inside:
  "p \<le> m \<Longrightarrow> m + d \<le> p + length mid \<Longrightarrow> p \<le> length xs \<Longrightarrow>
     take d (drop m (splice_vals p mid q xs)) = take d (drop (m - p) mid)"
  by (simp add: splice_vals_def)

lemma splice_vals_behind:
  "p + length mid \<le> m \<Longrightarrow> p \<le> length xs \<Longrightarrow> m' + p + length mid = m + q \<Longrightarrow>
     take d (drop m (splice_vals p mid q xs)) = take d (drop m' xs)"
  by (simp add: splice_vals_def) (metis add.commute add_diff_cancel_right' diff_add_inverse diff_diff_left add_diff_inverse_nat le_add_diff_inverse not_less)

section \<open>The database with a changed archive\<close>

text \<open>The definitions with another number of rows and another current row of archive \<open>i\<close>.\<close>

definition with_rows :: "rrd_t \<Rightarrow> nat \<Rightarrow> ulong \<Rightarrow> ulong \<Rightarrow> rrd_t" where
  "with_rows r i rows cur =
     r\<lparr>rra_def := (rra_def r)[i := (rra_def r ! i)\<lparr>row_cnt := rows\<rparr>], rra_ptr := (rra_ptr r)[i := cur]\<rparr>"

lemma with_rows_simps [simp]:
  "stat_head (with_rows r i rows cur) = stat_head r" "ds_def (with_rows r i rows cur) = ds_def r"
  "pdp_prep (with_rows r i rows cur) = pdp_prep r" "cdp_prep (with_rows r i rows cur) = cdp_prep r"
  "live_head (with_rows r i rows cur) = live_head r"
  "rrd_get_header_size (with_rows r i rows cur) = rrd_get_header_size r"
  by (simp_all add: with_rows_def rrd_get_header_size_def)

lemma rows_with_rows:
  assumes "length (rra_def r) = n_rra r" "length (rra_ptr r) = n_rra r" "i < n_rra r"
  shows "n_rows (with_rows r i rows cur) j = (if j = i then unat rows else n_rows r j)"
    "cur_row (with_rows r i rows cur) j = (if j = i then unat cur else cur_row r j)"
  using assms by (simp_all add: with_rows_def n_rows_def cur_row_def)

lemma base_with_rows:
  assumes "length (rra_def r) = n_rra r" "length (rra_ptr r) = n_rra r" "i < n_rra r"
  shows "j \<le> i \<Longrightarrow> rra_base (with_rows r i rows cur) j = rra_base r j"
    "i < j \<Longrightarrow> rra_base (with_rows r i rows cur) j + n_rows r i * n_ds r = rra_base r j + unat rows * n_ds r"
proof -
  note rws = rows_with_rows [OF assms, of rows cur]
  have size: "rra_size (with_rows r i rows cur) j = (if j = i then unat rows * n_ds r else rra_size r j)" for j
    by (simp add: rra_size_rows rws)
  show low: "j \<le> i \<Longrightarrow> rra_base (with_rows r i rows cur) j = rra_base r j" for j
    by (induction j) (simp_all add: size)
  show "i < j \<Longrightarrow> rra_base (with_rows r i rows cur) j + n_rows r i * n_ds r = rra_base r j + unat rows * n_ds r"
  proof (induction j)
    case (Suc j)
    then show ?case by (cases "j = i") (simp_all add: size low rra_size_rows [of r])
  qed simp
qed

lemma total_with_rows:
  assumes "i < length (rra_def r)"
  shows "total_values (with_rows r i rows cur) + n_rows r i * n_ds r = total_values r + unat rows * n_ds r"
proof -
  let ?xs = "map (\<lambda>d. n_ds r * unat (row_cnt d)) (rra_def r)"
  have "?xs ! i \<in> set ?xs" using assms by (intro nth_mem) simp
  then have "?xs ! i \<le> sum_list ?xs" by (rule member_le_sum_list) simp
  then show ?thesis
    using assms by (simp add: total_values_def with_rows_def map_update sum_list_update n_rows_def mult.commute)
qed

lemma wf_with_rows: "wf_rrd r \<Longrightarrow> i < n_rra r \<Longrightarrow> wf_rrd (with_rows r i rows cur)"
  by (auto simp: wf_rrd_def with_rows_def set_update_subsetI dest!: subsetD [OF set_update_subset_insert])

lemma newfile_size_fits:
  assumes "rrd_get_header_size r + sizeof_value * total_values r < 2 ^ 64"
  shows "unat (newfile_size r) = rrd_get_header_size r + sizeof_value * total_values r"
  using assms
  by (simp add: newfile_size_def value_cnt_total unat_of_nat take_bit_nat_eq_self flip: of_nat_add of_nat_mult)

lemma aged_index: "c < n \<Longrightarrow> a < n \<Longrightarrow> (c + n - a) mod n = (if a \<le> c then c - a else c + n - a)" for c :: nat
  by (auto simp: mod_if)

section \<open>The values of the new file\<close>

definition new_rows :: "bool \<Rightarrow> nat \<Rightarrow> nat \<Rightarrow> nat" where
  "new_rows gr k n = (if gr then n + k else n - k)"

definition new_cur :: "bool \<Rightarrow> nat \<Rightarrow> nat \<Rightarrow> nat \<Rightarrow> nat" where
  "new_cur gr k n c = (if gr \<or> c + k < n then c else c - Suc (c + k - n))"

text \<open>The values: \<open>b\<close> is where the archive begins, \<open>d\<close> the length of a row.\<close>

definition new_vals :: "bool \<Rightarrow> nat \<Rightarrow> nat \<Rightarrow> nat \<Rightarrow> nat \<Rightarrow> nat \<Rightarrow> dbl list \<Rightarrow> dbl list" where
  "new_vals gr k n c b d xs =
     (if gr then splice_vals (b + Suc c * d) (replicate (k * d) DNAN) (b + Suc c * d) xs
      else if c + k < n then splice_vals (b + Suc c * d) [] (b + (Suc c + k) * d) xs
      else splice_vals b (take ((n - k) * d) (drop (b + Suc (c + k - n) * d) xs)) (b + n * d) xs)"

text \<open>Rows of the target archive, by their age, and values of other archives.\<close>

lemma new_vals_aged:
  assumes "c < n" "0 < k" "\<not> gr \<Longrightarrow> k < n" "b + n * d \<le> length xs" "a < new_rows gr k n"
  shows "take d (drop (b + ((new_cur gr k n c + new_rows gr k n - a) mod new_rows gr k n) * d)
             (new_vals gr k n c b d xs)) =
           (if a < n then take d (drop (b + ((c + n - a) mod n) * d) xs) else replicate d DNAN)"
proof -
  define row where "row = (new_cur gr k n c + new_rows gr k n - a) mod new_rows gr k n"
  have rows: "Suc c \<le> n" "b + Suc c * d \<le> length xs"
    using assms(1,4) mult_le_mono1 [of "Suc c" n d] by simp_all
  have mono: "i \<le> j \<Longrightarrow> i * d \<le> j * d" for i j by (rule mult_le_mono1)
  have old: "(c + n - a) mod n = (if a \<le> c then c - a else c + n - a)" if "a < n"
    using aged_index assms(1) that by simp
  consider (grow) gr | (shrink) "\<not> gr" "c + k < n" | (wrap) "\<not> gr" "\<not> c + k < n" by blast
  then have "take d (drop (b + row * d) (new_vals gr k n c b d xs)) =
      (if a < n then take d (drop (b + ((c + n - a) mod n) * d) xs) else replicate d DNAN)"
    (is ?goal)
  proof cases
    case grow
    then have r: "row = (if a \<le> c then c - a else c + (n + k) - a)" "a < n + k"
      using assms(1,5) aged_index [of c "n + k" a] by (auto simp: row_def new_cur_def new_rows_def)
    consider "a \<le> c" | "c < a" "a < n" | "n \<le> a" using assms(1) by linarith
    then show ?goal
    proof cases
      case 1
      then have "row * d + d \<le> Suc c * d" using mono [of "Suc row" "Suc c"] r by simp
      then show ?thesis using 1 grow rows r old assms(1) by (simp add: new_vals_def splice_vals_before)
    next
      case 2
      then have "c + n - a + k = row" "Suc c + k \<le> row" using r by auto
      then have "(c + n - a) * d + k * d = row * d" "Suc c * d + k * d \<le> row * d"
        using mono [of "Suc c + k" row] by (metis add_mult_distrib)+
      then show ?thesis
        using 2 grow rows old by (simp add: new_vals_def) (subst splice_vals_behind, auto)
    next
      case 3
      then have "Suc c * d \<le> row * d" "row * d + d \<le> Suc c * d + k * d"
        using r assms(1) mono [of "Suc c" row] mono [of "Suc row" "Suc c + k"] by (auto simp: add_mult_distrib)
      then show ?thesis
        using 3 grow rows by (simp add: new_vals_def) (subst splice_vals_inside, auto)
    qed
  next
    case shrink
    then have r: "row = (if a \<le> c then c - a else c + (n - k) - a)" "a < n - k"
      using assms(2,5) aged_index [of c "n - k" a] by (auto simp: row_def new_cur_def new_rows_def)
    show ?goal
    proof (cases "a \<le> c")
      case True
      then have "row * d + d \<le> Suc c * d" using mono [of "Suc row" "Suc c"] r by simp
      then show ?thesis using True shrink rows r old by (simp add: new_vals_def splice_vals_before)
    next
      case False
      have an: "a < n" using r by simp
      from False have "row + k = c + n - a" "Suc c \<le> row" using r shrink by auto
      then have "row * d + k * d = (c + n - a) * d" "Suc c * d \<le> row * d"
        using mono [of "Suc c" row] by (metis add_mult_distrib)+
      then show ?thesis
        using False shrink rows r old an splice_vals_behind [of "b + Suc c * d" "[]" "b + row * d" xs
            "b + (c + n - a) * d" "b + (Suc c + k) * d" d]
        by (simp add: new_vals_def add_mult_distrib)
    qed
  next
    case wrap
    let ?e = "Suc (c + k - n)"
    have k: "k < n" using assms(3) wrap by simp
    then have r: "row = n - k - Suc a" "a < n - k"
      using wrap assms(1,2,5) aged_index [of "n - k - 1" "n - k" a]
      by (auto simp: row_def new_cur_def new_rows_def)
    have "Suc row \<le> n - k" using r by simp
    from mono [OF this] have "row * d + d \<le> (n - k) * d" by simp
    moreover have "?e + row = c - a" "?e + (n - k) \<le> n" using r wrap k assms(1) by auto
    then have "?e * d + row * d = (c - a) * d" "?e * d + (n - k) * d \<le> n * d"
      using mono [of "?e + (n - k)" n] by (metis add_mult_distrib)+
    moreover from this have idx: "drop (row * d + (b + (d + (c + k - n) * d))) xs = drop (b + (c - a) * d) xs"
      by (intro arg_cong [where f = "\<lambda>i. drop i xs"]) simp
    moreover have "(c + n - a) mod n = c - a" "b + n * d \<le> length xs" "a < n"
      using old r wrap k assms(1,4) by auto
    ultimately show ?goal
      using wrap idx by (simp add: new_vals_def) (subst splice_vals_inside, auto simp: drop_take)
  qed
  then show ?thesis by (simp only: row_def)
qed

lemma new_vals_before:
  assumes "m + d' \<le> b" "c < n" "b + n * d \<le> length xs"
  shows "take d' (drop m (new_vals gr k n c b d xs)) = take d' (drop m xs)"
proof -
  have "b + Suc c * d \<le> b + n * d" using assms(2) by (intro add_left_mono mult_le_mono1) simp
  then show ?thesis using assms by (auto simp: new_vals_def splice_vals_before)
qed

lemma new_vals_behind:
  assumes "b + n * d \<le> m" "c < n" "\<not> gr \<Longrightarrow> k < n" "b + n * d \<le> length xs"
    and "m' + n * d = m + new_rows gr k n * d"
  shows "take d' (drop m' (new_vals gr k n c b d xs)) = take d' (drop m xs)"
proof -
  have c: "Suc c * d \<le> n * d" using assms(2) by (intro mult_le_mono1) simp
  consider (grow) gr | (shrink) "\<not> gr" "c + k < n" | (wrap) "\<not> gr" "\<not> c + k < n" by blast
  then show ?thesis
  proof cases
    case grow
    then have "m' = m + k * d" using assms(5) by (simp add: new_rows_def add_mult_distrib)
    then show ?thesis
      using grow assms(1,4) c by (simp add: new_vals_def) (rule splice_vals_behind, auto)
  next
    case shrink
    then have "(n - k) * d + k * d = n * d" by (simp flip: add_mult_distrib)
    moreover have "(Suc c + k) * d \<le> n * d" using shrink by (intro mult_le_mono1) simp
    ultimately have "m' + k * d = m" "Suc c * d + k * d \<le> n * d" 
      using shrink assms(5) by (simp_all add: new_rows_def add_mult_distrib)
    then show ?thesis
      using shrink assms(1,4) c by (simp add: new_vals_def add_mult_distrib) (rule splice_vals_behind, auto)
  next
    case wrap
    let ?e = "Suc (c + k - n)"
    have "?e + (n - k) \<le> n" using wrap assms(2,3) by auto
    then have "?e * d + (n - k) * d \<le> n * d"
      using mult_le_mono1 [of "?e + (n - k)" n d] by (metis add_mult_distrib)
    then have "length (take ((n - k) * d) (drop (b + ?e * d) xs)) = (n - k) * d" using assms(4) by simp
    then show ?thesis
      using wrap assms(1,4,5) by (simp add: new_vals_def new_rows_def) (rule splice_vals_behind, auto)
  qed
qed

section \<open>The history of the new file\<close>

lemma open_pos: "rrd_open fn so c = (Some (r, f), c') \<Longrightarrow> pos f = header_len f"
  by (auto simp: rrd_open_def Let_def split: sys_open.splits sum.splits if_splits)

text \<open>The archives of an image, whatever the lengths of its header.\<close>

definition image_history :: "rrd_image \<Rightarrow> nat \<Rightarrow> dbl list list" where
  "image_history im i =
     history (img_rrd im) \<lparr>header_len = 0, file_len = 0, pos = 0, vals = img_vals im\<rparr> i"

lemma history_with_rows:
  fixes r i gr k xs l l' rows cur
  defines "d \<equiv> n_ds r" and "n \<equiv> n_rows r i" and "c \<equiv> cur_row r i"
  defines "im \<equiv> \<lparr>img_len = l, img_rrd = r, img_vals = xs\<rparr>"
    and "im' \<equiv> \<lparr>img_len = l', img_rrd = with_rows r i rows cur, img_vals = new_vals gr k n c (rra_base r i) d xs\<rparr>"
  assumes r: "wf_rrd r" "wf_rows r" "i < n_rra r" "rra_base r (n_rra r) \<le> length xs"
    and k: "0 < k" "\<not> gr \<Longrightarrow> k < n" "unat rows = new_rows gr k n" "unat cur = new_cur gr k n c"
  shows "image_history im' i = (if gr then image_history im i @ replicate k (replicate d DNAN)
                                else take (n - k) (image_history im i))"
    and "j < n_rra r \<Longrightarrow> j \<noteq> i \<Longrightarrow> image_history im' j = image_history im j"
    and "wf_rrd (with_rows r i rows cur)" "wf_rows (with_rows r i rows cur)"
proof -
  have lens: "length (rra_def r) = n_rra r" "length (rra_ptr r) = n_rra r" using r(1) by (simp_all add: wf_rrd_def)
  note rws = rows_with_rows [OF lens r(3), of rows cur] and base = base_with_rows [OF lens r(3), of _ rows cur]
  have c: "c < n" using r(2,3) by (simp add: wf_rows_def c_def n_def cur_row_def n_rows_def)
  have room: "rra_base r i + n * d \<le> length xs"
    using rra_base_disjoint [OF r(3), of r] r(4) by (simp add: rra_size_rows n_def d_def)
  show "image_history im' i = (if gr then image_history im i @ replicate k (replicate d DNAN)
                                else take (n - k) (image_history im i))"
  proof (rule nth_equalityI)
    show "length (image_history im' i) = length (if gr then image_history im i @ replicate k (replicate d DNAN)
                                else take (n - k) (image_history im i))"
      by (simp add: image_history_def im'_def im_def rws k(3) new_rows_def n_def)
    fix a assume "a < length (image_history im' i)"
    then have a: "a < new_rows gr k n" by (simp add: image_history_def im'_def rws k(3))
    have "image_history im' i ! a = take d (drop (rra_base r i + ((new_cur gr k n c + new_rows gr k n - a) mod new_rows gr k n) * d)
             (new_vals gr k n c (rra_base r i) d xs))"
      using a by (simp add: image_history_def im'_def history_def aged_row_def rra_row_def rws base k(3,4) d_def)
    also have "\<dots> = (if a < n then take d (drop (rra_base r i + ((c + n - a) mod n) * d) xs) else replicate d DNAN)"
      by (rule new_vals_aged) (use c k room a in auto)
    also have "\<dots> = (if gr then image_history im i @ replicate k (replicate d DNAN)
                                else take (n - k) (image_history im i)) ! a"
      using a by (auto simp: image_history_def im_def history_def aged_row_def rra_row_def new_rows_def n_def c_def d_def nth_append)
    finally show "image_history im' i ! a = (if gr then image_history im i @ replicate k (replicate d DNAN)
                                else take (n - k) (image_history im i)) ! a" .
  qed
  have row: "rra_row (with_rows r i rows cur) \<lparr>header_len = 0, file_len = 0, pos = 0, vals = img_vals im'\<rparr> j row =
      rra_row r \<lparr>header_len = 0, file_len = 0, pos = 0, vals = xs\<rparr> j row"
    if "j < n_rra r" "j \<noteq> i" "row < n_rows r j" for j row
  proof (cases "j < i")
    case True
    then have "rra_base r j + row * d + d \<le> rra_base r i"
      using row_end [OF that(3)] rra_base_disjoint [OF True, of r] by (simp add: d_def)
    then show ?thesis
      using True new_vals_before [OF _ c room] base(1) [of j] by (simp add: rra_row_def im'_def d_def)
  next
    case False
    then have ij: "i < j" using that(2) by simp
    have "rra_base r i + n * d \<le> rra_base r j"
      using rra_base_disjoint [OF ij, of r] by (simp add: rra_size_rows n_def d_def)
    then show ?thesis
      using new_vals_behind [of "rra_base r i" n d "rra_base r j + row * d" c gr k xs "rra_base (with_rows r i rows cur) j + row * d" d]
        c k(2) room base(2) [OF ij] k(3)
      by (simp add: rra_row_def im'_def d_def n_def)
  qed
  show "image_history im' j = image_history im j" if "j < n_rra r" "j \<noteq> i"
  proof -
    have "0 < n_rows r j" using r(2) that(1) by (auto simp: wf_rows_def n_rows_def)
    then show ?thesis
      using that row [OF that] rws
      by (simp add: image_history_def im'_def im_def history_def aged_row_def)
  qed
  show "wf_rrd (with_rows r i rows cur)" by (rule wf_with_rows [OF r(1,3)])
  show "wf_rows (with_rows r i rows cur)"
    using r(2) rws k c by (auto simp: wf_rows_def n_rows_def cur_row_def new_rows_def new_cur_def split: if_splits)
qed

section \<open>The command\<close>

lemma values_before_base:
  assumes "i \<le> length (rra_def r)"
  shows "values_before r i = of_nat (rra_base r i)"
proof -
  have "i \<le> length (rra_def r) \<Longrightarrow>
      sum_list (map (\<lambda>d. ds_cnt (stat_head r) * row_cnt d) (take i (rra_def r))) = of_nat (rra_base r i)" for i
    by (induction i) (simp_all add: take_Suc_conv_app_nth rra_size_def mult.commute)
  with assms show ?thesis by (simp add: values_before_def)
qed

lemma resize_values_ok:
  fixes s i gr k
  defines "r \<equiv> db (rz_out s)"
  defines "d \<equiv> n_ds r" and "n \<equiv> n_rows r i" and "c \<equiv> cur_row r i"
  assumes t: "transfer xs m 0 [] s" and r: "wf_rrd r" "wf_rows r" "i < n_rra r"
    and xs: "rra_base r (n_rra r) \<le> length xs" "m + n * d = length xs + new_rows gr k n * d"
    and k: "0 < k" "\<not> gr \<Longrightarrow> k < n"
    and small: "m < 2 ^ 60" "length xs < 2 ^ 60" "n + k < 2 ^ 60" "d < 2 ^ 32"
  shows "\<exists>s' rows cur. resize_values i gr k s = Some s' \<and> db (rz_out s') = with_rows r i rows cur \<and>
           unat rows = new_rows gr k n \<and> unat cur = new_cur gr k n c \<and>
           ctx.truncate (rz_out s') = ctx.truncate (rz_out s) \<and>
           file_len (dbfile (rz_out s')) = file_len (dbfile (rz_out s)) \<and>
           length (vals (dbfile (rz_out s'))) = m \<and>
           vals (dbfile (rz_out s')) = new_vals gr k n c (rra_base r i) d xs"
proof -
  let ?b = "rra_base r i"
  have lens: "length (rra_def r) = n_rra r" "length (rra_ptr r) = n_rra r" using r(1) by (simp_all add: wf_rrd_def)
  have c: "c < n" using r(2,3) by (simp add: wf_rows_def c_def n_def cur_row_def n_rows_def)
  have room: "?b + n * d \<le> length xs"
    using rra_base_disjoint [OF r(3), of r] xs(1) by (simp add: rra_size_rows n_def d_def)
  have before: "unat (values_before r i) = ?b"
    using lens r(3) room small(2) by (simp add: values_before_base unat_of_nat take_bit_nat_eq_self)
  have rows_le: "new_rows gr k n * d + ?b \<le> m" using xs(2) room by linarith
  obtain s1 where s1: "copy_values ?b s = Some s1" "transfer xs m ?b (take ?b xs) s1" "same_target s s1"
    using copy_values_ok [OF t, of ?b] room rows_le by auto
  have r1: "db (rz_out s1) = r" using s1(3) by (simp add: same_target_def r_def)
  have len: "length (take ?b xs) = ?b" using room by simp
  have sc: "Suc c * d \<le> n * d" using c by (intro mult_le_mono1) simp
  have ptr: "unat (rra_ptr r ! i) = c" "unat (row_cnt (rra_def r ! i)) = n"
    by (simp_all add: c_def cur_row_def n_def n_rows_def)
  have "\<exists>rows cur s2.
      (if gr then grow_archive else shrink_archive) (rra_ptr r ! i) (row_cnt (rra_def r ! i)) k s1 = Some (cur, rows, s2) \<and>
      unat rows = new_rows gr k n \<and> unat cur = new_cur gr k n c \<and> same_target s1 s2 \<and>
      (\<exists>p ws. transfer xs m p ws s2 \<and> p \<le> length xs \<and> length ws + (length xs - p) = m \<and>
         ws @ drop p xs = new_vals gr k n c ?b d xs)"
  proof (cases gr)
    case True
    let ?ws = "take ?b xs @ take (Suc c * d) (drop ?b xs) @ replicate (k * d) DNAN"
    have "length (take ?b xs) + (Suc c + k) * d \<le> m"
      using xs(2) room sc len True by (simp add: new_rows_def add_mult_distrib)
    then obtain s2 where s2: "grow_archive (rra_ptr r ! i) (row_cnt (rra_def r ! i)) k s1 =
        Some (rra_ptr r ! i, row_cnt (rra_def r ! i) + of_nat k, s2)" "same_target s1 s2"
      "transfer xs m (?b + Suc c * d) ?ws s2"
      using grow_archive_ok [OF s1(2) ptr(1), of k "row_cnt (rra_def r ! i)"] room sc c small
      by (auto simp: r1 d_def)
    have rows: "unat (row_cnt (rra_def r ! i) + of_nat k) = new_rows True k n"
      using ptr(2) small(3) by (subst unat_add_lem [THEN iffD1]) (simp_all add: unat_of_nat take_bit_nat_eq_self new_rows_def)
    have "length ?ws + (length xs - (?b + Suc c * d)) = m"
      using xs(2) room sc len True by (simp add: new_rows_def add_mult_distrib)
    moreover have "?ws @ drop (?b + Suc c * d) xs = new_vals gr k n c ?b d xs"
      using True by (simp add: new_vals_def splice_vals_def take_add)
    moreover have "?b + Suc c * d \<le> length xs" using room sc by simp
    ultimately have "\<exists>p ws. transfer xs m p ws s2 \<and> p \<le> length xs \<and> length ws + (length xs - p) = m \<and>
         ws @ drop p xs = new_vals gr k n c ?b d xs" using s2(3) by blast
    then show ?thesis
      using True s2(1,2) rows ptr(1)
      by (intro exI [of _ "row_cnt (rra_def r ! i) + of_nat k"] exI [of _ "rra_ptr r ! i"] exI [of _ s2])
         (simp add: new_cur_def)
  next
    case False
    then have kn: "k < n" by (rule k(2))
    have words: "rra_ptr r ! i = of_nat c" "row_cnt (rra_def r ! i) = of_nat n" using ptr by auto
    let ?p = "if c + k < n then ?b + (Suc c + k) * d else ?b + n * d"
    let ?ws = "take ?b xs @ (if c + k < n then take (Suc c * d) (drop ?b xs)
                             else take ((n - k) * d) (drop (?b + Suc (c + k - n) * d) xs))"
    have m: "m = length xs - k * d" "k * d \<le> n * d" "(n - k) * d + k * d = n * d"
      using xs(2) room kn False by (auto simp: new_rows_def diff_mult_distrib)
    have "length (take ?b xs) + (n - k) * d \<le> m" using m room len by linarith
    moreover have rd: "n_ds (db (rz_out s1)) = d" by (simp add: r1 d_def)
    ultimately obtain s2 where s2:
      "shrink_archive (rra_ptr r ! i) (row_cnt (rra_def r ! i)) k s1 =
        Some (if c + k < n then rra_ptr r ! i else rra_ptr r ! i - of_nat (Suc (c + k - n)),
          row_cnt (rra_def r ! i) - of_nat k, s2)" "same_target s1 s2"
      "transfer xs m ?p ?ws s2"
      using shrink_archive_ok [OF s1(2) ptr c k(1) kn, unfolded rd] room small by (auto split: if_splits)
    have rows: "unat (row_cnt (rra_def r ! i) - of_nat k) = new_rows False k n"
    proof -
      have "row_cnt (rra_def r ! i) - of_nat k = of_nat (n - k)"
        using kn words(2) by (simp only: of_nat_diff less_imp_le)
      then show ?thesis
        using small(3) by (simp add: unat_of_nat take_bit_nat_eq_self new_rows_def del: of_nat_diff)
    qed
    have cur: "unat (if c + k < n then rra_ptr r ! i else rra_ptr r ! i - of_nat (Suc (c + k - n))) = new_cur False k n c"
    proof (cases "c + k < n")
      case False
      then have "rra_ptr r ! i - of_nat (Suc (c + k - n)) = of_nat (c - Suc (c + k - n))"
        using kn c words(1) by (subst of_nat_diff) simp_all
      then show ?thesis
        using False c small(3) by (simp add: unat_of_nat take_bit_nat_eq_self new_cur_def del: of_nat_diff)
    qed (use ptr in \<open>simp add: new_cur_def\<close>)
    have fit: "?p \<le> length xs \<and> length ?ws + (length xs - ?p) = m \<and> ?ws @ drop ?p xs = new_vals gr k n c ?b d xs"
    proof (cases "c + k < n")
      case True
      have "(Suc c + k) * d \<le> n * d" using True by (intro mult_le_mono1) simp
      then show ?thesis
        using True False m room len
        by (simp add: new_vals_def splice_vals_def take_add add_mult_distrib)
    next
      case wrap: False
      have "Suc (c + k - n) + (n - k) \<le> n" using wrap kn c by simp
      then have "Suc (c + k - n) * d + (n - k) * d \<le> n * d" by (metis add_mult_distrib mult_le_mono1)
      then have "length (take ((n - k) * d) (drop (?b + Suc (c + k - n) * d) xs)) = (n - k) * d" using room by simp
      moreover have "(n - k) * d + length xs - n * d = length xs - k * d" using m(3) room by linarith
      ultimately show ?thesis
        using wrap False m room len by (simp add: new_vals_def splice_vals_def)
    qed
    then have "\<exists>p ws. transfer xs m p ws s2 \<and> p \<le> length xs \<and> length ws + (length xs - p) = m \<and>
         ws @ drop p xs = new_vals gr k n c ?b d xs" using s2(3) by blast
    then show ?thesis
      using False s2(1,2) rows cur
      by (intro exI [of _ "row_cnt (rra_def r ! i) - of_nat k"]
          exI [of _ "if c + k < n then rra_ptr r ! i else rra_ptr r ! i - of_nat (Suc (c + k - n))"] exI [of _ s2])
         (simp del: of_nat_Suc of_nat_diff)
  qed
  then obtain rows cur s2 where s2:
    "(if gr then grow_archive else shrink_archive) (rra_ptr r ! i) (row_cnt (rra_def r ! i)) k s1 = Some (cur, rows, s2)"
    "unat rows = new_rows gr k n" "unat cur = new_cur gr k n c" "same_target s1 s2"
    "\<exists>p ws. transfer xs m p ws s2 \<and> p \<le> length xs \<and> length ws + (length xs - p) = m \<and>
       ws @ drop p xs = new_vals gr k n c ?b d xs" by blast
  then obtain p ws where p: "transfer xs m p ws s2" "p \<le> length xs" "length ws + (length xs - p) = m"
    "ws @ drop p xs = new_vals gr k n c ?b d xs" by blast
  obtain s3 where s3: "copy_rest s2 = Some s3" "vals (dbfile (rz_out s3)) = ws @ drop p xs" "same_target s2 s3"
    using copy_rest_ok [OF p(1-3)] by blast
  have same: "same_target s s3" using s1(3) s2(4) s3(3) by (blast intro: same_target_trans)
  have len_out: "length (new_vals gr k n c ?b d xs) = m" using p(2,3) by (simp flip: p(4))
  show ?thesis
    using before s1(1) s2(1-3) s3(1,2) same p(4) len_out
    by (intro exI [of _ "s3\<lparr>rz_out := (rz_out s3)\<lparr>db := with_rows r i rows cur\<rparr>\<rparr>"] exI [of _ rows] exI [of _ cur])
       (simp add: resize_values_def Let_def r_def [symmetric] same_target_def with_rows_def ctx.truncate_def)
qed

text \<open>The size the new file is created with.\<close>

lemma resized_size:
  assumes "wf_rrd r" "i < n_rra r" "\<not> gr \<Longrightarrow> k < n_rows r i" "n_rows r i + k < 2 ^ 60"
    and "rrd_get_header_size r + sizeof_value * (total_values r + k * n_ds r) < 2 ^ 60"
  shows "\<exists>t. unat (newfile_size (resized_defs r i (if gr then int k else - int k))) =
               rrd_get_header_size r + sizeof_value * t \<and>
             t + n_rows r i * n_ds r = total_values r + new_rows gr k (n_rows r i) * n_ds r"
proof -
  let ?n = "n_rows r i"
  define rows where "rows = row_cnt (rra_def r ! i) + word_of_int (if gr then int k else - int k)"
  have n: "row_cnt (rra_def r ! i) = of_nat ?n" by (simp add: n_rows_def)
  have rw: "rows = of_nat (new_rows gr k ?n)"
    using assms(3) unfolding rows_def n by (auto simp: new_rows_def of_nat_diff)
  have unat_rows: "unat rows = new_rows gr k ?n"
    unfolding rw using assms(4) by (auto simp: unat_of_nat take_bit_nat_eq_self new_rows_def simp del: of_nat_diff)
  let ?r = "resized_defs r i (if gr then int k else - int k)" let ?t = "total_values ?r"
  have tv: "?t = total_values (with_rows r i rows (rra_ptr r ! i))"
    by (simp add: total_values_def resized_defs_def with_rows_def rows_def)
  have "i < length (rra_def r)" using assms(1,2) by (simp add: wf_rrd_def)
  from total_with_rows [OF this, of rows] have
    t: "?t + ?n * n_ds r = total_values r + new_rows gr k ?n * n_ds r" unfolding tv unat_rows .
  have "new_rows gr k ?n * n_ds r \<le> (?n + k) * n_ds r" by (intro mult_le_mono1) (auto simp: new_rows_def)
  then have "?t \<le> total_values r + k * n_ds r" using t by (simp add: add_mult_distrib)
  then have "rrd_get_header_size ?r + sizeof_value * ?t < 2 ^ 64"
    using assms(5) by (simp add: resized_defs_def rrd_get_header_size_def sizeof_value_def)
  from newfile_size_fits [OF this] t show ?thesis
    by (intro exI [of _ ?t]) (simp add: resized_defs_def rrd_get_header_size_def)
qed

lemma version_kept: "head_valid h \<Longrightarrow> version_upgrade (version h) = version h"
  "head_valid h \<Longrightarrow> (atoi (version h) = 3 \<or> atoi (version h) = 4) \<and> atoi (version h) \<noteq> 1"
  by (auto simp: head_valid_def version_upgrade_def RRD_VERSION_def RRD_VERSION3_def header_versions)

lemma resize_open_ok:
  fixes im i gr k
  defines "r \<equiv> img_rrd im"
  defines "n \<equiv> n_rows r i" and "d \<equiv> n_ds r"
  assumes im: "image_ok im" and op: "rrd_open fn (Opened im) c = (Some (r, f), c)"
    and i: "i < n_rra r" "0 < d" "d < 2 ^ 32" and k: "0 < k" "\<not> gr \<Longrightarrow> k < n"
    and e: "rz_locked e" "rz_locked_new e" "rz_create e = None"
    and size: "img_len im + sizeof_value * (k * d) < 2 ^ 60"
  shows "\<exists>im'. resize_open e r f (of_nat i) gr (int k) c = Some (0, Some (Opened im'), c) \<and> image_ok im' \<and>
           image_history im' i = (if gr then image_history im i @ replicate k (replicate d DNAN)
                                  else take (n - k) (image_history im i)) \<and>
           (\<forall>j < n_rra r. j \<noteq> i \<longrightarrow> image_history im' j = image_history im j) \<and>
           (\<exists>rows cur. img_rrd im' = with_rows r i rows cur)"
proof -
  have wf: "wf_rrd r" "wf_rows r" "head_valid (stat_head r)"
    "img_len im = rrd_get_header_size r + sizeof_value * total_values r"
    "length (img_vals im) = Suc (total_values r)"
    using im by (simp_all add: image_ok_def r_def)
  have lens: "length (rra_def r) = n_rra r" using wf(1) by (simp add: wf_rrd_def)
  have base: "rra_base r (n_rra r) = total_values r" by (rule rra_base_total [OF lens])
  obtain f' where f': "rrd_open fn (Opened im) c = (Some (img_rrd im, f'), c)" "vals f' = img_vals im"
    "file_len f' = img_len im" "header_len f' = created_header_len (img_rrd im)"
    using open_image_ok [OF im] by blast
  then have f: "vals f = img_vals im" "file_len f = img_len im" "header_len f = created_header_len r" "pos f = header_len f"
    using op open_pos [OF op] by (auto simp: r_def)
  have hl: "rrd_get_header_size r = created_header_len r + 8"
    by (simp add: created_header_len_def rrd_get_header_size_def sizeof_defs)
  have "n * d \<le> total_values r"
    using rra_base_disjoint [OF i(1), of r] base by (simp add: rra_size_rows n_def d_def)
  moreover have "n \<le> n * d" "k \<le> k * d" using i(2) by auto
  ultimately have sm: "n + k < 2 ^ 60" "total_values r + k * d < 2 ^ 60"
    using size wf(4) unfolding sizeof_value_def by linarith+
  have "rrd_get_header_size r + sizeof_value * (total_values r + k * d) < 2 ^ 60"
    using size wf(4) by (simp add: sizeof_value_def)
  note small = sm this
  let ?mod = "if gr then int k else - int k"
  obtain t where t: "unat (newfile_size (resized_defs r i ?mod)) = rrd_get_header_size r + sizeof_value * t"
    "t + n * d = total_values r + new_rows gr k n * d"
    using resized_size [OF wf(1) i(1), of gr k] k(2) small unfolding n_def d_def by blast
  have iw: "unat (of_nat i :: ulong) = i" "\<not> (of_nat i :: ulong) \<ge> rra_cnt (stat_head r)"
    using i(1) less_trans [OF i(1) unsigned_less]
    by (simp_all add: unat_of_nat take_bit_nat_eq_self word_le_nat_alt)
  define s0 where "s0 = new_resizing r f i ?mod c"
  have head: "(stat_head r)\<lparr>version := version (stat_head r)\<rparr> = stat_head r" "r\<lparr>stat_head := stat_head r\<rparr> = r" by simp_all
  have s0: "db (rz_out s0) = r" "ctx.truncate (rz_out s0) = c"
    "file_len (dbfile (rz_out s0)) = rrd_get_header_size r + sizeof_value * t"
    by (simp_all add: s0_def new_resizing_def Let_def version_kept(1) [OF wf(3)] t(1) ctx.truncate_def)
  have tr: "transfer (img_vals im) (Suc t) 0 [] s0"
    using f wf(4,5) hl t(1) by (simp add: transfer_def s0_def new_resizing_def Let_def sizeof_value_def)
  have t_le: "t \<le> total_values r + k * d"
  proof -
    have "new_rows gr k n \<le> n + k" by (simp add: new_rows_def trans_le_add1)
    from mult_le_mono1 [OF this, of d] t(2) show ?thesis by (simp add: add_mult_distrib)
  qed
  have xs: "rra_base r (n_rra r) \<le> length (img_vals im)"
    "Suc t + n * d = length (img_vals im) + new_rows gr k n * d"
    "Suc t < 2 ^ 60" "length (img_vals im) < 2 ^ 60"
    using base wf(5) t(2) t_le small(3) by (simp_all add: sizeof_value_def rrd_get_header_size_def sizeof_defs)
  note run = resize_values_ok [OF tr, of i gr k, unfolded s0, OF wf(1,2) i(1) xs(1), folded n_def d_def,
      OF xs(2) k xs(3,4) small(1) i(3)]
  then obtain s' rows cur where s': "resize_values i gr k s0 = Some s'" "db (rz_out s') = with_rows r i rows cur"
    "unat rows = new_rows gr k n" "unat cur = new_cur gr k n (cur_row r i)" "ctx.truncate (rz_out s') = c"
    "file_len (dbfile (rz_out s')) = rrd_get_header_size r + sizeof_value * t"
    "length (vals (dbfile (rz_out s'))) = Suc t"
    "vals (dbfile (rz_out s')) = new_vals gr k n (cur_row r i) (rra_base r i) d (img_vals im)"
    by blast
  let ?im' = "\<lparr>img_len = rrd_get_header_size r + sizeof_value * t, img_rrd = with_rows r i rows cur,
      img_vals = new_vals gr k n (cur_row r i) (rra_base r i) d (img_vals im)\<rparr>"
  have im_eq: "im = \<lparr>img_len = img_len im, img_rrd = r, img_vals = img_vals im\<rparr>" by (simp add: r_def)
  note hist = history_with_rows(1,2) [OF wf(1,2) i(1) xs(1), where k = k and gr = gr and rows = rows and cur = cur
      and l' = "rrd_get_header_size r + sizeof_value * t" and l = "img_len im", folded n_def d_def im_eq, OF k s'(3,4)]
  note shape = history_with_rows(3,4) [OF wf(1,2) i(1) xs(1), where k = k and gr = gr and rows = rows and cur = cur,
      folded n_def d_def, OF k s'(3,4)]
  have fits: "\<not> unat (newfile_size (resized_defs r i ?mod)) < rrd_get_header_size r" using t(1) by simp
  have "sint (row_cnt (rra_def r ! i)) = int n"
    unfolding n_def n_rows_def by (rule sint_unat) (use small(1) in \<open>simp add: n_def n_rows_def\<close>)
  then have big: "\<not> (\<not> gr \<and> sint (row_cnt (rra_def r ! i)) \<le> int k)" using k(2) by auto
  have "resize_open e r f (of_nat i) gr (int k) c = Some (0, Some (Opened ?im'), c)"
    using e iw fits big version_kept(2) [OF wf(3)] s' by (auto simp: resize_open_def s0_def)
  moreover have "image_ok ?im'"
    using shape wf(3) s'(7,8) total_with_rows [of i r rows cur] lens i(1) t(2) t_le small(3) s'(3)
    by (simp add: image_ok_def n_def d_def sizeof_value_def)
  moreover note hist(1,2)
  ultimately show ?thesis by (intro exI [of _ ?im']) auto
qed

section \<open>The property\<close>

text \<open>C15. A resize changes the history of the one archive it names. On a file as creations and updates
  leave it, growing archive \<open>i\<close> by \<open>k\<close> rows puts \<open>k\<close> unknown rows behind its oldest ones,
  and shrinking it by \<open>k\<close> of its more than \<open>k\<close> rows drops its \<open>k\<close> oldest rows, wherever
  the current row stands; every other archive keeps its history, the header its data sources and
  scratch areas, and the new file is again one that opens.\<close>

theorem resize_changes_history:
  assumes "image_ok im" and "i < n_rra (img_rrd im)"
    and "fn \<noteq> ''resize.rrd''" "mode = ''GROW'' \<or> mode = ''SHRINK'' \<and> k < n_rows (img_rrd im) i"
    and "strtol_any is = int i" "strtol_any ns = int k" "0 < k"
    and "0 < n_ds (img_rrd im)" "n_ds (img_rrd im) < 2 ^ 32"
    and "img_len im + sizeof_value * (k * n_ds (img_rrd im)) < 2 ^ 60"
    and "rz_locked e" "rz_locked_new e" "rz_create e = None"
  shows "\<exists>im'. rrd_resize e (Opened im) [fn, is, mode, ns] c = Some (0, Some (Opened im'), c) \<and> image_ok im' \<and>
           image_history im' i =
             (if mode = ''GROW'' then image_history im i @ replicate k (replicate (n_ds (img_rrd im)) DNAN)
              else take (n_rows (img_rrd im) i - k) (image_history im i)) \<and>
           (\<forall>j < n_rra (img_rrd im). j \<noteq> i \<longrightarrow> image_history im' j = image_history im j) \<and>
           ds_def (img_rrd im') = ds_def (img_rrd im) \<and> pdp_prep (img_rrd im') = pdp_prep (img_rrd im) \<and>
           cdp_prep (img_rrd im') = cdp_prep (img_rrd im) \<and> live_head (img_rrd im') = live_head (img_rrd im)"
proof -
  obtain f where f: "rrd_open fn (Opened im) c = (Some (img_rrd im, f), c)"
    using open_image_ok [OF assms(1)] by blast
  have mode: "\<not> mode = ''GROW'' \<Longrightarrow> k < n_rows (img_rrd im) i" using assms(4) by auto
  from resize_open_ok [OF assms(1) f assms(2,8,9,7) mode assms(11,12,13,10)] obtain im' where im':
    "resize_open e (img_rrd im) f (of_nat i) (mode = ''GROW'') (int k) c = Some (0, Some (Opened im'), c)"
    "image_ok im'"
    "image_history im' i =
       (if mode = ''GROW'' then image_history im i @ replicate k (replicate (n_ds (img_rrd im)) DNAN)
        else take (n_rows (img_rrd im) i - k) (image_history im i))"
    "\<forall>j < n_rra (img_rrd im). j \<noteq> i \<longrightarrow> image_history im' j = image_history im j"
    "\<exists>rows cur. img_rrd im' = with_rows (img_rrd im) i rows cur"
    by blast
  have "rrd_resize e (Opened im) [fn, is, mode, ns] c = Some (0, Some (Opened im'), c)"
    using f im'(1) assms(3-7) by (auto simp: rrd_resize_def)
  then show ?thesis using im' by (intro exI [of _ im']) auto
qed

lemma small_numbers: "strtol_any ''0'' = int 0" "strtol_any ''2'' = int 2"
  by code_simp+

theorem resize_changes_history_witness:
  "\<exists>im im'. rrd_resize \<lparr>rz_locked = True, rz_locked_new = True, rz_create = None\<rparr> (Opened im)
       [''a.rrd'', ''0'', ''GROW'', ''2''] init_ctx = Some (0, Some (Opened im'), init_ctx) \<and>
     image_history im' 0 = image_history im 0 @ [[DNAN], [DNAN]]"
proof -
  obtain im c' where im: "rrd_create_r new_env True ''a.rrd'' 300 1200000000 new_args init_ctx
      = Some (0, Some (Opened im), c')" "same_defs new_rrd (img_rrd im)"
    using new_creation by blast
  note ok = create_image_ok(1) [OF im(1) new_hyps(1) new_image_total [OF im(2)]]
  have r: "n_rra (img_rrd im) = 1" "n_ds (img_rrd im) = 1"
    using im(2) by (simp_all add: same_defs_def new_rrd_def)
  have len: "img_len im + sizeof_value * (2 * n_ds (img_rrd im)) < 2 ^ 60"
    using ok total_same_defs [OF im(2)] new_total r
    by (simp add: image_ok_def rrd_get_header_size_def sizeof_defs)
  from resize_changes_history [OF ok, of 0 "''a.rrd''" "''GROW''" 2 "''0''" "''2''"
      "\<lparr>rz_locked = True, rz_locked_new = True, rz_create = None\<rparr>" init_ctx]
  moreover have "replicate 2 [DNAN] = [[DNAN], [DNAN]]" by (simp add: numeral_2_eq_2)
  ultimately show ?thesis using r len small_numbers by auto
qed

end
