(* ===== verification/Rrd_Client.thy ===== *)
theory Rrd_Client
  imports CNumber
begin

text \<open>
  The client side of the protocol of the caching daemon (\<open>rrd_client.c\<close>): requests are encoded into
  a buffer of 4096 bytes, answers are read line by line. The sockets, the name service and the
  other system calls are the environment; \<open>serve\<close> is what the daemon sends in answer to a
  request, given the earlier ones. \<open>None\<close> is a failed assertion.
\<close>

record client = ctx +
  cl_sd :: int
  cl_open :: bool
  cl_path :: "string option"
  cl_in :: string
  cl_out :: "string list"

record client_env =
  ce_address :: "string option"
  ce_realpath :: "string \<Rightarrow> string + string"
  ce_unix :: "string \<Rightarrow> int"
  ce_resolve :: "string \<Rightarrow> string \<Rightarrow> string + int list"
  ce_strerror :: "int \<Rightarrow> string"
  ce_time :: int
  ce_fd :: nat
  ce_write :: bool
  serve :: "string list \<Rightarrow> string \<Rightarrow> string"

definition ENOBUFS :: int where "ENOBUFS = 105"
definition ENOTCONN :: int where "ENOTCONN = 107"
definition EIO :: int where "EIO = 5"
definition EPROTO :: int where "EPROTO = 71"

definition starts_with :: "string \<Rightarrow> string \<Rightarrow> bool" where
  "starts_with p s \<longleftrightarrow> take (length p) s = p"

section \<open>The path of a database\<close>

definition get_path :: "client_env \<Rightarrow> string \<Rightarrow> client \<Rightarrow> string option \<times> client" where
  "get_path e path c =
     (case cl_path c of
        None \<Rightarrow> (None, c)
      | Some sd_path \<Rightarrow>
          (if starts_with ''/'' sd_path \<or> starts_with ''unix:'' sd_path then
             (case ce_realpath e path of
                Inr p \<Rightarrow> (Some p, c)
              | Inl m \<Rightarrow> (None, rrd_set_error (''realpath('' @ path @ ''): '' @ m) c))
           else if starts_with ''/'' path then
             (None, rrd_set_error ''absolute path names not allowed when talking to a remote daemon'' c)
           else (Some path, c)))"

definition client_close :: "client \<Rightarrow> client" where
  "client_close c = c\<lparr>cl_sd := - 1, cl_open := False, cl_path := None, cl_in := []\<rparr>"

section \<open>Encoding requests\<close>

text \<open>The text for a string in a buffer with so many bytes left, and the bytes left behind it:
  blanks and backslashes are escaped, a blank ends the field.\<close>

fun buffer_add_string :: "string \<Rightarrow> nat \<Rightarrow> (string \<times> nat) option" where
  "buffer_add_string s 0 = None"
| "buffer_add_string [] (Suc n) = Some ('' '', n)"
| "buffer_add_string (ch # s) (Suc n) =
     (if ch = CHR '' '' \<or> ch = CHR 0x5C then
        (case n of
           0 \<Rightarrow> None
         | Suc m \<Rightarrow> map_option (\<lambda>(t, k). (CHR 0x5C # ch # t, k)) (buffer_add_string s m))
      else map_option (\<lambda>(t, k). (ch # t, k)) (buffer_add_string s n))"

definition buffer_add_value :: "client_env \<Rightarrow> string \<Rightarrow> nat \<Rightarrow> (string \<times> nat) option" where
  "buffer_add_value e v n =
     buffer_add_string
       (take 4095 (if starts_with ''N:'' v then show_nat (nat (ce_time e mod 2 ^ 64)) @ '':'' @ drop 2 v
                   else v)) n"

fun add_values :: "client_env \<Rightarrow> string list \<Rightarrow> nat \<Rightarrow> (string \<times> nat) option" where
  "add_values e [] n = Some ([], n)"
| "add_values e (v # vs) n =
     (case buffer_add_value e v n of
        None \<Rightarrow> None
      | Some (t, m) \<Rightarrow> map_option (\<lambda>(u, k). (t @ u, k)) (add_values e vs m))"

text \<open>The blank at the end becomes the end of the line.\<close>

definition end_line :: "string \<Rightarrow> string option" where
  "end_line t = (if t = [] \<or> hd (rev t) \<noteq> CHR '' '' then None else Some (butlast t @ [CHR 0x0A]))"

section \<open>Answers\<close>

text \<open>\<open>fgets\<close> with a buffer of 4096 bytes.\<close>

fun take_line :: "nat \<Rightarrow> string \<Rightarrow> string \<times> string" where
  "take_line 0 s = ([], s)"
| "take_line (Suc n) [] = ([], [])"
| "take_line (Suc n) (ch # s) =
     (if ch = CHR 0x0A then ([ch], s) else (case take_line n s of (l, r) \<Rightarrow> (ch # l, r)))"

definition cstr :: "string \<Rightarrow> string" where
  "cstr s = takeWhile (\<lambda>ch. ch \<noteq> CHR 0x00) s"

definition fgets :: "client \<Rightarrow> string option \<times> client" where
  "fgets c =
     (if cl_in c = [] then (None, c)
      else (case take_line 4095 (cl_in c) of (l, r) \<Rightarrow> (Some (cstr l), c\<lparr>cl_in := r\<rparr>)))"

definition chomp :: "string \<Rightarrow> string" where
  "chomp s = rev (dropWhile (\<lambda>ch. ch = CHR 0x0A \<or> ch = CHR 0x0D) (rev s))"

text \<open>\<open>strtol\<close> with base 0 and the text behind the number; without a number nothing is read.\<close>

definition strtol_end :: "string \<Rightarrow> int \<times> string" where
  "strtol_end s0 =
     (case take_sign (skip_space s0) of (neg, s) \<Rightarrow>
        let hex = case_prefix ''0x'' s \<and> takeWhile is_xdigit (drop 2 s) \<noteq> [];
            oct = (s \<noteq> [] \<and> hd s = CHR ''0'');
            digit = (if hex then is_xdigit else if oct then (\<lambda>ch. isdigit ch \<and> digit_val ch < 8) else isdigit);
            body = (if hex then drop 2 s else s);
            ds = takeWhile digit body;
            v = (if hex then xdigits_val ds
                 else if oct then foldl (\<lambda>v ch. 8 * v + digit_val ch) 0 ds else digits_val ds)
        in if ds = [] then (0, s0)
           else (if neg then max (- (2 ^ 63)) (- v) else min (2 ^ 63 - 1) v, dropWhile digit body))"

record rrdc_response_t =
  rs_status :: int
  rs_message :: string
  rs_lines :: "string list"

fun read_lines :: "nat \<Rightarrow> client \<Rightarrow> string list option \<times> client" where
  "read_lines 0 c = (Some [], c)"
| "read_lines (Suc n) c =
     (case fgets c of
        (None, c1) \<Rightarrow> (None, c1)
      | (Some l, c1) \<Rightarrow>
          (case read_lines n c1 of
             (None, c2) \<Rightarrow> (None, c2)
           | (Some ls, c2) \<Rightarrow> (Some (chomp l # ls), c2)))"

text \<open>The result is the response or the negative code of the failure, which closes the
  connection.\<close>

definition response_read :: "client \<Rightarrow> (int + rrdc_response_t) \<times> client" where
  "response_read c =
     (if \<not> cl_open c then (Inl (- 1), client_close c)
      else
        (case fgets c of
           (None, c1) \<Rightarrow> (Inl (- 3), client_close c1)
         | (Some l, c1) \<Rightarrow>
             (case strtol_end (chomp l) of (v, rest) \<Rightarrow>
                if rest = chomp l then (Inl (- 4), client_close c1)
                else
                  (let st = wrap_int v;
                       msg = dropWhile (\<lambda>ch. ch = CHR '' '' \<or> ch = CHR 0x09) rest
                   in if st \<le> 0 then
                        (Inr \<lparr>rs_status = st, rs_message = msg, rs_lines = []\<rparr>,
                         if st < 0 then rrd_set_error (''rrdcached: '' @ msg) c1 else c1)
                      else
                        (case read_lines (nat st) c1 of
                           (None, c2) \<Rightarrow> (Inl (- 6), client_close c2)
                         | (Some ls, c2) \<Rightarrow>
                             (Inr \<lparr>rs_status = st, rs_message = msg, rs_lines = ls\<rparr>, c2))))))"

definition client_request :: "client_env \<Rightarrow> string \<Rightarrow> client \<Rightarrow> (int + rrdc_response_t) \<times> client" where
  "client_request e buffer c =
     (if \<not> cl_open c then (Inl ENOTCONN, c)
      else if \<not> ce_write e then
        (Inl (- 1), rrd_set_error ''request: socket error (0) while talking to rrdcached'' (client_close c))
      else
        (case response_read (c\<lparr>cl_in := cl_in c @ serve e (cl_out c) buffer, cl_out := cl_out c @ [buffer]\<rparr>) of
           (Inl s, c1) \<Rightarrow> (Inl s, rrd_set_error ''request: internal error while talking to rrdcached'' c1)
         | (Inr r, c1) \<Rightarrow> (Inr r, c1)))"

section \<open>Connections\<close>

definition RRDCACHED_DEFAULT_PORT :: string where "RRDCACHED_DEFAULT_PORT = ''42217''"

definition rrdc_is_connected :: "client_env \<Rightarrow> string option \<Rightarrow> client \<Rightarrow> bool" where
  "rrdc_is_connected e daemon_addr c =
     (if cl_sd c < 0 then False
      else (case daemon_addr of
              None \<Rightarrow> ce_address e \<noteq> None
            | Some a \<Rightarrow> cl_path c = Some a))"

definition client_opened :: "client_env \<Rightarrow> client \<Rightarrow> client" where
  "client_opened e c = c\<lparr>cl_sd := int (ce_fd e), cl_open := True, cl_in := [], cl_out := []\<rparr>"

text \<open>The status is zero or the number of the error.\<close>

definition rrdc_connect_unix :: "client_env \<Rightarrow> string \<Rightarrow> client \<Rightarrow> int \<times> client" where
  "rrdc_connect_unix e path c =
     (if ce_unix e path = 0 then (0, client_opened e c) else (ce_unix e path, client_close c))"

text \<open>Host and port of an address: brackets enclose a host with colons in it.\<close>

definition split_address :: "string \<Rightarrow> string + (string \<times> string option)" where
  "split_address addr0 =
     (let addr = take 1024 addr0 in
      if starts_with ''['' addr then
        (case split_at (CHR '']'') (drop 1 addr) of
           None \<Rightarrow> Inl (''malformed address: '' @ addr0)
         | Some (host, port) \<Rightarrow>
             (if port = [] then Inr (host, None)
              else if hd port = CHR '':'' then Inr (host, Some (tl port))
              else Inl (''garbage after address: '' @ port)))
      else
        (case split_at (CHR '':'') (rev addr) of
           None \<Rightarrow> Inr (addr, None)
         | Some (p, h) \<Rightarrow> Inr (rev h, Some (rev p))))"

text \<open>The addresses a name resolves to are tried in turn, each with the status of its attempt.\<close>

fun try_addresses :: "client_env \<Rightarrow> int list \<Rightarrow> int \<Rightarrow> client \<Rightarrow> int \<times> client" where
  "try_addresses e [] st c = (st, c)"
| "try_addresses e (a # as) st c =
     (if a = 0 then (0, client_opened e c) else try_addresses e as a (client_close c))"

definition rrdc_connect_network :: "client_env \<Rightarrow> string \<Rightarrow> client \<Rightarrow> int \<times> client" where
  "rrdc_connect_network e addr c =
     (case split_address addr of
        Inl m \<Rightarrow> (- 1, rrd_set_error m c)
      | Inr (host, port) \<Rightarrow>
          (let p = (case port of None \<Rightarrow> RRDCACHED_DEFAULT_PORT | Some p \<Rightarrow> p) in
           case ce_resolve e host p of
             Inl m \<Rightarrow> (- 1, rrd_set_error (''failed to resolve address `'' @ host @ [CHR 0x27] @ '' (port '' @ p
                         @ ''): '' @ m) c)
           | Inr as \<Rightarrow> try_addresses e as 0 c))"

definition rrdc_connect :: "client_env \<Rightarrow> string option \<Rightarrow> client \<Rightarrow> int \<times> client" where
  "rrdc_connect e addr0 c =
     (case (case addr0 of None \<Rightarrow> ce_address e | Some a \<Rightarrow> Some a) of
        None \<Rightarrow> (0, c)
      | Some addr \<Rightarrow>
          (if cl_sd c \<ge> 0 \<and> cl_path c = Some addr then (0, c)
           else
             (case (if starts_with ''unix:'' addr then rrdc_connect_unix e (drop 5 addr)
                    else if starts_with ''/'' addr then rrdc_connect_unix e addr
                    else rrdc_connect_network e addr) (rrd_clear_error (client_close c)) of
                (status, c1) \<Rightarrow>
                  (if status = 0 \<and> cl_sd c1 \<ge> 0 then (status, c1\<lparr>cl_path := Some addr\<rparr>)
                   else
                     (status,
                      rrd_set_error (''Unable to connect to rrdcached: '' @
                        (if status < 0 then (if rrd_test_error c1 then rrd_get_error c1 else ''Internal error'')
                         else ce_strerror e status)) c1)))))"

definition rrdc_disconnect :: "client \<Rightarrow> int \<times> client" where
  "rrdc_disconnect c = (0, client_close c)"

section \<open>The requests\<close>

text \<open>The line of a request: the command, the path and the values.\<close>

definition request_line :: "client_env \<Rightarrow> string \<Rightarrow> string \<Rightarrow> string list \<Rightarrow> string option" where
  "request_line e cmd path values =
     (case buffer_add_string cmd 4096 of
        None \<Rightarrow> None
      | Some (t1, n1) \<Rightarrow>
          (case buffer_add_string path n1 of
             None \<Rightarrow> None
           | Some (t2, n2) \<Rightarrow>
               (case add_values e values n2 of None \<Rightarrow> None | Some (t3, n3) \<Rightarrow> Some (t1 @ t2 @ t3))))"

definition send_line :: "client_env \<Rightarrow> string option \<Rightarrow> client \<Rightarrow> (int \<times> client) option" where
  "send_line e line c =
     (case line of
        None \<Rightarrow> Some (ENOBUFS, c)
      | Some t \<Rightarrow>
          (case end_line t of
             None \<Rightarrow> None
           | Some buffer \<Rightarrow>
               (case client_request e buffer c of
                  (Inl s, c1) \<Rightarrow> Some (s, c1)
                | (Inr r, c1) \<Rightarrow> Some (rs_status r, c1))))"

definition rrdc_update :: "client_env \<Rightarrow> string \<Rightarrow> string list \<Rightarrow> client \<Rightarrow> (int \<times> client) option" where
  "rrdc_update e filename values c =
     (case get_path e filename c of
        (None, c1) \<Rightarrow> Some (- 1, c1)
      | (Some path, c1) \<Rightarrow> send_line e (request_line e ''update'' path values) c1)"

definition rrdc_flush :: "client_env \<Rightarrow> string \<Rightarrow> client \<Rightarrow> (int \<times> client) option" where
  "rrdc_flush e filename c =
     (case get_path e filename c of
        (None, c1) \<Rightarrow> Some (- 1, c1)
      | (Some path, c1) \<Rightarrow> send_line e (request_line e ''flush'' path []) c1)"

definition rrdc_flush_if_daemon ::
  "client_env \<Rightarrow> string option \<Rightarrow> string \<Rightarrow> client \<Rightarrow> (int \<times> client) option" where
  "rrdc_flush_if_daemon e opt_daemon filename c =
     (case rrdc_connect e opt_daemon c of
        (_, c1) \<Rightarrow>
          (if rrdc_is_connected e opt_daemon c1 then
             (case rrdc_flush e filename (rrd_clear_error c1) of
                None \<Rightarrow> None
              | Some (status, c2) \<Rightarrow>
                  Some (status,
                    if status \<noteq> 0 \<and> \<not> rrd_test_error c2 then
                      (if status > 0 then
                         rrd_set_error (''rrdc_flush ('' @ filename @ '') failed: '' @ ce_strerror e status) c2
                       else rrd_set_error (''rrdc_flush ('' @ filename @ '') failed with status ''
                              @ show_int status @ ''.'') c2)
                    else c2))
           else Some (0, c1)))"

section \<open>Statistics\<close>

datatype stats_value = Stats_gauge dbl | Stats_counter ulong

definition stats_gauges :: "string list" where
  "stats_gauges = [''QueueLength'', ''TreeDepth'', ''TreeNodesNumber'']"

definition stats_counters :: "string list" where
  "stats_counters = [''DataSetsWritten'', ''FlushesReceived'', ''JournalBytes'', ''JournalRotate'',
     ''UpdatesReceived'', ''UpdatesWritten'']"

definition parse_stat :: "string \<Rightarrow> (string \<times> stats_value) option" where
  "parse_stat l =
     (case split_at (CHR '':'') l of
        None \<Rightarrow> None
      | Some (nm, value0) \<Rightarrow>
          (let v = dropWhile (\<lambda>ch. ch = CHR '' '' \<or> ch = CHR 0x09) value0 in
           if nm \<in> set stats_gauges then
             (case strtod v of (x, rest, _) \<Rightarrow> if rest = v then None else Some (nm, Stats_gauge x))
           else if nm \<in> set stats_counters then
             (case strtol_end v of (x, rest) \<Rightarrow>
                if rest = v then None else Some (nm, Stats_counter (word_of_int x)))
           else None))"

definition rrdc_stats_get :: "client_env \<Rightarrow> client \<Rightarrow> (int + (string \<times> stats_value) list) \<times> client" where
  "rrdc_stats_get e c =
     (case client_request e (''STATS'' @ [CHR 0x0A]) c of
        (Inl s, c1) \<Rightarrow> (Inl s, c1)
      | (Inr r, c1) \<Rightarrow>
          (if rs_status r \<le> 0 then (Inl EIO, c1)
           else
             (let ss = List.map_filter parse_stat (rs_lines r) in
              if ss = [] then (Inl EPROTO, c1) else (Inr ss, c1))))"

end
