(* ===== verification/Daemon_Wire.thy ===== *)
theory Daemon_Wire
  imports Rrd_Client
begin

text \<open>
  The connection side of the caching daemon (\<open>rrd_daemon.c\<close>): splitting the bytes read from a
  client into command lines, splitting a line into fields, and the responses. A missing socket
  stands for the replay of the journal. \<open>None\<close> is undefined behaviour or a failed assertion.
\<close>

definition CMD_MAX :: nat where "CMD_MAX = 4096"
definition RBUF_SIZE :: nat where "RBUF_SIZE = 8192"

datatype response_code = RESP_ERR | RESP_OK

text \<open>\<open>rbuf\<close> are the bytes read, up to \<open>next_read\<close>; \<open>sent\<close> is what has gone to the client, and
  \<open>writable\<close> whether the system takes it.\<close>

record listen_socket_t =
  batch_start :: int
  batch_cmd :: int
  rbuf :: string
  next_off :: nat
  wbuf :: string
  permissions :: "32 word"
  sent :: string
  writable :: bool

abbreviation NL :: char where "NL \<equiv> CHR 0x0A"
abbreviation NUL :: char where "NUL \<equiv> CHR 0x00"

section \<open>Lines\<close>

text \<open>The byte before an empty line is never a carriage return: it is the end of the line before,
  which has been overwritten.\<close>

definition strip_cr :: "string \<Rightarrow> string" where
  "strip_cr l = (if l \<noteq> [] \<and> hd (rev l) = CHR 0x0D then butlast l else l)"

definition next_cmd :: "listen_socket_t \<Rightarrow> string option \<times> listen_socket_t" where
  "next_cmd s =
     (let rest = drop (next_off s) (rbuf s) in
      case split_at NL rest of
        None \<Rightarrow> (None, s\<lparr>rbuf := rest, next_off := 0\<rparr>)
      | Some (l, _) \<Rightarrow> (Some (strip_cr l), s\<lparr>next_off := next_off s + length l + 1\<rparr>))"

section \<open>Fields\<close>

text \<open>A field ends at a blank or at a zero byte, a backslash takes the next byte as it is. The
  buffer ends with a zero byte unless it is used up; a lone backslash before it is an error. The
  field is written over the bytes it was read from, and ends for its users at its first zero
  byte.\<close>

fun get_field_loop :: "string \<Rightarrow> string \<Rightarrow> (string \<times> string) option" where
  "get_field_loop [] field = None"
| "get_field_loop (ch # b) field =
     (if ch = CHR '' '' \<or> ch = NUL then Some (cstr field, b)
      else if ch = CHR 0x5C then
        (case b of [] \<Rightarrow> None | d # b' \<Rightarrow> get_field_loop b' (field @ [d]))
      else get_field_loop b (field @ [ch]))"

definition buffer_get_field :: "string \<Rightarrow> (string \<times> string) option option" where
  "buffer_get_field b =
     (if b = [] then Some None
      else if hd (rev b) \<noteq> NUL then None
      else Some (get_field_loop b []))"

section \<open>Responses\<close>

text \<open>Formatting into a buffer of 4096 bytes cuts the text, but the length is that of the whole
  text.\<close>

definition pad_to :: "nat \<Rightarrow> string \<Rightarrow> string" where
  "pad_to n s = take n (s @ replicate (n - length s) NUL)"

definition add_to_wbuf :: "string \<Rightarrow> nat \<Rightarrow> listen_socket_t \<Rightarrow> listen_socket_t" where
  "add_to_wbuf str len s = s\<lparr>wbuf := wbuf s @ pad_to len str\<rparr>"

definition add_response_info :: "string \<Rightarrow> listen_socket_t option \<Rightarrow> listen_socket_t option" where
  "add_response_info text so =
     map_option (\<lambda>s. if batch_start s \<noteq> 0 then s else add_to_wbuf (take 4095 text) (length text) s) so"

definition count_lines :: "string \<Rightarrow> int" where
  "count_lines s = int (length (filter (\<lambda>ch. ch = NL) (cstr s)))"

definition response_text :: "int \<Rightarrow> string \<Rightarrow> string" where
  "response_text lines text = show_int lines @ '' '' @ text"

text \<open>The number in front is that of the lines that follow, \<open>-1\<close> for an error, and in a batch the
  number of the command. A text longer than the buffer is sent with the bytes behind it.\<close>

definition send_response ::
  "response_code \<Rightarrow> string \<Rightarrow> listen_socket_t option \<Rightarrow> (int \<times> listen_socket_t option) option" where
  "send_response rc text so =
     (case so of
        None \<Rightarrow> Some (if rc = RESP_OK then 0 else - 1, None)
      | Some s \<Rightarrow>
          (if batch_start s \<noteq> 0 then
             (if rc = RESP_OK then Some (0, so)
              else
                (let full = response_text (batch_cmd s) text in
                 Some (0, Some (add_to_wbuf (take 4095 full) (length full) s))))
           else
             (let full = response_text (if rc = RESP_OK then count_lines (wbuf s) else - 1) text;
                  len = length full
              in if len > CMD_MAX then None
                 else if \<not> writable s then Some (- 1, so)
                 else
                   (let s1 = s\<lparr>sent := sent s @ pad_to len (take 4095 full)\<rparr>;
                        s2 = (if rc = RESP_OK then s1\<lparr>sent := sent s1 @ wbuf s1\<rparr> else s1)
                    in Some (0, Some (s2\<lparr>wbuf := []\<rparr>))))))"

end
