(* ===== verification/Daemon_Wire_Spec.thy ===== *)
theory Daemon_Wire_Spec
  imports Daemon_Wire
begin

text \<open>
  What the wire format promises: the fields the client encodes are the fields the daemon reads,
  and the command lines do not depend on how the bytes arrive.
\<close>

section \<open>Fields\<close>

text \<open>The encoding of a field, without the buffer.\<close>

definition esc :: "string \<Rightarrow> string" where
  "esc s = concat (map (\<lambda>ch. if ch = CHR '' '' \<or> ch = CHR 0x5C then [CHR 0x5C, ch] else [ch]) s)"

lemma esc_simps [simp]:
  "esc [] = []"
  "esc (ch # s) = (if ch = CHR '' '' \<or> ch = CHR 0x5C then CHR 0x5C # ch # esc s else ch # esc s)"
  by (simp_all add: esc_def)

lemma buffer_add_string_esc:
  "buffer_add_string s n = Some (t, k) \<Longrightarrow> t = esc s @ '' '' \<and> n = length t + k"
  by (induction s n arbitrary: t k rule: buffer_add_string.induct) (auto split: if_splits nat.splits)

lemma buffer_add_string_fits:
  "length (esc s) < n \<Longrightarrow> buffer_add_string s n = Some (esc s @ '' '', n - Suc (length (esc s)))"
  by (induction s n rule: buffer_add_string.induct) (auto split: if_splits nat.splits)

lemma cstr_id: "NUL \<notin> set s \<Longrightarrow> cstr s = s"
  by (auto simp: cstr_def takeWhile_eq_all_conv)

lemma get_field_esc:
  assumes "sep = CHR '' '' \<or> sep = NUL"
  shows "NUL \<notin> set s \<Longrightarrow> get_field_loop (esc s @ sep # rest) f = Some (cstr (f @ s), rest)"
  using assms by (induction s arbitrary: f) auto

text \<open>All fields of a line, as the handler of updates reads them.\<close>

function all_fields :: "string \<Rightarrow> string list option" where
  "all_fields b =
     (case buffer_get_field b of
        Some (Some (fld, rest)) \<Rightarrow>
          (if length rest < length b then map_option ((#) fld) (all_fields rest) else None)
      | _ \<Rightarrow> if b = [] then Some [] else None)"
  by pat_completeness auto
termination
  by (relation "measure length") auto

declare all_fields.simps [simp del]

text \<open>The line of some fields, with the zero byte in the place of the last blank.\<close>

fun fields_line :: "string list \<Rightarrow> string" where
  "fields_line [] = []"
| "fields_line [s] = esc s @ [NUL]"
| "fields_line (s # t # ts) = esc s @ '' '' @ fields_line (t # ts)"

lemma hd_rev_fields_line: "ss \<noteq> [] \<Longrightarrow> fields_line ss \<noteq> [] \<and> hd (rev (fields_line ss)) = NUL"
  by (induction ss rule: fields_line.induct) auto

lemma get_fields_line:
  assumes "NUL \<notin> set s"
  shows "buffer_get_field (fields_line (s # ss)) = Some (Some (s, fields_line ss))"
proof -
  have "fields_line (s # ss) = esc s @ (if ss = [] then NUL else CHR '' '') # fields_line ss" by (cases ss) auto
  then show ?thesis
    using hd_rev_fields_line [of "s # ss"] get_field_esc [of "if ss = [] then NUL else CHR '' ''" s "fields_line ss" "[]"]
    by (simp add: buffer_get_field_def assms cstr_id)
qed

lemma all_fields_line: "\<forall>s \<in> set ss. NUL \<notin> set s \<Longrightarrow> all_fields (fields_line ss) = Some ss"
proof (induction ss)
  case Nil
  then show ?case by (simp add: all_fields.simps buffer_get_field_def)
next
  case (Cons s ss)
  have "length (fields_line ss) < length (fields_line (s # ss))" by (cases ss) simp_all
  then show ?case
    using Cons get_fields_line [of s ss] by (subst all_fields.simps) simp
qed

lemma butlast_line: "butlast (concat (map (\<lambda>s. esc s @ '' '') (s # ss))) @ [NUL] = fields_line (s # ss)"
proof (induction ss arbitrary: s)
  case (Cons t ts)
  have "concat (map (\<lambda>s. esc s @ '' '') (t # ts)) \<noteq> []" by simp
  then show ?case using Cons [of t] by (simp add: butlast_append)
qed (simp add: butlast_append)

section \<open>Lines\<close>

text \<open>All commands of what has been read, and reading one chunk after the other.\<close>

lemma next_cmd_progress:
  assumes "next_cmd s = (Some l, s1)"
  shows "length (rbuf s1) - next_off s1 < length (rbuf s) - next_off s"
proof -
  obtain a b where "split_at NL (drop (next_off s) (rbuf s)) = Some (a, b)" "s1 = s\<lparr>next_off := next_off s + length a + 1\<rparr>"
    using assms by (auto simp: next_cmd_def Let_def split: option.splits)
  moreover from this(1) have "drop (next_off s) (rbuf s) = a @ NL # b" by (auto dest: split_at_Some)
  then have "length (drop (next_off s) (rbuf s)) = length (a @ NL # b)" by (simp only:)
  ultimately show ?thesis by simp
qed

function take_commands :: "listen_socket_t \<Rightarrow> string list \<times> listen_socket_t" where
  "take_commands s =
     (case next_cmd s of
        (None, s1) \<Rightarrow> ([], s1)
      | (Some l, s1) \<Rightarrow> (case take_commands s1 of (ls, s2) \<Rightarrow> (l # ls, s2)))"
  by pat_completeness auto
termination
  by (relation "measure (\<lambda>s. length (rbuf s) - next_off s)") (auto dest: next_cmd_progress [OF sym])

declare take_commands.simps [simp del]

fun read_chunks :: "string list \<Rightarrow> listen_socket_t \<Rightarrow> string list \<times> listen_socket_t" where
  "read_chunks [] s = ([], s)"
| "read_chunks (b # bs) s =
     (case take_commands (s\<lparr>rbuf := rbuf s @ b\<rparr>) of
        (ls, s1) \<Rightarrow> (case read_chunks bs s1 of (ls', s2) \<Rightarrow> (ls @ ls', s2)))"

lemma split_all_line: "c \<notin> set a \<Longrightarrow> split_all c (a @ c # b) = a # split_all c b"
  by (induction a) auto

lemma split_all_append:
  "split_all c (a @ b) = butlast (split_all c a) @ split_all c (last (split_all c a) @ b)"
proof (induction a)
  case (Cons x a)
  obtain p ps where p: "split_all c a = p # ps" by (cases "split_all c a") auto
  show ?case
  proof (cases "ps = []")
    case True
    then show ?thesis using Cons p by (auto split: list.splits)
  next
    case False
    then show ?thesis using Cons p by (auto split: list.splits)
  qed
qed simp

lemma last_split_all: "c \<notin> set (last (split_all c s))"
  by (induction s) (auto split: list.splits)

lemma take_commands_lines:
  "take_commands s =
     (map strip_cr (butlast (split_all NL (drop (next_off s) (rbuf s)))),
      s\<lparr>rbuf := last (split_all NL (drop (next_off s) (rbuf s))), next_off := 0\<rparr>)"
proof (induction s rule: take_commands.induct)
  case (1 s)
  let ?rest = "drop (next_off s) (rbuf s)"
  show ?case
  proof (cases "split_at NL ?rest")
    case None
    then show ?thesis
      by (subst take_commands.simps) (simp add: next_cmd_def Let_def None split_all_free split_at_None [THEN iffD1])
  next
    case (Some p)
    then obtain a b where sp: "split_at NL ?rest = Some (a, b)" by (cases p) auto
    note ab = sp split_at_Some [OF sp, THEN conjunct1] split_at_Some [OF sp, THEN conjunct2]
    let ?s1 = "s\<lparr>next_off := next_off s + length a + 1\<rparr>"
    have n: "next_cmd s = (Some (strip_cr a), ?s1)" using ab(1) by (simp add: next_cmd_def Let_def)
    have "drop (next_off ?s1) (rbuf ?s1) = drop (length a + 1) ?rest" by (simp add: add.commute)
    also have "\<dots> = b" unfolding ab(2) by simp
    finally have d: "drop (next_off ?s1) (rbuf ?s1) = b" .
    have "take_commands s = (case take_commands ?s1 of (ls, s2) \<Rightarrow> (strip_cr a # ls, s2))"
      by (subst take_commands.simps) (simp add: n)
    then show ?thesis using "1.IH" [OF n [symmetric] refl] ab(2,3) d by (simp add: split_all_line)
  qed
qed

lemma read_chunks_lines:
  assumes "next_off s = 0" "NL \<notin> set (rbuf s)"
  shows "read_chunks bs s =
           (map strip_cr (butlast (split_all NL (rbuf s @ concat bs))),
            s\<lparr>rbuf := last (split_all NL (rbuf s @ concat bs))\<rparr>)"
  using assms
proof (induction bs arbitrary: s)
  case Nil
  then show ?case by (simp add: split_all_free)
next
  case (Cons b bs)
  let ?s1 = "s\<lparr>rbuf := last (split_all NL (rbuf s @ b)), next_off := 0\<rparr>"
  have "read_chunks bs ?s1 = (map strip_cr (butlast (split_all NL (rbuf ?s1 @ concat bs))),
      ?s1\<lparr>rbuf := last (split_all NL (rbuf ?s1 @ concat bs))\<rparr>)"
    by (rule Cons.IH) (simp_all add: last_split_all)
  then show ?case
    using Cons.prems split_all_append [of NL "rbuf s @ b" "concat bs"]
    by (simp add: take_commands_lines butlast_append)
qed

section \<open>The properties\<close>

text \<open>C28. The commands a connection handles do not depend on how the bytes arrive: whatever the
  chunks in which they are read, the commands are the complete lines of all the bytes, without
  a carriage return at the end, and the bytes behind the last line end are kept for later.\<close>

theorem lines_independent_of_chunks:
  assumes "next_off s = 0" "NL \<notin> set (rbuf s)"
  shows "read_chunks bs s =
           (map strip_cr (butlast (split_all NL (rbuf s @ concat bs))),
            s\<lparr>rbuf := last (split_all NL (rbuf s @ concat bs))\<rparr>)"
  by (rule read_chunks_lines [OF assms])

definition fresh_socket :: listen_socket_t where
  "fresh_socket = \<lparr>batch_start = 0, batch_cmd = 0, rbuf = [], next_off = 0, wbuf = [],
     permissions = 0xFFF, sent = [], writable = True\<rparr>"

theorem lines_independent_of_chunks_witness:
  "read_chunks [''FLUSH a'' @ [NL] @ ''PEN'', ''DING a'' @ [CHR 0x0D], [NL] @ ''Q''] fresh_socket =
     ([''FLUSH a'', ''PENDING a''], fresh_socket\<lparr>rbuf := ''Q''\<rparr>)"
proof -
  have "next_off fresh_socket = 0" "NL \<notin> set (rbuf fresh_socket)" by (simp_all add: fresh_socket_def)
  from lines_independent_of_chunks [OF this] show ?thesis by (simp add: fresh_socket_def strip_cr_def)
qed

text \<open>The text that is sent for a value.\<close>

definition value_text :: "client_env \<Rightarrow> string \<Rightarrow> string" where
  "value_text e v = take 4095 (if starts_with ''N:'' v then show_nat (nat (ce_time e mod 2 ^ 64)) @ '':'' @ drop 2 v
                               else v)"

lemma add_values_esc:
  "add_values e vs n = Some (t, k) \<Longrightarrow> t = concat (map (\<lambda>s. esc s @ '' '') (map (value_text e) vs))"
  by (induction vs arbitrary: n t)
    (auto simp: buffer_add_value_def value_text_def [symmetric] split: option.splits dest!: buffer_add_string_esc)

lemma request_line_fields:
  assumes "request_line e cmd path vs = Some t"
  shows "t = concat (map (\<lambda>s. esc s @ '' '') (cmd # path # map (value_text e) vs))"
  using assms
  by (auto simp: request_line_def split: option.splits dest!: buffer_add_string_esc add_values_esc)

lemma set_esc: "ch \<in> set (esc s) \<Longrightarrow> ch \<in> set s \<or> ch = CHR 0x5C"
  by (induction s) (auto split: if_splits)

lemma set_fields_line:
  "ch \<in> set (concat (map (\<lambda>s. esc s @ '' '') ss)) \<Longrightarrow> (\<exists>s \<in> set ss. ch \<in> set s) \<or> ch = CHR 0x5C \<or> ch = CHR '' ''"
  by (auto split: if_splits dest!: set_esc)

text \<open>C16. A request arrives as it was meant: the line the client writes for a command, a path and
  values is split by the daemon into just these fields, blanks and backslashes in them included,
  with the value \<open>N:\<close> turned into the time of the client. The texts must not contain a zero byte or
  a line end, and the last one must not end in a carriage return.\<close>

theorem request_arrives:
  assumes "request_line e cmd path vs = Some t" "end_line t = Some buffer"
    and "\<forall>s \<in> set (cmd # path # map (value_text e) vs). NUL \<notin> set s \<and> NL \<notin> set s"
    and "hd (rev (butlast t)) \<noteq> CHR 0x0D" and "rbuf s = buffer" "next_off s = 0"
  shows "\<exists>l s'. next_cmd s = (Some l, s') \<and> take_commands s = ([l], s\<lparr>rbuf := [], next_off := 0\<rparr>) \<and>
           all_fields (l @ [NUL]) = Some (cmd # path # map (value_text e) vs)"
proof -
  let ?ss = "cmd # path # map (value_text e) vs"
  have t: "t = concat (map (\<lambda>s. esc s @ '' '') ?ss)" by (rule request_line_fields [OF assms(1)])
  have buffer: "buffer = butlast t @ [NL]" using assms(2) by (auto simp: end_line_def split: if_splits)
  have "NL \<notin> set t"
  proof
    assume "NL \<in> set t"
    then have "NL \<in> set (concat (map (\<lambda>s. esc s @ '' '') ?ss))" by (simp only: t)
    from set_fields_line [OF this] assms(3) show False by auto
  qed
  then have free: "NL \<notin> set (butlast t)" by (auto dest: in_set_butlastD)
  then have split: "split_at NL buffer = Some (butlast t, [])"
    by (cases "split_at NL buffer") (auto simp: buffer split_at_None append_eq_append_conv2 Cons_eq_append_conv append_eq_Cons_conv
        dest!: split_at_Some)
  have strip: "strip_cr (butlast t) = butlast t" using assms(4) by (simp add: strip_cr_def)
  have "next_cmd s = (Some (butlast t), s\<lparr>next_off := length (butlast t) + 1\<rparr>)"
    using assms(5,6) split strip by (simp add: next_cmd_def)
  moreover have "take_commands s = ([butlast t], s\<lparr>rbuf := [], next_off := 0\<rparr>)"
    using assms(5,6) split_all_line [OF free, of "[]"] strip by (simp add: take_commands_lines buffer)
  moreover have "all_fields (butlast t @ [NUL]) = Some ?ss"
    unfolding t butlast_line using assms(3) by (intro all_fields_line) auto
  ultimately show ?thesis by blast
qed

definition plain_client_env :: client_env where
  "plain_client_env = \<lparr>ce_address = None, ce_realpath = Inr, ce_unix = (\<lambda>p. 0), ce_resolve = (\<lambda>h p. Inr [0]),
     ce_strerror = (\<lambda>n. ''error''), ce_time = 1000, ce_fd = 3, ce_write = True, serve = (\<lambda>old r. [])\<rparr>"

theorem request_arrives_witness:
  "\<exists>t buffer l s'.
     request_line plain_client_env ''update'' ''/tmp/my file.rrd'' [''N:1'', ''1010:2''] = Some t \<and>
     end_line t = Some buffer \<and> next_cmd (fresh_socket\<lparr>rbuf := buffer\<rparr>) = (Some l, s') \<and>
     all_fields (l @ [NUL]) = Some [''update'', ''/tmp/my file.rrd'', ''1000:1'', ''1010:2'']"
proof -
  let ?vs = "[''N:1'', ''1010:2'']"
  let ?t = "concat (map (\<lambda>s. esc s @ '' '') [''update'', ''/tmp/my file.rrd'', ''1000:1'', ''1010:2''])"
  have v: "map (value_text plain_client_env) ?vs = [''1000:1'', ''1010:2'']" by code_simp
  have t: "request_line plain_client_env ''update'' ''/tmp/my file.rrd'' ?vs = Some ?t" by code_simp
  have b: "end_line ?t = Some (butlast ?t @ [NL])" by code_simp
  have "\<forall>s \<in> set (''update'' # ''/tmp/my file.rrd'' # map (value_text plain_client_env) ?vs). NUL \<notin> set s \<and> NL \<notin> set s"
    unfolding v by simp
  moreover have "hd (rev (butlast ?t)) \<noteq> CHR 0x0D" by code_simp
  ultimately obtain l s' where "next_cmd (fresh_socket\<lparr>rbuf := butlast ?t @ [NL]\<rparr>) = (Some l, s')"
    "all_fields (l @ [NUL]) = Some (''update'' # ''/tmp/my file.rrd'' # map (value_text plain_client_env) ?vs)"
    using request_arrives [OF t b, of "fresh_socket\<lparr>rbuf := butlast ?t @ [NL]\<rparr>"] by (auto simp: fresh_socket_def)
  then show ?thesis using t b unfolding v by blast
qed

end
