(* ===== verification/Daemon_Queue.thy ===== *)
theory Daemon_Queue
  imports Prelude
begin

text \<open>
  The cache of the daemon (\<open>rrd_daemon.c\<close>): a tree of items by file name, and the queue of the items
  that are due, linked in both directions through the items themselves. An item is identified
  by its file name, since only items of the tree are ever linked. The tree is the balanced tree of
  the C library GLib, here a list in the order of its keys. \<open>None\<close> is a dangling pointer
  or a failed assertion.
\<close>

section \<open>The tree of items\<close>

record cache_item_t =
  ci_values :: "string list"
  last_flush_time :: int
  last_update_stamp :: int
  in_queue :: bool
  ci_prev :: "string option"
  ci_next :: "string option"

type_synonym item_tree = "(string \<times> cache_item_t) list"

text \<open>\<open>strcmp\<close>: the order of the bytes.\<close>

fun str_less :: "string \<Rightarrow> string \<Rightarrow> bool" where
  "str_less s [] = False"
| "str_less [] (y # t) = True"
| "str_less (x # s) (y # t) = (ord x < ord y \<or> (x = y \<and> str_less s t))"

fun g_tree_replace :: "string \<Rightarrow> cache_item_t \<Rightarrow> item_tree \<Rightarrow> item_tree" where
  "g_tree_replace f ci [] = [(f, ci)]"
| "g_tree_replace f ci ((g, cj) # t) =
     (if f = g then (f, ci) # t
      else if str_less f g then (f, ci) # (g, cj) # t
      else (g, cj) # g_tree_replace f ci t)"

definition g_tree_lookup :: "item_tree \<Rightarrow> string \<Rightarrow> cache_item_t option" where
  "g_tree_lookup t f = map_of t f"

definition g_tree_delete :: "string \<Rightarrow> item_tree \<Rightarrow> item_tree" where
  "g_tree_delete f t = filter (\<lambda>p. fst p \<noteq> f) t"

section \<open>The queue\<close>

record cache =
  tree :: item_tree
  queue_head :: "string option"
  queue_tail :: "string option"
  stats_queue_length :: ulong

definition item :: "cache \<Rightarrow> string \<Rightarrow> cache_item_t option" where
  "item c f = g_tree_lookup (tree c) f"

text \<open>An assignment through a pointer.\<close>

definition set_item :: "string \<Rightarrow> (cache_item_t \<Rightarrow> cache_item_t) \<Rightarrow> cache \<Rightarrow> cache option" where
  "set_item f u c =
     (if item c f = None then None
      else Some (c\<lparr>tree := map (\<lambda>(g, ci). (g, if g = f then u ci else ci)) (tree c)\<rparr>))"

definition remove_from_queue :: "string \<Rightarrow> cache \<Rightarrow> cache option" where
  "remove_from_queue f c =
     (case item c f of
        None \<Rightarrow> None
      | Some ci \<Rightarrow>
          (if \<not> in_queue ci then Some c
           else
             Option.bind (case ci_prev ci of
                            None \<Rightarrow> Some (c\<lparr>queue_head := ci_next ci\<rparr>)
                          | Some p \<Rightarrow> set_item p (\<lambda>i. i\<lparr>ci_next := ci_next ci\<rparr>) c)
               (\<lambda>c1. Option.bind (case ci_next ci of
                                    None \<Rightarrow> Some (c1\<lparr>queue_tail := ci_prev ci\<rparr>)
                                  | Some n \<Rightarrow> set_item n (\<lambda>i. i\<lparr>ci_prev := ci_prev ci\<rparr>) c1)
               (\<lambda>c2. Option.bind (set_item f (\<lambda>i. i\<lparr>ci_next := None, ci_prev := None, in_queue := False\<rparr>) c2)
               (\<lambda>c3. if stats_queue_length c3 = 0 then None
                      else Some (c3\<lparr>stats_queue_length := stats_queue_length c3 - 1\<rparr>))))))"

datatype queue_side_e = HEAD | TAIL

definition enqueued :: "string \<Rightarrow> cache \<Rightarrow> cache option" where
  "enqueued f c =
     map_option (\<lambda>c1. c1\<lparr>stats_queue_length := stats_queue_length c1 + 1\<rparr>)
       (set_item f (\<lambda>i. i\<lparr>in_queue := True\<rparr>) c)"

definition enqueue_head :: "string \<Rightarrow> cache \<Rightarrow> cache option" where
  "enqueue_head f c =
     (if queue_head c = Some f then Some c
      else
        Option.bind (remove_from_queue f c)
          (\<lambda>c1. Option.bind (set_item f (\<lambda>i. i\<lparr>ci_prev := None, ci_next := queue_head c1\<rparr>) c1)
          (\<lambda>c2. Option.bind (case queue_head c2 of
                               None \<Rightarrow> Some c2
                             | Some h \<Rightarrow> set_item h (\<lambda>i. i\<lparr>ci_prev := Some f\<rparr>) c2)
          (\<lambda>c3. enqueued f (c3\<lparr>queue_head := Some f,
                  queue_tail := (if queue_tail c3 = None then Some f else queue_tail c3)\<rparr>)))))"

definition enqueue_tail :: "string \<Rightarrow> cache \<Rightarrow> cache option" where
  "enqueue_tail f c =
     (case item c f of
        None \<Rightarrow> None
      | Some ci \<Rightarrow>
          (if in_queue ci then Some c
           else if ci_next ci \<noteq> None \<or> ci_prev ci \<noteq> None then None
           else
             Option.bind (set_item f (\<lambda>i. i\<lparr>ci_prev := queue_tail c\<rparr>) c)
               (\<lambda>c1. Option.bind (case queue_tail c1 of
                                    None \<Rightarrow> Some (c1\<lparr>queue_head := Some f\<rparr>)
                                  | Some t \<Rightarrow> set_item t (\<lambda>i. i\<lparr>ci_next := Some f\<rparr>) c1)
               (\<lambda>c2. enqueued f (c2\<lparr>queue_tail := Some f\<rparr>)))))"

definition enqueue_cache_item :: "string \<Rightarrow> queue_side_e \<Rightarrow> cache \<Rightarrow> cache option" where
  "enqueue_cache_item f side c =
     (case item c f of
        None \<Rightarrow> None
      | Some ci \<Rightarrow>
          (if ci_values ci = [] then Some c
           else (case side of HEAD \<Rightarrow> enqueue_head f c | TAIL \<Rightarrow> enqueue_tail f c)))"

text \<open>Removing from the tree frees the item, which takes it out of the queue first; the boolean
  tells whether there was one.\<close>

definition g_tree_remove :: "string \<Rightarrow> cache \<Rightarrow> (bool \<times> cache) option" where
  "g_tree_remove f c =
     (if item c f = None then Some (False, c)
      else map_option (\<lambda>c1. (True, c1\<lparr>tree := g_tree_delete f (tree c1)\<rparr>)) (remove_from_queue f c))"

text \<open>Following the links from the head; more steps than there are items mean that they never
  end.\<close>

fun walk_queue :: "nat \<Rightarrow> string option \<Rightarrow> cache \<Rightarrow> string list option" where
  "walk_queue n None c = Some []"
| "walk_queue 0 (Some f) c = None"
| "walk_queue (Suc n) (Some f) c =
     (case item c f of None \<Rightarrow> None | Some ci \<Rightarrow> map_option ((#) f) (walk_queue n (ci_next ci) c))"

definition queue_files :: "cache \<Rightarrow> string list option" where
  "queue_files c = walk_queue (length (tree c)) (queue_head c) c"

section \<open>Links\<close>

definition first_or :: "'a list \<Rightarrow> 'a option \<Rightarrow> 'a option" where
  "first_or xs n = (case xs of [] \<Rightarrow> n | x # _ \<Rightarrow> Some x)"

definition last_or :: "'a list \<Rightarrow> 'a option \<Rightarrow> 'a option" where
  "last_or xs p = (if xs = [] then p else Some (last xs))"

lemma first_or_simps [simp]: "first_or [] n = n" "first_or (x # xs) n = Some x"
  by (simp_all add: first_or_def)

lemma last_or_simps [simp]: "last_or [] p = p" "last_or (x # xs) p = last_or xs (Some x)"
  "last_or (xs @ [x]) p = Some x"
  by (simp_all add: last_or_def)

lemma first_or_append: "first_or (xs @ ys) n = first_or xs (first_or ys n)"
  by (cases xs) simp_all

lemma last_or_append: "last_or (xs @ ys) p = last_or ys (last_or xs p)"
  by (simp add: last_or_def)

text \<open>The items of a part of the queue: \<open>p\<close> is before it, \<open>n\<close> behind it.\<close>

fun linked :: "(string \<Rightarrow> cache_item_t option) \<Rightarrow> string option \<Rightarrow> string list \<Rightarrow> string option \<Rightarrow> bool" where
  "linked m p [] n = True"
| "linked m p (f # fs) n =
     (\<exists>ci. m f = Some ci \<and> in_queue ci \<and> ci_values ci \<noteq> [] \<and> ci_prev ci = p \<and> ci_next ci = first_or fs n \<and>
        linked m (Some f) fs n)"

lemma linked_append:
  "linked m p (xs @ ys) n \<longleftrightarrow> linked m p xs (first_or ys n) \<and> linked m (last_or xs p) ys n"
proof (induction xs arbitrary: p)
  case (Cons x xs)
  have "first_or (xs @ ys) n = first_or xs (first_or ys n)" by (cases xs) simp_all
  then show ?case by (auto simp: Cons)
qed simp

lemma linked_cong: "(\<And>f. f \<in> set xs \<Longrightarrow> m' f = m f) \<Longrightarrow> linked m' p xs n = linked m p xs n"
  by (induction xs arbitrary: p) auto

lemma linked_other [simp]: "f \<notin> set xs \<Longrightarrow> linked (m(f := v)) p xs n = linked m p xs n"
  by (rule linked_cong) auto

lemma linked_set_next:
  "linked m p (xs @ [f]) n \<Longrightarrow> m f = Some ci \<Longrightarrow> f \<notin> set xs \<Longrightarrow>
     linked (m(f := Some (ci\<lparr>ci_next := n'\<rparr>))) p (xs @ [f]) n'"
  by (auto simp: linked_append)

lemma linked_set_prev:
  "linked m p (f # xs) n \<Longrightarrow> m f = Some ci \<Longrightarrow> f \<notin> set xs \<Longrightarrow>
     linked (m(f := Some (ci\<lparr>ci_prev := p'\<rparr>))) p' (f # xs) n"
  by auto

lemma linked_in: "linked m p xs n \<Longrightarrow> f \<in> set xs \<Longrightarrow> \<exists>ci. m f = Some ci \<and> in_queue ci \<and> ci_values ci \<noteq> []"
  by (induction xs arbitrary: p) auto

text \<open>The invariant of the cache: the queue is a list of different files. No more items than
  that fit into the address space.\<close>

definition queue_is :: "cache \<Rightarrow> string list \<Rightarrow> bool" where
  "queue_is c qs \<longleftrightarrow>
     sorted_wrt str_less (map fst (tree c)) \<and> distinct qs \<and> linked (item c) None qs None \<and>
     queue_head c = first_or qs None \<and> queue_tail c = last_or qs None \<and>
     stats_queue_length c = of_nat (length qs) \<and> length (tree c) \<le> 2 ^ 56 \<and>
     (\<forall>f ci. item c f = Some ci \<and> f \<notin> set qs \<longrightarrow> \<not> in_queue ci \<and> ci_prev ci = None \<and> ci_next ci = None)"

lemma map_of_set:
  "map_of (map (\<lambda>(g, ci). (g, if g = f then u ci else ci)) t) = (map_of t)(f := map_option u (map_of t f))"
  by (induction t) (auto simp: fun_eq_iff)

lemma item_set_item:
  "set_item f u c = Some c' \<Longrightarrow> item c' = (item c)(f := map_option u (item c f))"
  by (auto simp: set_item_def item_def g_tree_lookup_def map_of_set split: if_splits)

lemma set_item_exists: "item c f = Some ci \<Longrightarrow> \<exists>c'. set_item f u c = Some c'"
  by (simp add: set_item_def)

lemma set_item_fields:
  assumes "set_item f u c = Some c'"
  shows "queue_head c' = queue_head c" "queue_tail c' = queue_tail c"
    "stats_queue_length c' = stats_queue_length c" "map fst (tree c') = map fst (tree c)"
  using assms by (auto simp: set_item_def comp_def case_prod_beta split: if_splits)

lemma item_update [simp]:
  "item (c\<lparr>queue_head := h\<rparr>) = item c" "item (c\<lparr>queue_tail := t\<rparr>) = item c"
  "item (c\<lparr>stats_queue_length := n\<rparr>) = item c"
  by (simp_all add: item_def fun_eq_iff)

section \<open>The operations keep the queue a list\<close>

lemma queue_item:
  "queue_is c qs \<Longrightarrow> item c f = Some ci \<Longrightarrow> in_queue ci \<longleftrightarrow> f \<in> set qs"
  by (auto simp: queue_is_def dest: linked_in)

lemma queue_in_tree:
  assumes "queue_is c qs"
  shows "set qs \<subseteq> set (map fst (tree c))" "length qs \<le> length (tree c)"
proof -
  show sub: "set qs \<subseteq> set (map fst (tree c))"
    using assms by (auto simp: queue_is_def item_def g_tree_lookup_def dest!: linked_in map_of_SomeD intro: rev_image_eqI)
  have "length qs = card (set qs)" using assms by (simp add: queue_is_def distinct_card)
  also have "\<dots> \<le> card (set (map fst (tree c)))" using sub by (intro card_mono) simp_all
  also have "\<dots> \<le> length (map fst (tree c))" by (rule card_length)
  finally show "length qs \<le> length (tree c)" by simp
qed

lemma queue_count:
  assumes q: "queue_is c qs" and f: "f \<in> set qs"
  shows "stats_queue_length c \<noteq> 0"
proof -
  have "length qs \<le> 2 ^ 56" using queue_in_tree(2) [OF q] q by (simp add: queue_is_def)
  then have "unat (stats_queue_length c) = length qs"
    using q by (simp add: queue_is_def unat_of_nat take_bit_nat_eq_self)
  then show ?thesis using f by (cases qs) auto
qed

text \<open>What the queue operations leave alone: the keys of the tree, and the values and times of the
  items.\<close>

definition item_data :: "cache_item_t \<Rightarrow> string list \<times> int \<times> int" where
  "item_data ci = (ci_values ci, last_flush_time ci, last_update_stamp ci)"

definition same_data :: "cache \<Rightarrow> cache \<Rightarrow> bool" where
  "same_data c c' \<longleftrightarrow> map fst (tree c') = map fst (tree c) \<and>
     (\<forall>f. map_option item_data (item c' f) = map_option item_data (item c f))"

lemma same_data_refl [simp]: "same_data c c"
  by (simp add: same_data_def)

lemma same_data_trans [trans]: "same_data c c1 \<Longrightarrow> same_data c1 c2 \<Longrightarrow> same_data c c2"
  by (simp add: same_data_def)

lemma same_data_length: "same_data c c' \<Longrightarrow> length (tree c') = length (tree c)"
  unfolding same_data_def by (metis length_map)

lemma same_data_set_item:
  "set_item f u c = Some c' \<Longrightarrow> (\<And>ci. item_data (u ci) = item_data ci) \<Longrightarrow> same_data c c'"
  by (auto simp: same_data_def item_set_item set_item_fields option.map_comp comp_def)

lemma same_data_fields [simp]:
  "same_data c (c'\<lparr>queue_head := h\<rparr>) = same_data c c'" "same_data c (c'\<lparr>queue_tail := t\<rparr>) = same_data c c'"
  "same_data c (c'\<lparr>stats_queue_length := n\<rparr>) = same_data c c'"
  "same_data (c\<lparr>queue_head := h\<rparr>) c' = same_data c c'" "same_data (c\<lparr>queue_tail := t\<rparr>) c' = same_data c c'"
  by (simp_all add: same_data_def)

lemma item_data_links [simp]:
  "item_data (ci\<lparr>ci_prev := p\<rparr>) = item_data ci" "item_data (ci\<lparr>ci_next := n\<rparr>) = item_data ci"
  "item_data (ci\<lparr>in_queue := b\<rparr>) = item_data ci"
  by (simp_all add: item_data_def)

text \<open>The two assignments that take an item out of the links.\<close>

lemma unlink_prev:
  assumes l: "linked (item c) None as (Some f)" "distinct as"
  shows "\<exists>c1. (case last_or as None of
                  None \<Rightarrow> Some (c\<lparr>queue_head := n\<rparr>)
                | Some p \<Rightarrow> set_item p (\<lambda>i. i\<lparr>ci_next := n\<rparr>) c) = Some c1 \<and>
           linked (item c1) None as n \<and> (\<forall>g. g \<notin> set as \<longrightarrow> item c1 g = item c g) \<and>
           queue_head c1 = (if as = [] then n else queue_head c) \<and> queue_tail c1 = queue_tail c \<and>
           stats_queue_length c1 = stats_queue_length c \<and> same_data c c1"
proof (cases as rule: rev_cases)
  case (snoc as' p)
  then obtain ci where "item c p = Some ci" using linked_in [OF l(1), of p] by auto
  moreover from set_item_exists [OF this] obtain c1 where
    c1: "set_item p (\<lambda>i. i\<lparr>ci_next := n\<rparr>) c = Some c1" by blast
  ultimately have "linked (item c1) None as n"
    using l snoc linked_set_next [of "item c" None as' p] by (simp add: item_set_item)
  then show ?thesis using snoc c1 same_data_set_item [OF c1] by (simp add: set_item_fields item_set_item)
qed simp

lemma unlink_next:
  assumes l: "linked (item c) (Some f) bs None" "distinct bs"
  shows "\<exists>c1. (case first_or bs None of
                  None \<Rightarrow> Some (c\<lparr>queue_tail := p\<rparr>)
                | Some n \<Rightarrow> set_item n (\<lambda>i. i\<lparr>ci_prev := p\<rparr>) c) = Some c1 \<and>
           linked (item c1) p bs None \<and> (\<forall>g. g \<notin> set bs \<longrightarrow> item c1 g = item c g) \<and>
           queue_tail c1 = (if bs = [] then p else queue_tail c) \<and> queue_head c1 = queue_head c \<and>
           stats_queue_length c1 = stats_queue_length c \<and> same_data c c1"
proof (cases bs)
  case (Cons n bs')
  then obtain ci where "item c n = Some ci" using linked_in [OF l(1), of n] by auto
  moreover from set_item_exists [OF this] obtain c1 where
    c1: "set_item n (\<lambda>i. i\<lparr>ci_prev := p\<rparr>) c = Some c1" by blast
  ultimately have "linked (item c1) p bs None"
    using l Cons linked_set_prev [of "item c" "Some f" n bs'] by (simp add: item_set_item)
  then show ?thesis using Cons c1 same_data_set_item [OF c1] by (simp add: set_item_fields item_set_item)
qed simp

lemma remove_from_queue_ok:
  assumes q: "queue_is c qs" and f: "item c f = Some ci"
  shows "\<exists>c'. remove_from_queue f c = Some c' \<and> queue_is c' (remove1 f qs) \<and> same_data c c' \<and>
           item c' f = Some (ci\<lparr>in_queue := False, ci_prev := None, ci_next := None\<rparr>)"
proof (cases "f \<in> set qs")
  case False
  then have "\<not> in_queue ci" "ci_prev ci = None" "ci_next ci = None" using q f by (auto simp: queue_is_def)
  then show ?thesis using q f False by (cases ci) (simp add: remove_from_queue_def remove1_idem)
next
  case True
  obtain as bs where qs: "qs = as @ f # bs" "f \<notin> set as" using split_list_first [OF True] by blast
  have d: "distinct (as @ f # bs)" using q qs by (simp add: queue_is_def)
  have l: "linked (item c) None as (Some f)" "linked (item c) (Some f) bs None"
    and ci: "in_queue ci" "ci_prev ci = last_or as None" "ci_next ci = first_or bs None"
    using q f by (auto simp: queue_is_def qs linked_append)
  obtain c1 where c1: "(case ci_prev ci of None \<Rightarrow> Some (c\<lparr>queue_head := ci_next ci\<rparr>)
        | Some p \<Rightarrow> set_item p (\<lambda>i. i\<lparr>ci_next := ci_next ci\<rparr>) c) = Some c1"
    "linked (item c1) None as (ci_next ci)" "\<forall>g. g \<notin> set as \<longrightarrow> item c1 g = item c g"
    "queue_head c1 = (if as = [] then ci_next ci else queue_head c)" "queue_tail c1 = queue_tail c"
    "stats_queue_length c1 = stats_queue_length c" "same_data c c1"
    using unlink_prev [OF l(1), of "ci_next ci"] d unfolding ci by auto
  have "linked (item c1) (Some f) bs None" using l(2) c1(3) d by (subst linked_cong) auto
  then obtain c2 where c2: "(case ci_next ci of None \<Rightarrow> Some (c1\<lparr>queue_tail := ci_prev ci\<rparr>)
        | Some n \<Rightarrow> set_item n (\<lambda>i. i\<lparr>ci_prev := ci_prev ci\<rparr>) c1) = Some c2"
    "linked (item c2) (ci_prev ci) bs None" "\<forall>g. g \<notin> set bs \<longrightarrow> item c2 g = item c1 g"
    "queue_tail c2 = (if bs = [] then ci_prev ci else queue_tail c1)" "queue_head c2 = queue_head c1"
    "stats_queue_length c2 = stats_queue_length c1" "same_data c1 c2"
    using unlink_next [of c1 f bs "ci_prev ci"] d unfolding ci by auto
  have f2: "item c2 f = Some ci" using f c1(3) c2(3) d by auto
  then obtain c3 where c3: "set_item f (\<lambda>i. i\<lparr>ci_next := None, ci_prev := None, in_queue := False\<rparr>) c2 = Some c3"
    using set_item_exists by blast
  note m3 = item_set_item [OF c3] and fields3 = set_item_fields [OF c3]
  let ?c' = "c3\<lparr>stats_queue_length := stats_queue_length c3 - 1\<rparr>"
  have "stats_queue_length c3 \<noteq> 0" using c1(6) c2(6) fields3(3) queue_count [OF q True] by simp
  then have run: "remove_from_queue f c = Some ?c'"
    unfolding remove_from_queue_def f using ci(1) by (simp add: c1(1) c2(1) c3)
  have same: "same_data c ?c'"
    using c1(7) c2(7) same_data_set_item [OF c3] by (auto intro: same_data_trans)
  have "linked (item c2) None as (ci_next ci)" using c1(2) c2(3) d by (subst linked_cong) auto
  then have "linked (item ?c') None (as @ bs) None"
    using c2(2) d by (simp add: linked_append m3 ci)
  moreover have ends: "queue_head c = first_or as (Some f)" "queue_tail c = last_or bs (Some f)"
    using q by (simp_all add: queue_is_def qs first_or_append last_or_append)
  have "queue_head ?c' = first_or (as @ bs) None"
    using c1(4) c2(5) ends(1) by (cases as) (simp_all add: fields3 ci)
  moreover have "queue_tail ?c' = last_or (as @ bs) None"
    using c1(5) c2(4) ends(2) by (cases bs) (simp_all add: fields3 ci last_or_append)
  moreover have "stats_queue_length ?c' = of_nat (length (as @ bs))"
    using q c1(6) c2(6) by (simp add: fields3 queue_is_def qs)
  moreover have "\<not> in_queue cg \<and> ci_prev cg = None \<and> ci_next cg = None"
    if "item ?c' g = Some cg" "g \<notin> set (as @ bs)" for g cg
  proof (cases "g = f")
    case False
    then have "item c g = Some cg" "g \<notin> set qs" using that c1(3) c2(3) by (auto simp: m3 qs)
    then show ?thesis using q by (auto simp: queue_is_def)
  qed (use that f2 in \<open>auto simp: m3\<close>)
  moreover have "remove1 f qs = as @ bs" using qs d by (simp add: remove1_append)
  ultimately have "queue_is ?c' (remove1 f qs)"
    using q d same_data_length [OF same] same by (auto simp: queue_is_def same_data_def qs)
  then show ?thesis using run same f2 by (auto simp: m3)
qed

lemma enqueued_ok:
  assumes "item c f = Some ci"
  shows "\<exists>c'. enqueued f c = Some c' \<and> item c' = (item c)(f := Some (ci\<lparr>in_queue := True\<rparr>)) \<and>
           queue_head c' = queue_head c \<and> queue_tail c' = queue_tail c \<and>
           stats_queue_length c' = stats_queue_length c + 1 \<and> same_data c c'"
proof -
  obtain c1 where c1: "set_item f (\<lambda>i. i\<lparr>in_queue := True\<rparr>) c = Some c1" using set_item_exists [OF assms] by blast
  then show ?thesis
    using item_set_item [OF c1] set_item_fields [OF c1] same_data_set_item [OF c1] assms
    by (simp add: enqueued_def)
qed

lemma enqueue_tail_ok:
  assumes q: "queue_is c qs" and f: "item c f = Some ci" "ci_values ci \<noteq> []"
  shows "\<exists>c'. enqueue_tail f c = Some c' \<and> queue_is c' (if f \<in> set qs then qs else qs @ [f]) \<and> same_data c c'"
proof (cases "f \<in> set qs")
  case True
  then show ?thesis using q f queue_item [OF q f(1)] by (auto simp: enqueue_tail_def)
next
  case False
  have ci: "\<not> in_queue ci" "ci_prev ci = None" "ci_next ci = None" using q f(1) False by (auto simp: queue_is_def)
  have d: "distinct qs" and l: "linked (item c) None qs None" using q by (simp_all add: queue_is_def)
  have tl: "queue_tail c = last_or qs None" "queue_head c = first_or qs None" using q by (simp_all add: queue_is_def)
  obtain c1 where c1: "set_item f (\<lambda>i. i\<lparr>ci_prev := queue_tail c\<rparr>) c = Some c1" using set_item_exists [OF f(1)] by blast
  note m1 = item_set_item [OF c1] set_item_fields [OF c1]
  have l1: "linked (item c1) None qs None" using l False by (simp add: m1)
  have "\<exists>c2. (case queue_tail c1 of None \<Rightarrow> Some (c1\<lparr>queue_head := Some f\<rparr>)
                | Some t \<Rightarrow> set_item t (\<lambda>i. i\<lparr>ci_next := Some f\<rparr>) c1) = Some c2 \<and>
      linked (item c2) None qs (Some f) \<and> (\<forall>g. g \<notin> set qs \<longrightarrow> item c2 g = item c1 g) \<and>
      queue_head c2 = first_or qs (Some f) \<and> stats_queue_length c2 = stats_queue_length c1 \<and> same_data c1 c2"
  proof (cases qs rule: rev_cases)
    case (snoc as t)
    then obtain ct where ct: "item c1 t = Some ct" using linked_in [OF l1, of t] by auto
    then obtain c2 where c2: "set_item t (\<lambda>i. i\<lparr>ci_next := Some f\<rparr>) c1 = Some c2" using set_item_exists by blast
    have "linked (item c2) None qs (Some f)"
      using l1 snoc d ct linked_set_next [of "item c1" None as t] by (simp add: item_set_item [OF c2])
    then show ?thesis
      using snoc c2 same_data_set_item [OF c2] tl m1
      by (auto simp: set_item_fields [OF c2] item_set_item [OF c2] first_or_append split: list.splits)
  qed (use tl m1 in simp)
  then obtain c2 where c2: "(case queue_tail c1 of None \<Rightarrow> Some (c1\<lparr>queue_head := Some f\<rparr>)
                | Some t \<Rightarrow> set_item t (\<lambda>i. i\<lparr>ci_next := Some f\<rparr>) c1) = Some c2"
      "linked (item c2) None qs (Some f)" "\<forall>g. g \<notin> set qs \<longrightarrow> item c2 g = item c1 g"
      "queue_head c2 = first_or qs (Some f)" "stats_queue_length c2 = stats_queue_length c1" "same_data c1 c2"
    by blast
  have f2: "item (c2\<lparr>queue_tail := Some f\<rparr>) f = Some (ci\<lparr>ci_prev := queue_tail c\<rparr>)"
    using c2(3) False f(1) by (simp add: m1)
  obtain c3 where c3: "enqueued f (c2\<lparr>queue_tail := Some f\<rparr>) = Some c3"
    "item c3 = (item c2)(f := Some (ci\<lparr>ci_prev := queue_tail c, in_queue := True\<rparr>))"
    "queue_head c3 = queue_head c2" "queue_tail c3 = Some f"
    "stats_queue_length c3 = stats_queue_length c2 + 1" "same_data c2 c3"
    using enqueued_ok [OF f2] by auto
  have run: "enqueue_tail f c = Some c3"
    using f(1) ci c1 c2(1) c3(1) m1 by (simp add: enqueue_tail_def)
  have same: "same_data c c3"
    using same_data_set_item [OF c1] c2(6) c3(6) by (auto intro: same_data_trans)
  have "linked (item c3) None (qs @ [f]) None"
    using c2(2) False ci f(2) tl by (simp add: linked_append c3(2))
  moreover have "queue_head c3 = first_or (qs @ [f]) None" using c3(3) c2(4) by (simp add: first_or_append)
  moreover have "stats_queue_length c3 = of_nat (length (qs @ [f]))"
    using q c2(5) c3(5) m1 by (simp add: queue_is_def add.commute)
  moreover have "\<not> in_queue cg \<and> ci_prev cg = None \<and> ci_next cg = None"
    if "item c3 g = Some cg" "g \<notin> set (qs @ [f])" for g cg
    using that c2(3) c3(2) q by (auto simp: m1 queue_is_def)
  ultimately have "queue_is c3 (qs @ [f])"
    using q d False same_data_length [OF same] same c3(4) by (auto simp: queue_is_def same_data_def)
  then show ?thesis using run same False by auto
qed

lemma enqueue_head_ok:
  assumes q: "queue_is c qs" and f: "item c f = Some ci" "ci_values ci \<noteq> []"
  shows "\<exists>c'. enqueue_head f c = Some c' \<and> queue_is c' (f # remove1 f qs) \<and> same_data c c'"
proof (cases "queue_head c = Some f")
  case True
  then obtain qs' where "qs = f # qs'" using q by (cases qs) (auto simp: queue_is_def)
  then show ?thesis using q True by (simp add: enqueue_head_def)
next
  case False
  let ?qs = "remove1 f qs"
  obtain c1 where c1: "remove_from_queue f c = Some c1" "queue_is c1 ?qs" "same_data c c1"
    "item c1 f = Some (ci\<lparr>in_queue := False, ci_prev := None, ci_next := None\<rparr>)"
    using remove_from_queue_ok [OF q f(1)] by blast
  have new: "f \<notin> set ?qs" using q by (simp add: queue_is_def)
  have d: "distinct ?qs" and l: "linked (item c1) None ?qs None"
    and ends: "queue_head c1 = first_or ?qs None" "queue_tail c1 = last_or ?qs None"
    using c1(2) by (simp_all add: queue_is_def)
  obtain c2 where c2: "set_item f (\<lambda>i. i\<lparr>ci_prev := None, ci_next := queue_head c1\<rparr>) c1 = Some c2"
    using set_item_exists [OF c1(4)] by blast
  note m2 = item_set_item [OF c2] set_item_fields [OF c2]
  have l2: "linked (item c2) None ?qs None" using l new by (simp add: m2)
  have "\<exists>c3. (case queue_head c2 of None \<Rightarrow> Some c2
                | Some h \<Rightarrow> set_item h (\<lambda>i. i\<lparr>ci_prev := Some f\<rparr>) c2) = Some c3 \<and>
      linked (item c3) (Some f) ?qs None \<and> (\<forall>g. g \<notin> set ?qs \<longrightarrow> item c3 g = item c2 g) \<and>
      queue_tail c3 = queue_tail c2 \<and> stats_queue_length c3 = stats_queue_length c2 \<and> same_data c2 c3"
  proof (cases ?qs)
    case (Cons h bs)
    then obtain ch where ch: "item c2 h = Some ch" using linked_in [OF l2, of h] by auto
    then obtain c3 where c3: "set_item h (\<lambda>i. i\<lparr>ci_prev := Some f\<rparr>) c2 = Some c3" using set_item_exists by blast
    have "linked (item c3) (Some f) ?qs None"
      using l2 Cons d ch linked_set_prev [of "item c2" None h bs] by (simp add: item_set_item [OF c3])
    then show ?thesis
      using Cons c3 same_data_set_item [OF c3] ends m2 by (simp add: set_item_fields [OF c3] item_set_item [OF c3])
  qed (use ends m2 in simp)
  then obtain c3 where c3: "(case queue_head c2 of None \<Rightarrow> Some c2
                | Some h \<Rightarrow> set_item h (\<lambda>i. i\<lparr>ci_prev := Some f\<rparr>) c2) = Some c3"
      "linked (item c3) (Some f) ?qs None" "\<forall>g. g \<notin> set ?qs \<longrightarrow> item c3 g = item c2 g"
      "queue_tail c3 = queue_tail c2" "stats_queue_length c3 = stats_queue_length c2" "same_data c2 c3"
    by blast
  let ?c3 = "c3\<lparr>queue_head := Some f, queue_tail := (if queue_tail c3 = None then Some f else queue_tail c3)\<rparr>"
  let ?ci = "ci\<lparr>in_queue := False, ci_prev := None, ci_next := queue_head c1\<rparr>"
  have f3: "item ?c3 f = Some ?ci" using c3(3) new c1(4) by (simp add: m2)
  obtain c4 where c4: "enqueued f ?c3 = Some c4" "item c4 = (item c3)(f := Some (?ci\<lparr>in_queue := True\<rparr>))"
    "queue_head c4 = Some f" "queue_tail c4 = (if queue_tail c3 = None then Some f else queue_tail c3)"
    "stats_queue_length c4 = stats_queue_length c3 + 1" "same_data c3 c4"
    using enqueued_ok [OF f3] by auto
  have run: "enqueue_head f c = Some c4"
    using False by (simp add: enqueue_head_def c1(1) c2 c3(1) c4(1))
  have same: "same_data c c4"
    using c1(3) same_data_set_item [OF c2] c3(6) c4(6) by (auto intro: same_data_trans simp: item_data_def)
  have "linked (item c4) None (f # ?qs) None"
    using c3(2) new f(2) ends by (simp add: c4(2))
  moreover have "queue_tail c4 = last_or (f # ?qs) None"
    using c4(4) c3(4) ends m2 by (auto simp: last_or_def)
  moreover have "stats_queue_length c4 = of_nat (length (f # ?qs))"
    using c1(2) c3(5) c4(5) m2 by (simp add: queue_is_def add.commute)
  moreover have "\<not> in_queue cg \<and> ci_prev cg = None \<and> ci_next cg = None"
    if "item c4 g = Some cg" "g \<notin> set (f # ?qs)" for g cg
    using that c3(3) c4(2) c1(2) by (auto simp: m2 queue_is_def)
  ultimately have "queue_is c4 (f # ?qs)"
    using c1(2) d new same_data_length [OF same] same same_data_length [OF c1(3)] c1(3) c4(3)
    by (auto simp: queue_is_def same_data_def)
  then show ?thesis using run same by auto
qed

text \<open>Following the links gives the queue.\<close>

lemma walk_linked:
  "linked (item c) p fs None \<Longrightarrow> length fs \<le> n \<Longrightarrow> walk_queue n (first_or fs None) c = Some fs"
proof (induction fs arbitrary: p n)
  case (Cons f fs)
  then obtain m where "n = Suc m" by (cases n) auto
  with Cons show ?case by auto
qed simp

lemma queue_files_ok: "queue_is c qs \<Longrightarrow> queue_files c = Some qs"
  using queue_in_tree(2) [of c qs] walk_linked [of c None qs "length (tree c)"]
  by (simp add: queue_files_def queue_is_def)

text \<open>Changing the values of items outside the queue, and adding items, keep the queue.\<close>

lemma queue_is_set_data:
  assumes q: "queue_is c qs" and u: "\<And>ci. in_queue (u ci) = in_queue ci \<and> ci_prev (u ci) = ci_prev ci \<and> ci_next (u ci) = ci_next ci"
    and f: "item c f = Some ci" "f \<in> set qs \<Longrightarrow> ci_values (u ci) \<noteq> []"
    and set: "set_item f u c = Some c'"
  shows "queue_is c' qs"
proof -
  note m = item_set_item [OF set] set_item_fields [OF set]
  have "linked (item c') p fs n" if "linked (item c) p fs n" "set fs \<subseteq> set qs" for p fs n
    using that by (induction fs arbitrary: p) (auto simp: m u f)
  moreover have "length (tree c') = length (tree c)" using m(5) by (metis length_map)
  ultimately show ?thesis
    using q u f(1) by (auto simp: queue_is_def m split: if_splits)
qed

lemma map_of_replace: "map_of (g_tree_replace f ci t) = (map_of t)(f := Some ci)"
  by (induction f ci t rule: g_tree_replace.induct) (auto simp: fun_upd_twist)

lemma keys_replace: "set (map fst (g_tree_replace f ci t)) = insert f (set (map fst t))"
  by (induction f ci t rule: g_tree_replace.induct) auto

lemma length_replace: "length (g_tree_replace f ci t) \<le> Suc (length t)"
  by (induction f ci t rule: g_tree_replace.induct) auto

lemma str_less_irrefl: "\<not> str_less s s"
  by (induction s) auto

lemma str_less_trans: "str_less s t \<Longrightarrow> str_less t u \<Longrightarrow> str_less s u"
proof (induction s t arbitrary: u rule: str_less.induct)
  case (2 y t)
  then show ?case by (cases u) auto
next
  case (3 x s y t)
  then show ?case by (cases u) auto
qed simp

lemma ord_inj: "ord x = ord y \<longleftrightarrow> x = y"
  by (simp add: ord_def of_char_eq_iff)

lemma str_less_total: "s \<noteq> t \<Longrightarrow> \<not> str_less s t \<Longrightarrow> str_less t s"
proof (induction s t rule: str_less.induct)
  case (1 s)
  then show ?case by (cases s) auto
next
  case (3 x s y t)
  have "ord x = ord y \<longleftrightarrow> x = y" by (rule ord_inj)
  with 3 show ?case by auto
qed simp

lemma sorted_replace: "sorted_wrt str_less (map fst t) \<Longrightarrow> sorted_wrt str_less (map fst (g_tree_replace f ci t))"
proof (induction f ci t rule: g_tree_replace.induct)
  case (2 f ci g cj t)
  show ?case
  proof (cases "f = g \<or> str_less f g")
    case True
    then show ?thesis using 2 by (auto intro: str_less_trans)
  next
    case False
    then have "str_less g f" by (auto intro: str_less_total)
    then have "\<forall>k \<in> set (map fst (g_tree_replace f ci t)). str_less g k"
      unfolding keys_replace using 2 by auto
    then show ?thesis using False 2 by simp
  qed
qed simp

lemma queue_is_replace:
  assumes q: "queue_is c qs" and new: "item c f = None" "length (tree c) < 2 ^ 56"
    and ci: "\<not> in_queue ci" "ci_prev ci = None" "ci_next ci = None"
  shows "queue_is (c\<lparr>tree := g_tree_replace f ci (tree c)\<rparr>) qs"
    "item (c\<lparr>tree := g_tree_replace f ci (tree c)\<rparr>) = (item c)(f := Some ci)"
proof -
  show m: "item (c\<lparr>tree := g_tree_replace f ci (tree c)\<rparr>) = (item c)(f := Some ci)"
    by (simp add: item_def g_tree_lookup_def map_of_replace fun_eq_iff)
  have "f \<notin> set qs" using q new(1) by (auto simp: queue_is_def dest!: linked_in)
  then have "linked (item (c\<lparr>tree := g_tree_replace f ci (tree c)\<rparr>)) None qs None"
    using q by (simp add: m queue_is_def)
  then show "queue_is (c\<lparr>tree := g_tree_replace f ci (tree c)\<rparr>) qs"
    using q ci new(2) sorted_replace [of "tree c" f ci] length_replace [of f ci "tree c"]
    by (auto simp: queue_is_def m)
qed

lemma g_tree_remove_ok:
  assumes q: "queue_is c qs"
  shows "\<exists>c'. g_tree_remove f c = Some (item c f \<noteq> None, c') \<and> queue_is c' (remove1 f qs) \<and>
           item c' f = None \<and> (\<forall>g. g \<noteq> f \<longrightarrow> map_option item_data (item c' g) = map_option item_data (item c g))"
proof (cases "item c f")
  case None
  then have "f \<notin> set qs" using q by (auto simp: queue_is_def dest!: linked_in)
  then show ?thesis using q None by (auto simp: g_tree_remove_def remove1_idem)
next
  case (Some ci)
  obtain c1 where c1: "remove_from_queue f c = Some c1" "queue_is c1 (remove1 f qs)" "same_data c c1"
    "item c1 f = Some (ci\<lparr>in_queue := False, ci_prev := None, ci_next := None\<rparr>)"
    using remove_from_queue_ok [OF q Some] by blast
  let ?c = "c1\<lparr>tree := g_tree_delete f (tree c1)\<rparr>"
  have m: "item ?c = (item c1)(f := None)"
  proof
    fix g
    have "map_of (filter (\<lambda>p. fst p \<noteq> f) t) g = ((map_of t)(f := None)) g" for t :: item_tree
      by (induction t) auto
    then show "item ?c g = ((item c1)(f := None)) g"
      by (simp add: item_def g_tree_lookup_def g_tree_delete_def)
  qed
  have new: "f \<notin> set (remove1 f qs)" using q by (simp add: queue_is_def)
  have "sorted_wrt str_less (map fst (g_tree_delete f (tree c1)))"
    using c1(2) by (simp add: queue_is_def g_tree_delete_def sorted_wrt_map sorted_wrt_filter)
  moreover have "length (g_tree_delete f (tree c1)) \<le> length (tree c1)"
    by (simp add: g_tree_delete_def)
  moreover have "linked (item ?c) None (remove1 f qs) None"
    using c1(2) new by (simp add: m queue_is_def)
  moreover have "set (remove1 f qs) = set qs - {f}" using q by (simp add: queue_is_def set_remove1_eq)
  ultimately have "queue_is ?c (remove1 f qs)"
    using c1(2) by (auto simp: queue_is_def m)
  then show ?thesis
    using Some c1 by (auto simp: g_tree_remove_def m same_data_def)
qed

text \<open>An item loses its values before it leaves the queue; the result is the same as in the other
  order.\<close>

lemma remove_wiped_ok:
  assumes q: "queue_is c qs" and ci: "item c f = Some ci"
    and u: "\<And>ci. in_queue (u ci) = in_queue ci \<and> ci_prev (u ci) = ci_prev ci \<and> ci_next (u ci) = ci_next ci"
    and comm: "\<And>ci x. u (ci\<lparr>ci_next := x\<rparr>) = (u ci)\<lparr>ci_next := x\<rparr>" "\<And>ci x. u (ci\<lparr>ci_prev := x\<rparr>) = (u ci)\<lparr>ci_prev := x\<rparr>"
      "\<And>ci x. u (ci\<lparr>in_queue := x\<rparr>) = (u ci)\<lparr>in_queue := x\<rparr>"
  shows "\<exists>c1 c'. set_item f u c = Some c1 \<and> remove_from_queue f c1 = Some c' \<and> queue_is c' (remove1 f qs) \<and>
    (\<forall>g. map_option item_data (item c' g) =
           (if g = f then Some (item_data (u ci)) else map_option item_data (item c g)))"
proof -
  define U where "U = (\<lambda>c::cache. c\<lparr>tree := map (\<lambda>(g, ci). (g, if g = f then u ci else ci)) (tree c)\<rparr>)"
  have it: "item (U c) g = (if g = f then map_option u (item c g) else item c g)" for c g
    by (simp add: U_def item_def g_tree_lookup_def map_of_set)
  have fld: "queue_head (U c) = queue_head c" "queue_tail (U c) = queue_tail c"
    "stats_queue_length (U c) = stats_queue_length c"
    "(U c)\<lparr>queue_head := x\<rparr> = U (c\<lparr>queue_head := x\<rparr>)" "(U c)\<lparr>queue_tail := x\<rparr> = U (c\<lparr>queue_tail := x\<rparr>)"
    "(U c)\<lparr>stats_queue_length := n\<rparr> = U (c\<lparr>stats_queue_length := n\<rparr>)" for c x n
    by (simp_all add: U_def)
  have sU: "set_item f u c = (if item c f = None then None else Some (U c))" for c
    by (simp add: set_item_def U_def)
  have sc: "set_item g v (U c) = map_option U (set_item g v c)" if "\<And>ci. v (u ci) = u (v ci)" for c g v
  proof -
    have "map (\<lambda>(h, ci). (h, if h = g then v ci else ci)) (map (\<lambda>(h, ci). (h, if h = f then u ci else ci)) t) =
        map (\<lambda>(h, ci). (h, if h = f then u ci else ci)) (map (\<lambda>(h, ci). (h, if h = g then v ci else ci)) t)" for t
      using that by (induction t) auto
    then have "(U c)\<lparr>tree := map (\<lambda>(h, ci). (h, if h = g then v ci else ci)) (tree (U c))\<rparr> =
        U (c\<lparr>tree := map (\<lambda>(h, ci). (h, if h = g then v ci else ci)) (tree c)\<rparr>)"
      by (simp only: U_def) simp
    then show ?thesis using it [of c g] by (auto simp: set_item_def)
  qed
  have bnd: "Option.bind m' k = map_option U (Option.bind m l)"
    if "m' = map_option U m" "\<And>x. k (U x) = map_option U (l x)" for m m' k l
    using that by (cases m) auto
  have rU: "remove_from_queue f (U c) = map_option U (remove_from_queue f c)"
  proof (cases "in_queue ci")
    case True
    have 1: "(case ci_prev ci of None \<Rightarrow> Some (U c\<lparr>queue_head := ci_next ci\<rparr>)
            | Some p \<Rightarrow> set_item p (\<lambda>i. i\<lparr>ci_next := ci_next ci\<rparr>) (U c)) =
        map_option U (case ci_prev ci of None \<Rightarrow> Some (c\<lparr>queue_head := ci_next ci\<rparr>)
            | Some p \<Rightarrow> set_item p (\<lambda>i. i\<lparr>ci_next := ci_next ci\<rparr>) c)"
      by (cases "ci_prev ci") (simp_all add: fld sc comm)
    have 2: "(case ci_next ci of None \<Rightarrow> Some (U x\<lparr>queue_tail := ci_prev ci\<rparr>)
            | Some n \<Rightarrow> set_item n (\<lambda>i. i\<lparr>ci_prev := ci_prev ci\<rparr>) (U x)) =
        map_option U (case ci_next ci of None \<Rightarrow> Some (x\<lparr>queue_tail := ci_prev ci\<rparr>)
            | Some n \<Rightarrow> set_item n (\<lambda>i. i\<lparr>ci_prev := ci_prev ci\<rparr>) x)" for x
      by (cases "ci_next ci") (simp_all add: fld sc comm)
    have 3: "set_item f (\<lambda>i. i\<lparr>ci_next := None, ci_prev := None, in_queue := False\<rparr>) (U x) =
        map_option U (set_item f (\<lambda>i. i\<lparr>ci_next := None, ci_prev := None, in_queue := False\<rparr>) x)" for x
      by (simp add: sc comm)
    have "item (U c) f = Some (u ci)" by (simp add: it ci)
    then show ?thesis
      unfolding remove_from_queue_def
      by (simp add: ci u True cong: option.case_cong) (intro bnd 1 2 3, simp add: fld)
  qed (simp add: remove_from_queue_def it ci u)
  obtain c2 where c2: "remove_from_queue f c = Some c2" "queue_is c2 (remove1 f qs)" "same_data c c2"
    "item c2 f = Some (ci\<lparr>in_queue := False, ci_prev := None, ci_next := None\<rparr>)"
    using remove_from_queue_ok [OF q ci] by blast
  have "f \<notin> set (remove1 f qs)" using q by (simp add: queue_is_def)
  then have "queue_is (U c2) (remove1 f qs)"
    using queue_is_set_data [OF c2(2) u c2(4)] c2(4) by (simp add: sU)
  moreover have "map_option item_data (item (U c2) g) =
      (if g = f then Some (item_data (u ci)) else map_option item_data (item c g))" for g
    using c2(3,4) by (simp add: it same_data_def comm)
  ultimately show ?thesis using rU c2(1) ci by (simp add: sU)
qed

end
