(* ===== verification/Daemon.thy ===== *)
theory Daemon
  imports Daemon_Queue Daemon_Wire "HOL-Library.Monad_Syntax"
begin

text \<open>
  The caching daemon (\<open>rrd_daemon.c\<close>): the cache with its queue, the journal, and the handlers of the
  commands, each the code between taking and giving back the lock of the cache. The system is an
  argument: what \<open>stat\<close> and \<open>access\<close> say of a file, the clocks, random numbers, and whether a new
  journal file can be opened. \<open>None\<close> is undefined behaviour, a failed assertion, or a lock that
  is never given back.
\<close>

section \<open>State\<close>

datatype run_state_t = RUNNING | FLUSHING | SHUTDOWN

record daemon_config =
  write_interval :: int
  write_jitter :: int
  flush_interval :: int
  base_dir :: "string option"
  write_base_only :: bool
  journal_dir :: "string option"

datatype file_kind = No_file int | Not_regular | No_access int | Regular_file

record daemon_env =
  file_stat :: "string \<Rightarrow> file_kind"
  de_strerror :: "int \<Rightarrow> string"
  de_random :: int
  de_time :: int
  de_malloc :: bool
  tree_height :: "item_tree \<Rightarrow> nat"
  journal_time :: "int \<times> int"
  journal_open :: bool

text \<open>The journal sets are lists of file names; \<open>disk\<close> holds the contents of the journal files.\<close>

record daemon =
  dcache :: cache
  run_state :: run_state_t
  flush_at_shutdown :: bool
  stats_updates_received :: ulong
  stats_flush_received :: ulong
  stats_updates_written :: ulong
  stats_data_sets_written :: ulong
  stats_journal_bytes :: ulong
  stats_journal_rotate :: ulong
  journal_fh :: "string option"
  journal_size :: int
  journal_cur :: "string list option"
  journal_old :: "string list option"
  disk :: "string \<Rightarrow> string option"

abbreviation d_item :: "daemon \<Rightarrow> string \<Rightarrow> cache_item_t option" where
  "d_item d f \<equiv> item (dcache d) f"

definition on_cache :: "(cache \<Rightarrow> cache option) \<Rightarrow> daemon \<Rightarrow> daemon option" where
  "on_cache f d = map_option (\<lambda>c. d\<lparr>dcache := c\<rparr>) (f (dcache d))"

text \<open>The values of an item are taken away, and the time of the flush is set.\<close>

definition wipe_ci_values :: "daemon_config \<Rightarrow> daemon_env \<Rightarrow> int \<Rightarrow> cache_item_t \<Rightarrow> cache_item_t" where
  "wipe_ci_values cf e when ci =
     ci\<lparr>ci_values := [],
        last_flush_time := when + (if write_jitter cf > 0 then de_random e mod write_jitter cf else 0)\<rparr>"

section \<open>The journal\<close>

definition JOURNAL_BASE :: string where "JOURNAL_BASE = ''rrd.journal''"
definition JOURNAL_MAX :: int where "JOURNAL_MAX = 1024 * 1024 * 1024"
definition PATH_MAX :: nat where "PATH_MAX = 4096"

definition journal_close :: "daemon \<Rightarrow> daemon" where
  "journal_close d = d\<lparr>journal_fh := None, journal_size := 0\<rparr>"

definition zero_pad :: "nat \<Rightarrow> int \<Rightarrow> string" where
  "zero_pad n i =
     (let s = show_nat (nat \<bar>i\<bar>); k = (if i < 0 then n - 1 else n) in
      (if i < 0 then ''-'' else []) @ replicate (k - length s) (CHR ''0'') @ s)"

definition journal_name :: "string \<Rightarrow> int \<times> int \<Rightarrow> string" where
  "journal_name dir t =
     take (PATH_MAX - 1) (dir @ ''/'' @ JOURNAL_BASE @ ''.'' @ zero_pad 10 (wrap_int (fst t))
        @ ''.'' @ zero_pad 6 (wrap_int (snd t)))"

definition journal_new_file :: "daemon_config \<Rightarrow> daemon_env \<Rightarrow> daemon \<Rightarrow> daemon option" where
  "journal_new_file cf e d0 =
     (case (journal_dir cf, journal_cur d0) of
        (Some dir, Some files) \<Rightarrow>
          (let d = journal_close d0; nm = journal_name dir (journal_time e) in
           if journal_open e then
             (let old = (case disk d nm of None \<Rightarrow> [] | Some s \<Rightarrow> s) in
              Some (d\<lparr>journal_fh := Some nm, journal_size := int (length old),
                      journal_cur := Some (files @ [nm]), disk := (disk d)(nm := Some old)\<rparr>))
           else Some (d\<lparr>flush_at_shutdown := True\<rparr>))
      | _ \<Rightarrow> None)"

definition journal_write :: "daemon_config \<Rightarrow> daemon_env \<Rightarrow> string \<Rightarrow> string \<Rightarrow> daemon \<Rightarrow> daemon option" where
  "journal_write cf e cmd args d =
     (case journal_fh d of
        None \<Rightarrow> Some d
      | Some nm \<Rightarrow>
          (let entry = cmd @ '' '' @ args @ [NL]; chars = length entry;
               d1 = d\<lparr>disk := (disk d)(nm := Some ((case disk d nm of None \<Rightarrow> [] | Some s \<Rightarrow> s) @ entry)),
                      journal_size := journal_size d + int chars\<rparr>
           in do {
             d2 \<leftarrow> (if journal_size d1 > JOURNAL_MAX then journal_new_file cf e d1 else Some d1);
             Some (d2\<lparr>stats_journal_bytes := stats_journal_bytes d2 + of_nat chars\<rparr>)
           }))"

definition journal_set_remove :: "string list option \<Rightarrow> daemon \<Rightarrow> daemon" where
  "journal_set_remove js d =
     (case js of None \<Rightarrow> d | Some files \<Rightarrow> d\<lparr>disk := (\<lambda>f. if f \<in> set files then None else disk d f)\<rparr>)"

definition journal_rotate :: "daemon_config \<Rightarrow> daemon_env \<Rightarrow> daemon \<Rightarrow> daemon option" where
  "journal_rotate cf e d =
     (if journal_dir cf = None then Some d
      else do {
        d1 \<leftarrow> journal_new_file cf e
               ((journal_close d)\<lparr>stats_journal_rotate := stats_journal_rotate d + 1,
                  journal_old := journal_cur d, journal_cur := Some []\<rparr>);
        Some (journal_set_remove (journal_old d) d1)
      })"

definition journal_done :: "daemon \<Rightarrow> daemon" where
  "journal_done d =
     (if journal_cur d = None then d
      else
        (let d1 = journal_close d;
             d2 = (if flush_at_shutdown d1
                   then journal_set_remove (journal_cur d1) (journal_set_remove (journal_old d1) d1) else d1)
         in d2\<lparr>journal_cur := None, journal_old := None\<rparr>))"

section \<open>Flushing\<close>

text \<open>One item of the traversal: it is queued, or its key is collected for removal.\<close>

definition tree_callback_flush ::
  "daemon_config \<Rightarrow> run_state_t \<Rightarrow> int \<Rightarrow> int \<Rightarrow> string \<Rightarrow> string list \<times> cache \<Rightarrow> (string list \<times> cache) option" where
  "tree_callback_flush cf st now abs_timeout f kc =
     (case item (snd kc) f of
        None \<Rightarrow> None
      | Some ci \<Rightarrow>
          (if in_queue ci then Some kc
           else if ci_values ci \<noteq> [] \<and> (last_flush_time ci \<le> abs_timeout \<or> st \<noteq> RUNNING) then
             map_option (Pair (fst kc)) (enqueue_cache_item f TAIL (snd kc))
           else if now - last_flush_time ci \<ge> flush_interval cf \<and> ci_values ci = [] then
             Some (fst kc @ [f], snd kc)
           else Some kc))"

definition remove_key :: "string \<Rightarrow> cache \<Rightarrow> cache option" where
  "remove_key f c = (case g_tree_remove f c of Some (True, c1) \<Rightarrow> Some c1 | _ \<Rightarrow> None)"

definition flush_old_values :: "daemon_config \<Rightarrow> daemon_env \<Rightarrow> int \<Rightarrow> daemon \<Rightarrow> daemon option" where
  "flush_old_values cf e max_age d =
     (let now = de_time e;
          abs_timeout = (if max_age > 0 then now - max_age else now + 2 * write_jitter cf + 1)
      in on_cache (\<lambda>c. do {
           (keys, c1) \<leftarrow> loopO (tree_callback_flush cf (run_state d) now abs_timeout)
                            (map fst (tree c)) ([], c);
           loopO remove_key keys c1
         }) d)"

section \<open>Files\<close>

definition get_abs_path :: "daemon_config \<Rightarrow> string \<Rightarrow> string" where
  "get_abs_path cf f =
     (case base_dir cf of
        None \<Rightarrow> f
      | Some b \<Rightarrow> if starts_with ''/'' f then f else take (PATH_MAX - 1) (b @ ''/'' @ f))"

fun contains_sub :: "string \<Rightarrow> string \<Rightarrow> bool" where
  "contains_sub p [] = (p = [])"
| "contains_sub p (ch # s) = (starts_with p (ch # s) \<or> contains_sub p s)"

definition access_allowed :: "daemon_config \<Rightarrow> bool \<Rightarrow> string \<Rightarrow> bool" where
  "access_allowed cf replay f =
     (\<not> write_base_only cf \<or> replay \<or>
      (case base_dir cf of
         None \<Rightarrow> True
       | Some b \<Rightarrow>
           \<not> contains_sub ''../'' f \<and>
           (\<not> starts_with ''/'' f \<or>
            (length b + 2 \<le> length f \<and> starts_with b f \<and> starts_with ''/'' (drop (length b) f)))))"

definition EACCES :: int where "EACCES = 13"
definition ENOENT :: int where "ENOENT = 2"

text \<open>The status, and whether the caller now waits until the item has left the queue.\<close>

definition flush_file :: "string \<Rightarrow> daemon \<Rightarrow> (int \<times> bool \<times> daemon) option" where
  "flush_file f d =
     (case d_item d f of
        None \<Rightarrow> Some (ENOENT, False, d)
      | Some ci \<Rightarrow>
          (if ci_values ci = [] then Some (0, False, d)
           else map_option (\<lambda>d1. (0, True, d1)) (on_cache (enqueue_cache_item f HEAD) d)))"

section \<open>Updates\<close>

text \<open>\<open>strtol\<close> in base 10 with the text behind the number.\<close>

definition strtol_10 :: "string \<Rightarrow> int \<times> string" where
  "strtol_10 s0 =
     (case take_sign (skip_space s0) of (neg, s) \<Rightarrow>
        if takeWhile isdigit s = [] then (0, s0) else (atol s0, dropWhile isdigit s))"

datatype 'd values_read = Values_stop nat 'd | Values_error string 'd

text \<open>The values of an update, one field after the other; each must be later than the one
  before.\<close>

definition add_value :: "string \<Rightarrow> int \<Rightarrow> cache_item_t \<Rightarrow> cache_item_t" where
  "add_value v stamp ci = ci\<lparr>ci_values := ci_values ci @ [v], last_update_stamp := stamp\<rparr>"

lemma get_field_loop_shorter: "get_field_loop b fld = Some (x, rest) \<Longrightarrow> length rest < length b"
  by (induction b fld rule: get_field_loop.induct) (auto split: if_splits list.splits)

lemma buffer_get_field_shorter: "buffer_get_field b = Some (Some (x, rest)) \<Longrightarrow> length rest < length b"
  by (auto simp: buffer_get_field_def split: if_splits dest: get_field_loop_shorter)

function update_values :: "string \<Rightarrow> string \<Rightarrow> nat \<Rightarrow> daemon \<Rightarrow> daemon values_read option" where
  "update_values f b n d =
     (if b = [] then Some (Values_stop n d)
      else
        (case buffer_get_field b of
           None \<Rightarrow> None
         | Some None \<Rightarrow> Some (Values_stop n d)
         | Some (Some (v, rest)) \<Rightarrow>
             (case d_item d f of
                None \<Rightarrow> None
              | Some ci \<Rightarrow>
                  (case strtol_10 v of (stamp, eo) \<Rightarrow>
                     if eo = v \<or> \<not> starts_with '':'' eo then
                       Some (Values_error (''Cannot find timestamp in '' @ [CHR 0x27] @ v @ [CHR 0x27] @ ''!'' @ [NL]) d)
                     else if stamp \<le> last_update_stamp ci then
                       Some (Values_error (''illegal attempt to update using time '' @ show_int stamp
                         @ '' when last update time is '' @ show_int (last_update_stamp ci)
                         @ '' (minimum one second step)'' @ [NL]) d)
                     else
                       (case on_cache (set_item f (add_value v stamp)) d of
                          None \<Rightarrow> None
                        | Some d1 \<Rightarrow> update_values f rest (Suc n) d1)))))"
  by pat_completeness auto
termination
  by (relation "measure (\<lambda>(f, b, n, d). length b)") (auto dest: buffer_get_field_shorter)

declare update_values.simps [simp del]

text \<open>The lookup of the item, which is made when it is missing; the first component is the text of
  the failure. A malloc beyond the address space fails.\<close>

definition update_item ::
  "daemon_config \<Rightarrow> daemon_env \<Rightarrow> int \<Rightarrow> string \<Rightarrow> daemon \<Rightarrow> (string + daemon) option" where
  "update_item cf e now f d =
     (if d_item d f \<noteq> None then Some (Inr d)
      else
        (case file_stat e f of
           No_file er \<Rightarrow>
             Some (Inl (if er = ENOENT then ''No such file: '' @ f @ [NL]
                        else ''stat failed with error '' @ show_int er @ ''.'' @ [NL]))
         | Not_regular \<Rightarrow> Some (Inl (''Not a regular file: '' @ f @ [NL]))
         | No_access er \<Rightarrow> Some (Inl (''Cannot read/write '' @ f @ '': '' @ de_strerror e er @ [NL]))
         | Regular_file \<Rightarrow>
             (if \<not> de_malloc e \<or> int (length (tree (dcache d))) \<ge> 2 ^ 56 then Some (Inl (''malloc failed.'' @ [NL]))
              else if run_state d = SHUTDOWN then None
              else
                (let ci = wipe_ci_values cf e now \<lparr>ci_values = [], last_flush_time = 0, last_update_stamp = 0,
                            in_queue = False, ci_prev = None, ci_next = None\<rparr>
                 in Some (Inr (d\<lparr>dcache := (dcache d)\<lparr>tree := g_tree_replace f ci (tree (dcache d))\<rparr>\<rparr>))))))"

text \<open>The item is queued when its last flush is too long ago.\<close>

definition queue_if_due :: "daemon_config \<Rightarrow> int \<Rightarrow> string \<Rightarrow> daemon \<Rightarrow> daemon option" where
  "queue_if_due cf now f d =
     (case d_item d f of
        None \<Rightarrow> None
      | Some ci \<Rightarrow>
          (if now - last_flush_time ci \<ge> write_interval cf \<and> \<not> in_queue ci \<and> ci_values ci \<noteq> []
           then on_cache (enqueue_cache_item f TAIL) d else Some d))"

definition handle_request_update ::
  "daemon_config \<Rightarrow> daemon_env \<Rightarrow> int \<Rightarrow> string \<Rightarrow> listen_socket_t option \<Rightarrow> string \<Rightarrow> daemon
     \<Rightarrow> (int \<times> listen_socket_t option \<times> daemon) option" where
  "handle_request_update cf e now usage so b d =
     (if so \<noteq> None \<and> length b > CMD_MAX then None
      else do {
        fld \<leftarrow> buffer_get_field b;
        case fld of
          None \<Rightarrow> map_option (\<lambda>(r, so1). (r, so1, d)) (send_response RESP_ERR usage so)
        | Some (f0, rest) \<Rightarrow>
            (let f = get_abs_path cf f0;
                 d1 = d\<lparr>stats_updates_received := stats_updates_received d + 1\<rparr> in
             if \<not> access_allowed cf (so = None) f then
               map_option (\<lambda>(r, so1). (0, so1, d1)) (send_response RESP_ERR (de_strerror e EACCES @ [NL]) so)
             else do {
               res \<leftarrow> update_item cf e now f d1;
               case res of
                 Inl m \<Rightarrow> map_option (\<lambda>(r, so1). (r, so1, d1)) (send_response RESP_ERR m so)
               | Inr d2 \<Rightarrow> do {
                   d3 \<leftarrow> (if so = None then Some d2 else journal_write cf e ''update'' (cstr b) d2);
                   vs \<leftarrow> update_values f rest 0 d3;
                   case vs of
                     Values_error m d4 \<Rightarrow> map_option (\<lambda>(r, so1). (r, so1, d4)) (send_response RESP_ERR m so)
                   | Values_stop n d4 \<Rightarrow> do {
                       d5 \<leftarrow> queue_if_due cf now f d4;
                       (r, so1) \<leftarrow> (if n < 1 then send_response RESP_ERR (''No values updated.'' @ [NL]) so
                                  else send_response RESP_OK (''errors, enqueued '' @ show_nat n @ '' value(s).'' @ [NL]) so);
                       Some (r, so1, d5)
                     }
                 }
             })
      })"

section \<open>The queue threads\<close>

text \<open>The first part takes the values of the first item out of the cache; then the file is updated
  without the lock; then the journal is told.\<close>

definition queue_take ::
  "daemon_config \<Rightarrow> daemon_env \<Rightarrow> daemon \<Rightarrow> ((string \<times> string list) option \<times> daemon) option" where
  "queue_take cf e d =
     (case queue_head (dcache d) of
        None \<Rightarrow> Some (None, d)
      | Some f \<Rightarrow> do {
          ci \<leftarrow> d_item d f;
          if ci_values ci = [] then None
          else do {
            d1 \<leftarrow> on_cache (set_item f (wipe_ci_values cf e (de_time e))) d;
            d2 \<leftarrow> on_cache (remove_from_queue f) d1;
            Some (Some (f, ci_values ci), d2)
          }
        })"

definition queue_wrote ::
  "daemon_config \<Rightarrow> daemon_env \<Rightarrow> string \<Rightarrow> nat \<Rightarrow> int \<Rightarrow> daemon \<Rightarrow> daemon option" where
  "queue_wrote cf e f values_num status d = do {
     d1 \<leftarrow> journal_write cf e ''wrote'' f d;
     Some (if status = 0
           then d1\<lparr>stats_updates_written := stats_updates_written d1 + 1,
                   stats_data_sets_written := stats_data_sets_written d1 + of_nat values_num\<rparr>
           else d1)
   }"

text \<open>What the flush thread does when the time has come, and when the daemon stops.\<close>

definition flush_tick :: "daemon_config \<Rightarrow> daemon_env \<Rightarrow> daemon \<Rightarrow> daemon option" where
  "flush_tick cf e d = do {
     d1 \<leftarrow> flush_old_values cf e (write_interval cf) d;
     journal_rotate cf e d1
   }"

definition flush_stop :: "daemon_config \<Rightarrow> daemon_env \<Rightarrow> daemon \<Rightarrow> daemon option" where
  "flush_stop cf e d = do {
     d1 \<leftarrow> (if flush_at_shutdown d then flush_old_values cf e (- 1) d else Some d);
     Some (d1\<lparr>run_state := SHUTDOWN\<rparr>)
   }"

text \<open>The signals.\<close>

datatype signal = SIGINT | SIGTERM | SIGUSR1 | SIGUSR2

definition handle_signal :: "signal \<Rightarrow> daemon \<Rightarrow> daemon" where
  "handle_signal sg d =
     (case sg of
        SIGUSR1 \<Rightarrow> d\<lparr>flush_at_shutdown := True, run_state := FLUSHING\<rparr>
      | SIGUSR2 \<Rightarrow> d\<lparr>flush_at_shutdown := False, run_state := FLUSHING\<rparr>
      | _ \<Rightarrow> d\<lparr>run_state := FLUSHING\<rparr>)"

end
