(* ===== verification/Daemon_Commands.thy ===== *)
theory Daemon_Commands
  imports Daemon
begin

text \<open>
  The commands of the caching daemon (\<open>rrd_daemon.c\<close>): their table, permissions and contexts, the
  handlers, a connection, and the replay of the journal. The handler of \<open>FLUSH\<close> may have to wait
  until its file has been written; the rest of its work is \<open>flush_done\<close>.
\<close>

unbundle bit_operations_syntax

section \<open>The table\<close>

definition CMD_CONTEXT_CLIENT :: "8 word" where "CMD_CONTEXT_CLIENT = 1"
definition CMD_CONTEXT_BATCH :: "8 word" where "CMD_CONTEXT_BATCH = 2"
definition CMD_CONTEXT_JOURNAL :: "8 word" where "CMD_CONTEXT_JOURNAL = 4"
definition CMD_CONTEXT_ANY :: "8 word" where "CMD_CONTEXT_ANY = 0x7F"

datatype handler = H_update | H_wrote | H_flush | H_flushall | H_pending | H_forget | H_queue
  | H_stats | H_help | H_batch | H_done | H_quit

record command_t =
  cmd_name :: string
  cmd_handler :: handler
  cmd_context :: "8 word"
  cmd_syntax :: "string option"
  cmd_help :: "string option"

definition text_lines :: "string list \<Rightarrow> string" where
  "text_lines ls = concat (map (\<lambda>l. l @ [NL]) ls)"

definition list_of_commands :: "command_t list" where
  "list_of_commands = [
  \<lparr>cmd_name = ''UPDATE'', cmd_handler = H_update,
     cmd_context = CMD_CONTEXT_ANY,
     cmd_syntax = Some (text_lines [
         ''UPDATE <filename> <values> [<values> ...]'']),
     cmd_help = Some (text_lines [
         ''Adds the given file to the internal cache if it is not yet known and'',
         ''appends the given value(s) to the entry. See the rrdcached(1) manpage'',
         ''for details.'',
         [],
         ''Each <values> has the following form:'',
         ''  <values> = <time>:<value>[:<value>[...]]'',
         ''See the rrdupdate(1) manpage for details.''])\<rparr>,
  \<lparr>cmd_name = ''WROTE'', cmd_handler = H_wrote,
     cmd_context = CMD_CONTEXT_JOURNAL,
     cmd_syntax = None,
     cmd_help = None\<rparr>,
  \<lparr>cmd_name = ''FLUSH'', cmd_handler = H_flush,
     cmd_context = CMD_CONTEXT_CLIENT OR CMD_CONTEXT_BATCH,
     cmd_syntax = Some (text_lines [
         ''FLUSH <filename>'']),
     cmd_help = Some (text_lines [
         ''Adds the given filename to the head of the update queue and returns'',
         ''after it has been dequeued.''])\<rparr>,
  \<lparr>cmd_name = ''FLUSHALL'', cmd_handler = H_flushall,
     cmd_context = CMD_CONTEXT_CLIENT,
     cmd_syntax = Some (text_lines [
         ''FLUSHALL'']),
     cmd_help = Some (text_lines [
         ''Triggers writing of all pending updates.  Returns immediately.''])\<rparr>,
  \<lparr>cmd_name = ''PENDING'', cmd_handler = H_pending,
     cmd_context = CMD_CONTEXT_CLIENT,
     cmd_syntax = Some (text_lines [
         ''PENDING <filename>'']),
     cmd_help = Some (text_lines [
         ''Shows any '' @ [CHR 0x27] @ ''pending'' @ [CHR 0x27] @ '' updates for a file, in order.'',
         ''The updates shown have not yet been written to the underlying RRD file.''])\<rparr>,
  \<lparr>cmd_name = ''FORGET'', cmd_handler = H_forget,
     cmd_context = CMD_CONTEXT_ANY,
     cmd_syntax = Some (text_lines [
         ''FORGET <filename>'']),
     cmd_help = Some (text_lines [
         ''Removes the file completely from the cache.'',
         ''Any pending updates for the file will be lost.''])\<rparr>,
  \<lparr>cmd_name = ''QUEUE'', cmd_handler = H_queue,
     cmd_context = CMD_CONTEXT_CLIENT,
     cmd_syntax = Some (text_lines [
         ''QUEUE'']),
     cmd_help = Some (text_lines [
         ''Shows all files in the output queue.'',
         ''The output is zero or more lines in the following format:'',
         ''(where <num_vals> is the number of values to be written)'',
         [],
         ''<num_vals> <filename>''])\<rparr>,
  \<lparr>cmd_name = ''STATS'', cmd_handler = H_stats,
     cmd_context = CMD_CONTEXT_CLIENT,
     cmd_syntax = Some (text_lines [
         ''STATS'']),
     cmd_help = Some (text_lines [
         ''Returns some performance counters, see the rrdcached(1) manpage for'',
         ''a description of the values.''])\<rparr>,
  \<lparr>cmd_name = ''HELP'', cmd_handler = H_help,
     cmd_context = CMD_CONTEXT_CLIENT,
     cmd_syntax = Some (text_lines [
         ''HELP [<command>]'']),
     cmd_help = None\<rparr>,
  \<lparr>cmd_name = ''BATCH'', cmd_handler = H_batch,
     cmd_context = CMD_CONTEXT_CLIENT,
     cmd_syntax = Some (text_lines [
         ''BATCH'']),
     cmd_help = Some (text_lines [
         ''The '' @ [CHR 0x27] @ ''BATCH'' @ [CHR 0x27] @ '' command permits the client to initiate a bulk load'',
         ''   of commands to rrdcached.'',
         [],
         ''Usage:'',
         [],
         ''    client: BATCH'',
         ''    server: 0 Go ahead.  End with dot '' @ [CHR 0x27] @ ''.'' @ [CHR 0x27] @ '' on its own line.'',
         ''    client: command #1'',
         ''    client: command #2'',
         ''    client: ... and so on'',
         ''    client: .'',
         ''    server: 2 errors'',
         ''    server: 7 message for command #7'',
         ''    server: 9 message for command #9'',
         [],
         ''For more information, consult the rrdcached(1) documentation.''])\<rparr>,
  \<lparr>cmd_name = ''.'', cmd_handler = H_done,
     cmd_context = CMD_CONTEXT_BATCH,
     cmd_syntax = None,
     cmd_help = None\<rparr>,
  \<lparr>cmd_name = ''QUIT'', cmd_handler = H_quit,
     cmd_context = CMD_CONTEXT_CLIENT OR CMD_CONTEXT_BATCH,
     cmd_syntax = Some (text_lines [
         ''QUIT'']),
     cmd_help = Some (text_lines [
         ''Disconnect from rrdcached.''])\<rparr>]"

definition strcasecmp_eq :: "string \<Rightarrow> string \<Rightarrow> bool" where
  "strcasecmp_eq s t \<longleftrightarrow> map tolower s = map tolower t"

fun find_index :: "string \<Rightarrow> nat \<Rightarrow> command_t list \<Rightarrow> (nat \<times> command_t) option" where
  "find_index nm i [] = None"
| "find_index nm i (c # cs) =
     (if strcasecmp_eq nm (cmd_name c) then Some (i, c) else find_index nm (Suc i) cs)"

definition find_command :: "string \<Rightarrow> command_t option" where
  "find_command nm = map_option snd (find_index nm 0 list_of_commands)"

definition find_command_index :: "string \<Rightarrow> int" where
  "find_command_index nm = (case find_index nm 0 list_of_commands of None \<Rightarrow> - 1 | Some (i, _) \<Rightarrow> int i)"

section \<open>Permissions\<close>

text \<open>The terminator of a batch needs the permission of \<open>BATCH\<close>; an unknown command gives -1.\<close>

definition socket_permission_check :: "listen_socket_t option \<Rightarrow> string \<Rightarrow> int" where
  "socket_permission_check so nm =
     (case so of
        None \<Rightarrow> 1
      | Some s \<Rightarrow>
          (if strcasecmp_eq ''QUIT'' nm \<or> strcasecmp_eq ''HELP'' nm then 1
           else
             (let i = find_command_index (if nm = ''.'' then ''BATCH'' else nm) in
              if i < 0 then - 1
              else if permissions s AND push_bit (nat i) 1 \<noteq> 0 then 1 else 0)))"

definition socket_permission_add :: "string \<Rightarrow> 32 word \<Rightarrow> int \<times> 32 word" where
  "socket_permission_add nm p =
     (let i = find_command_index nm in if i < 0 then (- 1, p) else (0, p OR push_bit (nat i) 1))"

definition socket_permission_set_all :: "32 word" where
  "socket_permission_set_all = foldl (\<lambda>p i. p OR push_bit i 1) 0 [0..<length list_of_commands]"

text \<open>The option \<open>-P\<close>: all names are tried, the status is that of the last one.\<close>

definition parse_permissions :: "string list \<Rightarrow> int \<times> 32 word" where
  "parse_permissions names =
     foldl (\<lambda>(st, p) nm. case socket_permission_add nm p of (r, p1) \<Rightarrow> (if r \<noteq> 0 then 4 else r, p1)) (0, 0) names"

definition command_check_context :: "listen_socket_t option \<Rightarrow> command_t \<Rightarrow> bool" where
  "command_check_context so c \<longleftrightarrow>
     (case so of
        None \<Rightarrow> cmd_context c AND CMD_CONTEXT_JOURNAL
      | Some s \<Rightarrow>
          (if batch_start s \<noteq> 0 then cmd_context c AND CMD_CONTEXT_BATCH
           else cmd_context c AND CMD_CONTEXT_CLIENT)) \<noteq> 0"

section \<open>Handlers\<close>

datatype outcome = Finished int | Waits string

type_synonym handled = "(outcome \<times> listen_socket_t option \<times> daemon) option"

definition respond :: "response_code \<Rightarrow> string \<Rightarrow> listen_socket_t option \<Rightarrow> daemon \<Rightarrow> handled" where
  "respond rc text so d = map_option (\<lambda>(r, so1). (Finished r, so1, d)) (send_response rc text so)"

definition syntax_error :: "command_t \<Rightarrow> listen_socket_t option \<Rightarrow> daemon \<Rightarrow> handled" where
  "syntax_error c so d =
     respond RESP_ERR (''Usage: '' @ (case cmd_syntax c of None \<Rightarrow> ''Syntax error.'' @ [NL] | Some s \<Rightarrow> s)) so d"

definition info_lines :: "string list \<Rightarrow> listen_socket_t option \<Rightarrow> listen_socket_t option" where
  "info_lines ls so = foldl (\<lambda>so l. add_response_info l so) so ls"

definition show_word :: "ulong \<Rightarrow> string" where
  "show_word w = show_nat (unat w)"

definition handle_request_stats :: "daemon_env \<Rightarrow> listen_socket_t option \<Rightarrow> daemon \<Rightarrow> handled" where
  "handle_request_stats e so d =
     respond RESP_OK (''Statistics follow'' @ [NL])
       (info_lines (map (\<lambda>(k, v). k @ '': '' @ v @ [NL])
          [(''QueueLength'', show_word (stats_queue_length (dcache d))),
           (''UpdatesReceived'', show_word (stats_updates_received d)),
           (''FlushesReceived'', show_word (stats_flush_received d)),
           (''UpdatesWritten'', show_word (stats_updates_written d)),
           (''DataSetsWritten'', show_word (stats_data_sets_written d)),
           (''TreeNodesNumber'', show_nat (length (tree (dcache d)))),
           (''TreeDepth'', show_nat (tree_height e (tree (dcache d)))),
           (''JournalBytes'', show_word (stats_journal_bytes d)),
           (''JournalRotate'', show_word (stats_journal_rotate d))]) so) d"

text \<open>Most handlers begin by reading a file name.\<close>

definition with_field ::
  "command_t \<Rightarrow> listen_socket_t option \<Rightarrow> string \<Rightarrow> daemon \<Rightarrow> (string \<Rightarrow> string \<Rightarrow> handled) \<Rightarrow> handled" where
  "with_field c so b d k =
     (case buffer_get_field b of
        None \<Rightarrow> None
      | Some None \<Rightarrow> syntax_error c so d
      | Some (Some (fld, rest)) \<Rightarrow> k fld rest)"

definition deny_access :: "daemon_env \<Rightarrow> listen_socket_t option \<Rightarrow> daemon \<Rightarrow> handled" where
  "deny_access e so d =
     map_option (\<lambda>(r, so1). (Finished 0, so1, d)) (send_response RESP_ERR (de_strerror e EACCES @ [NL]) so)"

definition flush_done :: "string \<Rightarrow> listen_socket_t option \<Rightarrow> daemon \<Rightarrow> handled" where
  "flush_done f so d = respond RESP_OK (''Successfully flushed '' @ f @ ''.'' @ [NL]) so d"

definition handle_request_flush ::
  "daemon_config \<Rightarrow> daemon_env \<Rightarrow> command_t \<Rightarrow> listen_socket_t option \<Rightarrow> string \<Rightarrow> daemon \<Rightarrow> handled" where
  "handle_request_flush cf e c so b d =
     with_field c so b d (\<lambda>f0 rest.
       let d1 = d\<lparr>stats_flush_received := stats_flush_received d + 1\<rparr>; f = get_abs_path cf f0 in
       if \<not> access_allowed cf (so = None) f then deny_access e so d1
       else
         (case flush_file f d1 of
            None \<Rightarrow> None
          | Some (st, waits, d2) \<Rightarrow>
              (if waits then Some (Waits f, so, d2)
               else if st = 0 then flush_done f so d2
               else
                 (case file_stat e f of
                    Regular_file \<Rightarrow> respond RESP_OK (''Nothing to flush: '' @ f @ ''.'' @ [NL]) so d2
                  | No_access _ \<Rightarrow> respond RESP_OK (''Nothing to flush: '' @ f @ ''.'' @ [NL]) so d2
                  | _ \<Rightarrow> respond RESP_ERR (''No such file: '' @ f @ ''.'' @ [NL]) so d2))))"

definition handle_request_flushall ::
  "daemon_config \<Rightarrow> daemon_env \<Rightarrow> listen_socket_t option \<Rightarrow> daemon \<Rightarrow> handled" where
  "handle_request_flushall cf e so d =
     Option.bind (flush_old_values cf e (- 1) d) (respond RESP_OK (''Started flush.'' @ [NL]) so)"

definition handle_request_pending ::
  "daemon_config \<Rightarrow> daemon_env \<Rightarrow> command_t \<Rightarrow> listen_socket_t option \<Rightarrow> string \<Rightarrow> daemon \<Rightarrow> handled" where
  "handle_request_pending cf e c so b d =
     with_field c so b d (\<lambda>f0 rest.
       case d_item d (get_abs_path cf f0) of
         None \<Rightarrow> respond RESP_ERR (de_strerror e ENOENT @ [NL]) so d
       | Some ci \<Rightarrow>
           respond RESP_OK (''updates pending'' @ [NL]) (info_lines (map (\<lambda>v. v @ [NL]) (ci_values ci)) so) d)"

definition handle_request_forget ::
  "daemon_config \<Rightarrow> daemon_env \<Rightarrow> command_t \<Rightarrow> listen_socket_t option \<Rightarrow> string \<Rightarrow> daemon \<Rightarrow> handled" where
  "handle_request_forget cf e c so b d =
     with_field c so b d (\<lambda>f0 rest.
       let f = get_abs_path cf f0 in
       if \<not> access_allowed cf (so = None) f then deny_access e so d
       else
         (case g_tree_remove f (dcache d) of
            None \<Rightarrow> None
          | Some (found, c1) \<Rightarrow>
              (let d1 = d\<lparr>dcache := c1\<rparr> in
               if found then
                 Option.bind (if so = None then Some d1 else journal_write cf e ''forget'' f d1)
                   (respond RESP_OK (''Gone!'' @ [NL]) so)
               else respond RESP_ERR (de_strerror e ENOENT @ [NL]) so d1)))"

definition handle_request_queue :: "listen_socket_t option \<Rightarrow> daemon \<Rightarrow> handled" where
  "handle_request_queue so d =
     (case queue_files (dcache d) of
        None \<Rightarrow> None
      | Some fs \<Rightarrow>
          respond RESP_OK (''in queue.'' @ [NL])
            (info_lines (map (\<lambda>f. show_nat (case d_item d f of None \<Rightarrow> 0 | Some ci \<Rightarrow> length (ci_values ci))
               @ '' '' @ f @ [NL]) fs) so) d)"

text \<open>Of a \<open>wrote\<close> entry the whole rest of the line is the file.\<close>

definition handle_request_wrote ::
  "daemon_config \<Rightarrow> daemon_env \<Rightarrow> int \<Rightarrow> listen_socket_t option \<Rightarrow> string \<Rightarrow> daemon \<Rightarrow> handled" where
  "handle_request_wrote cf e now so b d =
     (let f = cstr b in
      if d_item d f = None then Some (Finished 0, so, d)
      else
        Option.bind (on_cache (set_item f (wipe_ci_values cf e now)) d)
          (\<lambda>d1. map_option (\<lambda>d2. (Finished 0, so, d2)) (on_cache (remove_from_queue f) d1)))"

text \<open>A batch is never used without a socket: its context is that of clients.\<close>

definition handle_batch_start :: "daemon_env \<Rightarrow> listen_socket_t option \<Rightarrow> daemon \<Rightarrow> handled" where
  "handle_batch_start e so d =
     (case so of
        None \<Rightarrow> None
      | Some s \<Rightarrow>
          (if batch_start s \<noteq> 0 then respond RESP_ERR (''Already in BATCH'' @ [NL]) so d
           else
             map_option (\<lambda>(r, so1). (Finished r, map_option (\<lambda>s1. s1\<lparr>batch_start := de_time e, batch_cmd := 0\<rparr>) so1, d))
               (send_response RESP_OK (''Go ahead.  End with dot '' @ [CHR 0x27] @ ''.'' @ [CHR 0x27]
                  @ '' on its own line.'' @ [NL]) so)))"

definition handle_batch_done :: "listen_socket_t option \<Rightarrow> daemon \<Rightarrow> handled" where
  "handle_batch_done so d =
     (case so of
        None \<Rightarrow> None
      | Some s \<Rightarrow>
          (if batch_start s = 0 then None
           else respond RESP_OK (''errors'' @ [NL]) (Some (s\<lparr>batch_start := 0, batch_cmd := 0\<rparr>)) d))"

definition handle_request_help ::
  "listen_socket_t option \<Rightarrow> string \<Rightarrow> daemon \<Rightarrow> handled" where
  "handle_request_help so b d =
     (case buffer_get_field b of
        None \<Rightarrow> None
      | Some fld \<Rightarrow>
          (case (case fld of None \<Rightarrow> None | Some (nm, _) \<Rightarrow> find_command nm) of
             Some h \<Rightarrow>
               (if cmd_syntax h \<noteq> None \<or> cmd_help h \<noteq> None then
                  respond RESP_OK (''Help for '' @ cmd_name h @ [NL])
                    (info_lines ((case cmd_syntax h of None \<Rightarrow> [] | Some s \<Rightarrow> [''Usage: '' @ s @ [NL]])
                       @ (case cmd_help h of None \<Rightarrow> [] | Some t \<Rightarrow> [t @ [NL]])) so) d
                else
                  respond RESP_OK (''Command overview'' @ [NL])
                    (info_lines (List.map_filter cmd_syntax list_of_commands) so) d)
           | None \<Rightarrow>
               respond RESP_OK (''Command overview'' @ [NL])
                 (info_lines (List.map_filter cmd_syntax list_of_commands) so) d))"

section \<open>Requests\<close>

definition run_handler ::
  "daemon_config \<Rightarrow> daemon_env \<Rightarrow> int \<Rightarrow> command_t \<Rightarrow> listen_socket_t option \<Rightarrow> string \<Rightarrow> daemon \<Rightarrow> handled" where
  "run_handler cf e now c so b d =
     (case cmd_handler c of
        H_update \<Rightarrow>
          map_option (\<lambda>(r, so1, d1). (Finished r, so1, d1))
            (handle_request_update cf e now (''Usage: '' @ the (cmd_syntax c)) so b d)
      | H_wrote \<Rightarrow> handle_request_wrote cf e now so b d
      | H_flush \<Rightarrow> handle_request_flush cf e c so b d
      | H_flushall \<Rightarrow> handle_request_flushall cf e so d
      | H_pending \<Rightarrow> handle_request_pending cf e c so b d
      | H_forget \<Rightarrow> handle_request_forget cf e c so b d
      | H_queue \<Rightarrow> handle_request_queue so d
      | H_stats \<Rightarrow> handle_request_stats e so d
      | H_help \<Rightarrow> handle_request_help so b d
      | H_batch \<Rightarrow> handle_batch_start e so d
      | H_done \<Rightarrow> handle_batch_done so d
      | H_quit \<Rightarrow> Some (Finished (- 1), so, d))"

definition handle_request ::
  "daemon_config \<Rightarrow> daemon_env \<Rightarrow> int \<Rightarrow> listen_socket_t option \<Rightarrow> string \<Rightarrow> daemon \<Rightarrow> handled" where
  "handle_request cf e now so b d =
     (if b = [] \<or> hd (rev b) \<noteq> NUL then None
      else
        (case buffer_get_field b of
           None \<Rightarrow> None
         | Some None \<Rightarrow> Some (Finished (- 1), so, d)
         | Some (Some (cmd_str, rest)) \<Rightarrow>
             (let so1 = map_option (\<lambda>s. if batch_start s \<noteq> 0 then s\<lparr>batch_cmd := batch_cmd s + 1\<rparr> else s) so in
              case find_command cmd_str of
                None \<Rightarrow> respond RESP_ERR (''Unknown command: '' @ cmd_str @ [NL]) so1 d
              | Some c \<Rightarrow>
                  (if socket_permission_check so1 (cmd_name c) = 0 then
                     respond RESP_ERR (''Permission denied.'' @ [NL]) so1 d
                   else if \<not> command_check_context so1 c then
                     respond RESP_ERR (''Can'' @ [CHR 0x27] @ ''t use '' @ [CHR 0x27] @ cmd_str @ [CHR 0x27]
                       @ '' here.'' @ [NL]) so1 d
                   else run_handler cf e now c so1 rest d))))"

section \<open>The replay of the journal\<close>

text \<open>Entries are read by \<open>fgets\<close>; an entry without a line end is malformed. The result counts the
  entries that succeeded and that failed.\<close>

lemma take_line_shorter:
  "take_line (Suc n) (ch # s) = (l, r) \<Longrightarrow> length r < Suc (length s)"
proof -
  have "take_line k t = (l', r') \<Longrightarrow> length r' \<le> length t" for k t l' r'
    by (induction k t arbitrary: l' r' rule: take_line.induct) (auto split: if_splits prod.splits intro: le_SucI)
  then show "take_line (Suc n) (ch # s) = (l, r) \<Longrightarrow> length r < Suc (length s)"
    by (auto split: if_splits prod.splits simp: less_Suc_eq_le)
qed

function replay_entries ::
  "daemon_config \<Rightarrow> daemon_env \<Rightarrow> int \<Rightarrow> string \<Rightarrow> nat \<times> nat \<Rightarrow> daemon \<Rightarrow> ((nat \<times> nat) \<times> daemon) option" where
  "replay_entries cf e now content cnt d =
     (if content = [] then Some (cnt, d)
      else
        (case take_line 4095 content of
           (l, r) \<Rightarrow>
             (let entry = cstr l in
              if entry = [] then replay_entries cf e now r cnt d
              else if hd (rev entry) \<noteq> NL then replay_entries cf e now r (fst cnt, Suc (snd cnt)) d
              else
                (case handle_request cf e now None (butlast entry @ [NUL]) d of
                   None \<Rightarrow> None
                 | Some (st, _, d1) \<Rightarrow>
                     replay_entries cf e now r
                       (if st = Finished 0 then (Suc (fst cnt), snd cnt) else (fst cnt, Suc (snd cnt))) d1))))"
  by pat_completeness auto
termination
proof (relation "measure (\<lambda>(cf, e, now, content, cnt, d). length content)")
qed (auto simp: neq_Nil_conv eval_nat_numeral dest: take_line_shorter [OF sym])

declare replay_entries.simps [simp del]

end
