(* ===== verification/Daemon_Inv.thy ===== *)
theory Daemon_Inv
  imports Daemon_Commands
begin

text \<open>
  The invariants of the caching daemon: whatever the threads do and in whatever order, the queue is
  a list of different files with pending values, and no assertion about it fails.
\<close>

section \<open>The queue as an interface\<close>

text \<open>What the handlers and threads rely on: a store of items with a queue, in which a file is put
  at the end, or at the front, only if its item has something to write.\<close>

locale work_queue =
  fixes files :: "'c \<Rightarrow> 'f list \<Rightarrow> bool" and data :: "'c \<Rightarrow> 'f \<Rightarrow> 'd option" and full :: "'d \<Rightarrow> bool"
    and push_last :: "'f \<Rightarrow> 'c \<Rightarrow> 'c option" and push_first :: "'f \<Rightarrow> 'c \<Rightarrow> 'c option"
    and drop_file :: "'f \<Rightarrow> 'c \<Rightarrow> 'c option" and forget :: "'f \<Rightarrow> 'c \<Rightarrow> (bool \<times> 'c) option"
  assumes push_last: "files c qs \<Longrightarrow> data c f = Some x \<Longrightarrow>
      \<exists>c'. push_last f c = Some c' \<and> files c' (if full x \<and> f \<notin> set qs then qs @ [f] else qs) \<and> data c' = data c"
    and push_first: "files c qs \<Longrightarrow> data c f = Some x \<Longrightarrow>
      \<exists>c'. push_first f c = Some c' \<and> files c' (if full x then f # remove1 f qs else qs) \<and> data c' = data c"
    and drop_file: "files c qs \<Longrightarrow> data c f = Some x \<Longrightarrow>
      \<exists>c'. drop_file f c = Some c' \<and> files c' (remove1 f qs) \<and> data c' = data c"
    and forget: "files c qs \<Longrightarrow>
      \<exists>c'. forget f c = Some (data c f \<noteq> None, c') \<and> files c' (remove1 f qs) \<and> data c' = (data c)(f := None)"
    and queued: "files c qs \<Longrightarrow> f \<in> set qs \<Longrightarrow> \<exists>x. data c f = Some x \<and> full x"
begin

text \<open>A traversal that puts some of the files at the end.\<close>

lemma push_some:
  assumes "files c qs" "distinct fs" "\<forall>f \<in> set fs. data c f \<noteq> None"
    and "\<forall>f \<in> set fs. P f \<longrightarrow> f \<notin> set qs \<and> (\<forall>x. data c f = Some x \<longrightarrow> full x)"
  shows "\<exists>c'. loopO (\<lambda>f c. if P f then push_last f c else Some c) fs c = Some c' \<and>
           files c' (qs @ filter P fs) \<and> data c' = data c"
  using assms
proof (induction fs arbitrary: c qs)
  case (Cons f fs)
  obtain x where x: "data c f = Some x" using Cons.prems(3) by auto
  show ?case
  proof (cases "P f")
    case True
    then obtain c1 where c1: "push_last f c = Some c1" "files c1 (qs @ [f])" "data c1 = data c"
      using push_last [OF Cons.prems(1) x] Cons.prems(4) x by auto
    have "\<exists>c'. loopO (\<lambda>f c. if P f then push_last f c else Some c) fs c1 = Some c' \<and>
        files c' ((qs @ [f]) @ filter P fs) \<and> data c' = data c1"
      using Cons.prems c1 by (intro Cons.IH) auto
    then show ?thesis using True c1 by auto
  next
    case False
    then show ?thesis using Cons by auto
  qed
qed simp

text \<open>Forgetting files that are not queued.\<close>

lemma forget_some:
  assumes "files c qs" "distinct fs" "\<forall>f \<in> set fs. data c f \<noteq> None \<and> f \<notin> set qs"
  shows "\<exists>c'. loopO (\<lambda>f c. case forget f c of Some (True, c1) \<Rightarrow> Some c1 | _ \<Rightarrow> None) fs c = Some c' \<and>
           files c' qs \<and> (\<forall>g. data c' g = (if g \<in> set fs then None else data c g))"
  using assms
proof (induction fs arbitrary: c)
  case (Cons f fs)
  obtain c1 where c1: "forget f c = Some (True, c1)" "files c1 qs" "data c1 = (data c)(f := None)"
    using forget [OF Cons.prems(1), of f] Cons.prems(3) by (auto simp: remove1_idem)
  have "\<exists>c'. loopO (\<lambda>f c. case forget f c of Some (True, c1) \<Rightarrow> Some c1 | _ \<Rightarrow> None) fs c1 = Some c' \<and>
           files c' qs \<and> (\<forall>g. data c' g = (if g \<in> set fs then None else data c1 g))"
    using Cons.prems c1 by (intro Cons.IH) auto
  then show ?case using c1 by auto
qed simp

text \<open>The file at the front is the one that was put there, and it leaves the queue as it was.\<close>

lemma first_served:
  assumes "files c qs" "data c f = Some x" "full x"
  shows "\<exists>c1 c2. push_first f c = Some c1 \<and> files c1 (f # remove1 f qs) \<and>
           drop_file f c1 = Some c2 \<and> files c2 (remove1 f qs)"
proof -
  obtain c1 where c1: "push_first f c = Some c1" "files c1 (f # remove1 f qs)" "data c1 = data c"
    using push_first [OF assms(1,2)] assms(3) by auto
  with drop_file [OF c1(2), of f x] assms(2) show ?thesis by auto
qed

end

definition cache_data :: "cache \<Rightarrow> string \<Rightarrow> (string list \<times> int \<times> int) option" where
  "cache_data c f = map_option item_data (item c f)"

lemma cache_data_same: "same_data c c' \<Longrightarrow> cache_data c' = cache_data c"
  by (simp add: same_data_def cache_data_def fun_eq_iff)

lemma cache_data_item: "cache_data c f = Some x \<Longrightarrow> \<exists>ci. item c f = Some ci \<and> fst x = ci_values ci"
  by (auto simp: cache_data_def item_data_def)

interpretation cq: work_queue queue_is cache_data "\<lambda>x. fst x \<noteq> []"
  "\<lambda>f. enqueue_cache_item f TAIL" "\<lambda>f. enqueue_cache_item f HEAD" remove_from_queue g_tree_remove
proof
  fix c qs f x
  assume q: "queue_is c qs" and x: "cache_data c f = Some x"
  obtain ci where ci: "item c f = Some ci" "fst x = ci_values ci" using cache_data_item [OF x] by blast
  have empty: "f \<notin> set qs" if "ci_values ci = []" using q ci(1) that by (auto simp: queue_is_def dest: linked_in)
  show "\<exists>c'. enqueue_cache_item f TAIL c = Some c' \<and>
      queue_is c' (if fst x \<noteq> [] \<and> f \<notin> set qs then qs @ [f] else qs) \<and> cache_data c' = cache_data c"
    using enqueue_tail_ok [OF q ci(1)] q ci
    by (cases "ci_values ci = []") (auto simp: enqueue_cache_item_def cache_data_same)
  show "\<exists>c'. enqueue_cache_item f HEAD c = Some c' \<and>
      queue_is c' (if fst x \<noteq> [] then f # remove1 f qs else qs) \<and> cache_data c' = cache_data c"
    using enqueue_head_ok [OF q ci(1)] q ci
    by (cases "ci_values ci = []") (auto simp: enqueue_cache_item_def cache_data_same)
  show "\<exists>c'. remove_from_queue f c = Some c' \<and> queue_is c' (remove1 f qs) \<and> cache_data c' = cache_data c"
    using remove_from_queue_ok [OF q ci(1)] cache_data_same by blast
next
  fix c qs f
  assume q: "queue_is c qs"
  from g_tree_remove_ok [OF q, of f] obtain c' where
    "g_tree_remove f c = Some (item c f \<noteq> None, c')" "queue_is c' (remove1 f qs)" "item c' f = None"
    "\<forall>g. g \<noteq> f \<longrightarrow> map_option item_data (item c' g) = map_option item_data (item c g)" by blast
  then show "\<exists>c'. g_tree_remove f c = Some (cache_data c f \<noteq> None, c') \<and> queue_is c' (remove1 f qs) \<and>
      cache_data c' = (cache_data c)(f := None)"
    by (intro exI [of _ c']) (auto simp: cache_data_def fun_eq_iff)
next
  fix c qs f
  assume "queue_is c qs" "f \<in> set qs"
  then show "\<exists>x. cache_data c f = Some x \<and> fst x \<noteq> []"
    by (auto simp: queue_is_def cache_data_def item_data_def dest!: linked_in)
qed

section \<open>Flushing\<close>

definition due_file :: "run_state_t \<Rightarrow> int \<Rightarrow> cache \<Rightarrow> string \<Rightarrow> bool" where
  "due_file st abs_timeout c f \<longleftrightarrow>
     (case cache_data c f of None \<Rightarrow> False | Some (vs, t, _) \<Rightarrow> vs \<noteq> [] \<and> (t \<le> abs_timeout \<or> st \<noteq> RUNNING))"

definition dead_file :: "daemon_config \<Rightarrow> int \<Rightarrow> cache \<Rightarrow> string \<Rightarrow> bool" where
  "dead_file cf now c f \<longleftrightarrow>
     (case cache_data c f of None \<Rightarrow> False | Some (vs, t, _) \<Rightarrow> vs = [] \<and> now - t \<ge> flush_interval cf)"

lemma in_queue_known: "queue_is c qs \<Longrightarrow> item c f = Some ci \<Longrightarrow> in_queue ci = (f \<in> set qs)"
  by (rule queue_item)

lemma traversal_ok:
  assumes "queue_is c qs" "distinct fs" "\<forall>f \<in> set fs. item c f \<noteq> None"
  shows "\<exists>c'. loopO (tree_callback_flush cf st now tmo) fs (keys, c)
             = Some (keys @ filter (\<lambda>f. f \<notin> set qs \<and> dead_file cf now c f) fs, c') \<and>
           queue_is c' (qs @ filter (\<lambda>f. f \<notin> set qs \<and> due_file st tmo c f) fs) \<and> cache_data c' = cache_data c"
  using assms
proof (induction fs arbitrary: c qs keys)
  case (Cons f fs)
  obtain ci where ci: "item c f = Some ci" using Cons.prems(3) by auto
  then have x: "cache_data c f = Some (ci_values ci, last_flush_time ci, last_update_stamp ci)"
    by (simp add: cache_data_def item_data_def)
  have inq: "in_queue ci \<longleftrightarrow> f \<in> set qs" by (rule in_queue_known [OF Cons.prems(1) ci])
  show ?case
  proof (cases "f \<notin> set qs \<and> due_file st tmo c f")
    case True
    then obtain c1 where c1: "enqueue_cache_item f TAIL c = Some c1" "queue_is c1 (qs @ [f])" "cache_data c1 = cache_data c"
      using cq.push_last [OF Cons.prems(1) x] by (auto simp: due_file_def x)
    have "item c1 g \<noteq> None" if "g \<in> set fs" for g
    proof -
      have "cache_data c1 g \<noteq> None" using c1(3) Cons.prems(3) that by (simp add: cache_data_def)
      then show ?thesis by (simp add: cache_data_def)
    qed
    then obtain c' where c': "loopO (tree_callback_flush cf st now tmo) fs (keys, c1)
        = Some (keys @ filter (\<lambda>g. g \<notin> set (qs @ [f]) \<and> dead_file cf now c1 g) fs, c')"
      "queue_is c' ((qs @ [f]) @ filter (\<lambda>g. g \<notin> set (qs @ [f]) \<and> due_file st tmo c1 g) fs)"
      "cache_data c' = cache_data c1"
      using Cons.IH [OF c1(2), of keys] Cons.prems(2) by auto
    have dd: "dead_file cf now c1 = dead_file cf now c" "due_file st tmo c1 = due_file st tmo c"
      using c1(3) by (simp_all add: dead_file_def due_file_def fun_eq_iff)
    have flt: "filter (\<lambda>g. g \<notin> set (qs @ [f]) \<and> P g) fs = filter (\<lambda>g. g \<notin> set qs \<and> P g) fs" for P
      using Cons.prems(2) by (intro filter_cong) auto
    have "\<not> dead_file cf now c f" using True by (auto simp: due_file_def dead_file_def split: option.splits)
    moreover have "tree_callback_flush cf st now tmo f (keys, c) = Some (keys, c1)"
      using True ci inq c1(1) x by (simp add: tree_callback_flush_def due_file_def)
    ultimately show ?thesis
      using True c' c1(3) unfolding dd flt by simp
  next
    case False
    have "tree_callback_flush cf st now tmo f (keys, c) =
        Some (if f \<notin> set qs \<and> dead_file cf now c f then keys @ [f] else keys, c)"
      using False ci inq x by (auto simp: tree_callback_flush_def due_file_def dead_file_def)
    then show ?thesis
      using False Cons.IH [OF Cons.prems(1), of "if f \<notin> set qs \<and> dead_file cf now c f then keys @ [f] else keys"]
        Cons.prems(2,3) by auto
  qed
qed simp

lemma keys_item: "f \<in> set (map fst (tree c)) \<longleftrightarrow> item c f \<noteq> None"
  by (simp add: item_def g_tree_lookup_def map_of_eq_None_iff)

lemma sorted_names_distinct: "sorted_wrt str_less xs \<Longrightarrow> distinct xs"
  by (induction xs) (auto simp: str_less_irrefl)

lemma keys_distinct: "queue_is c qs \<Longrightarrow> distinct (map fst (tree c))"
  unfolding queue_is_def by (rule sorted_names_distinct) auto

text \<open>A pass over the cache queues exactly the files that are due, in the order of their names, and
  forgets exactly the idle ones.\<close>

definition flush_limit :: "daemon_config \<Rightarrow> daemon_env \<Rightarrow> int \<Rightarrow> int" where
  "flush_limit cf e max_age =
     (if max_age > 0 then de_time e - max_age else de_time e + 2 * write_jitter cf + 1)"

lemma flush_pass:
  assumes q: "queue_is (dcache d) qs"
  shows "\<exists>c. flush_old_values cf e max_age d = Some (d\<lparr>dcache := c\<rparr>) \<and>
    queue_is c (qs @ filter (\<lambda>f. f \<notin> set qs \<and> due_file (run_state d) (flush_limit cf e max_age) (dcache d) f)
                       (map fst (tree (dcache d)))) \<and>
    (\<forall>f. cache_data c f = (if dead_file cf (de_time e) (dcache d) f then None else cache_data (dcache d) f))"
proof -
  let ?fs = "map fst (tree (dcache d))" and ?st = "run_state d" and ?now = "de_time e" and ?l = "flush_limit cf e max_age"
  let ?dead = "dead_file cf ?now (dcache d)"
  have pre: "\<forall>f \<in> set ?fs. d_item d f \<noteq> None" using keys_item [of _ "dcache d"] by blast
  obtain c1 where c1: "loopO (tree_callback_flush cf ?st ?now ?l) ?fs ([], dcache d)
      = Some (filter (\<lambda>f. f \<notin> set qs \<and> ?dead f) ?fs, c1)"
    "queue_is c1 (qs @ filter (\<lambda>f. f \<notin> set qs \<and> due_file ?st ?l (dcache d) f) ?fs)"
    "cache_data c1 = cache_data (dcache d)"
    using traversal_ok [OF q keys_distinct [OF q] pre, of cf ?st ?now ?l "[]"] by auto
  have dead: "?dead f \<Longrightarrow> cache_data (dcache d) f \<noteq> None \<and> f \<notin> set qs \<and> f \<in> set ?fs \<and> \<not> due_file ?st ?l (dcache d) f" for f
    using cq.queued [OF q, of f] keys_item [of f "dcache d"]
    by (auto simp: dead_file_def due_file_def cache_data_def split: option.splits)
  obtain c2 where c2: "loopO remove_key (filter (\<lambda>f. f \<notin> set qs \<and> ?dead f) ?fs) c1 = Some c2"
    "queue_is c2 (qs @ filter (\<lambda>f. f \<notin> set qs \<and> due_file ?st ?l (dcache d) f) ?fs)"
    "\<forall>g. cache_data c2 g = (if g \<in> set (filter (\<lambda>f. f \<notin> set qs \<and> ?dead f) ?fs) then None else cache_data c1 g)"
    using cq.forget_some [OF c1(2), of "filter (\<lambda>f. f \<notin> set qs \<and> ?dead f) ?fs"] keys_distinct [OF q] dead c1(3)
    unfolding remove_key_def [abs_def] by auto
  have "cache_data c2 f = (if ?dead f then None else cache_data (dcache d) f)" for f
    using c2(3) dead [of f] c1(3) by auto
  moreover have "flush_old_values cf e max_age d = Some (d\<lparr>dcache := c2\<rparr>)"
    using c1(1) c2(1) by (simp add: flush_old_values_def on_cache_def Let_def flush_limit_def)
  ultimately show ?thesis using c2(2) by blast
qed

section \<open>The invariant of the cache\<close>

text \<open>The values of an item are in the order of their times, and none is later than the time of
  the last update.\<close>

definition stamp_of :: "string \<Rightarrow> int" where
  "stamp_of v = fst (strtol_10 v)"

definition stamped :: "string list \<Rightarrow> int \<Rightarrow> bool" where
  "stamped vs s \<longleftrightarrow> sorted_wrt (<) (map stamp_of vs) \<and>
     (\<forall>v \<in> set vs. stamp_of v \<le> s \<and> starts_with '':'' (snd (strtol_10 v)))"

lemma stamped_simps [simp]: "stamped [] s"
  by (simp add: stamped_def)

lemma stamped_add:
  "stamped vs s \<Longrightarrow> s < stamp_of v \<Longrightarrow> starts_with '':'' (snd (strtol_10 v)) \<Longrightarrow> stamped (vs @ [v]) (stamp_of v)"
  by (fastforce simp: stamped_def sorted_wrt_append)

definition cache_ok :: "cache \<Rightarrow> bool" where
  "cache_ok c \<longleftrightarrow> (\<exists>qs. queue_is c qs) \<and>
     (\<forall>f vs t s. cache_data c f = Some (vs, t, s) \<longrightarrow> stamped vs s)"

lemma cache_okI:
  assumes "cache_ok c" "queue_is c' qs"
    "\<And>f vs t s. cache_data c' f = Some (vs, t, s) \<Longrightarrow> cache_data c f = Some (vs, t, s) \<or> stamped vs s"
  shows "cache_ok c'"
  using assms unfolding cache_ok_def by blast

lemma cache_ok_queue: "cache_ok c \<Longrightarrow> \<exists>qs. queue_is c qs"
  by (simp add: cache_ok_def)

named_theorems dcache_keep \<open>operations that leave the cache and the state of the daemon as they are\<close>

lemma journal_new_file_keeps [dcache_keep]:
  "journal_new_file cf e d = Some d' \<Longrightarrow> dcache d' = dcache d \<and> run_state d' = run_state d"
  by (auto simp: journal_new_file_def journal_close_def Let_def split: option.splits if_splits)

lemma journal_write_keeps [dcache_keep]:
  "journal_write cf e a b d = Some d' \<Longrightarrow> dcache d' = dcache d \<and> run_state d' = run_state d"
  by (auto simp: journal_write_def Let_def bind_eq_Some_conv dest!: journal_new_file_keeps
      split: option.splits if_splits)

lemma journal_rotate_keeps [dcache_keep]:
  "journal_rotate cf e d = Some d' \<Longrightarrow> dcache d' = dcache d \<and> run_state d' = run_state d"
  by (auto simp: journal_rotate_def journal_set_remove_def journal_close_def bind_eq_Some_conv
      dest!: journal_new_file_keeps split: option.splits if_splits)

lemma journal_done_keeps [dcache_keep]: "dcache (journal_done d) = dcache d"
  by (simp add: journal_done_def journal_set_remove_def journal_close_def Let_def split: option.split)

lemma handle_signal_keeps [dcache_keep]: "dcache (handle_signal sg d) = dcache d"
  by (simp add: handle_signal_def split: signal.split)

lemma respond_keeps [dcache_keep]: "respond rc t so d = Some (r, so', d') \<Longrightarrow> d' = d"
  by (auto simp: respond_def)

lemma flush_old_values_keeps:
  assumes "cache_ok (dcache d)"
  shows "\<exists>d'. flush_old_values cf e m d = Some d' \<and> cache_ok (dcache d') \<and> run_state d' = run_state d"
proof -
  obtain qs where q: "queue_is (dcache d) qs" using assms by (auto dest: cache_ok_queue)
  obtain c where c: "flush_old_values cf e m d = Some (d\<lparr>dcache := c\<rparr>)"
    "queue_is c (qs @ filter (\<lambda>f. f \<notin> set qs \<and> due_file (run_state d) (flush_limit cf e m) (dcache d) f)
       (map fst (tree (dcache d))))"
    "\<forall>f. cache_data c f = (if dead_file cf (de_time e) (dcache d) f then None else cache_data (dcache d) f)"
    using flush_pass [OF q] by blast
  have "cache_ok c" by (rule cache_okI [OF assms c(2)]) (simp add: c(3) split: if_splits)
  with c(1) show ?thesis by simp
qed

section \<open>The handlers keep the invariant\<close>

lemma cache_data_set_item:
  "set_item f u c = Some c' \<Longrightarrow> cache_data c' = (cache_data c)(f := map_option (item_data \<circ> u) (item c f))"
  by (auto simp: cache_data_def item_set_item fun_eq_iff option.map_comp)

lemma cache_ok_item: "cache_ok c \<Longrightarrow> item c f = Some ci \<Longrightarrow> stamped (ci_values ci) (last_update_stamp ci)"
  unfolding cache_ok_def cache_data_def item_data_def by fastforce

lemma add_value_ok:
  assumes ok: "cache_ok c" and ci: "item c f = Some ci"
    and v: "last_update_stamp ci < stamp_of v" "starts_with '':'' (snd (strtol_10 v))"
  shows "\<exists>c'. set_item f (add_value v (stamp_of v)) c = Some c' \<and> cache_ok c'"
proof -
  obtain qs where q: "queue_is c qs" using ok by (auto dest: cache_ok_queue)
  obtain c' where c': "set_item f (add_value v (stamp_of v)) c = Some c'" using set_item_exists [OF ci] by blast
  have q': "queue_is c' qs" by (rule queue_is_set_data [OF q _ ci _ c']) (simp_all add: add_value_def)
  have "stamped (ci_values ci @ [v]) (stamp_of v)" by (rule stamped_add [OF cache_ok_item [OF ok ci] v])
  then have "cache_ok c'"
    by (intro cache_okI [OF ok q'])
      (auto simp: cache_data_set_item [OF c'] ci add_value_def item_data_def split: if_splits)
  with c' show ?thesis by blast
qed

fun read_daemon :: "daemon values_read \<Rightarrow> daemon" where
  "read_daemon (Values_stop n d) = d"
| "read_daemon (Values_error m d) = d"

lemma update_values_keeps:
  "update_values f b n d = Some r \<Longrightarrow> cache_ok (dcache d) \<Longrightarrow>
     cache_ok (dcache (read_daemon r)) \<and> run_state (read_daemon r) = run_state d"
proof (induction f b n d arbitrary: r rule: update_values.induct)
  case (1 f b n d)
  show ?case
  proof (cases "b = [] \<or> (\<forall>v rest. buffer_get_field b \<noteq> Some (Some (v, rest)))")
    case True
    then show ?thesis using 1(2,3) by (subst (asm) update_values.simps) (auto split: if_splits option.splits)
  next
    case False
    then obtain v rest where b: "b \<noteq> []" "buffer_get_field b = Some (Some (v, rest))" by auto
    obtain stamp eo where s: "strtol_10 v = (stamp, eo)" by force
    show ?thesis
    proof (cases "d_item d f")
      case None
      then show ?thesis using 1(2) b by (subst (asm) update_values.simps) simp
    next
      case (Some ci)
      show ?thesis
      proof (cases "eo = v \<or> \<not> starts_with '':'' eo \<or> stamp \<le> last_update_stamp ci")
        case True
        then show ?thesis using 1(2,3) b Some s by (subst (asm) update_values.simps) (auto split: if_splits)
      next
        case False
        then obtain c where c: "set_item f (add_value v stamp) (dcache d) = Some c" "cache_ok c"
          using add_value_ok [OF 1(3) Some, of v] s by (auto simp: stamp_of_def)
        then have d1: "on_cache (set_item f (add_value v stamp)) d = Some (d\<lparr>dcache := c\<rparr>)"
          by (simp add: on_cache_def)
        then have "update_values f rest (Suc n) (d\<lparr>dcache := c\<rparr>) = Some r"
          using 1(2) b Some s False by (subst (asm) update_values.simps) simp
        with 1(1) [OF b(1,2) refl refl Some s [symmetric] _ _ d1] c(2) False show ?thesis by simp
      qed
    qed
  qed
qed

lemma update_item_room:
  "update_item cf e now f d = Some (Inr d') \<Longrightarrow> d_item d f \<noteq> None \<or> length (tree (dcache d)) < 2 ^ 56"
  by (cases "d_item d f") (auto simp: update_item_def Let_def not_le zless_iff_Suc_zadd
      split: file_kind.splits if_splits)

lemma update_item_keeps:
  "update_item cf e now f d = Some (Inr d') \<Longrightarrow> cache_ok (dcache d) \<Longrightarrow>
     cache_ok (dcache d') \<and> run_state d' = run_state d"
proof (cases "d_item d f")
  case None
  let ?ci = "wipe_ci_values cf e now \<lparr>ci_values = [], last_flush_time = 0, last_update_stamp = 0,
     in_queue = False, ci_prev = None, ci_next = None\<rparr>"
  assume a: "update_item cf e now f d = Some (Inr d')" "cache_ok (dcache d)"
  then obtain qs where q: "queue_is (dcache d) qs" by (auto dest: cache_ok_queue)
  have d': "d' = d\<lparr>dcache := (dcache d)\<lparr>tree := g_tree_replace f ?ci (tree (dcache d))\<rparr>\<rparr>"
    using a(1) None by (auto simp: update_item_def Let_def not_le zless_iff_Suc_zadd split: file_kind.splits if_splits)
  have len: "length (tree (dcache d)) < 2 ^ 56" using update_item_room [OF a(1)] None by simp
  have ci: "\<not> in_queue ?ci" "ci_prev ?ci = None" "ci_next ?ci = None" by (simp_all add: wipe_ci_values_def)
  have dc: "dcache d' = (dcache d)\<lparr>tree := g_tree_replace f ?ci (tree (dcache d))\<rparr>" by (simp add: d')
  have q': "queue_is (dcache d') qs" and it: "d_item d' = (d_item d)(f := Some ?ci)"
    using queue_is_replace [OF q None len ci] by (simp_all only: dc)
  have "cache_ok (dcache d')"
    by (rule cache_okI [OF a(2) q'])
      (auto simp: cache_data_def it item_data_def wipe_ci_values_def split: if_splits)
  then show ?thesis by (simp add: d')
qed (simp add: update_item_def)

lemma enqueue_keeps:
  assumes "cache_ok c" "item c f = Some ci"
  shows "\<exists>c'. enqueue_cache_item f side c = Some c' \<and> cache_ok c'"
proof -
  obtain qs where q: "queue_is c qs" using assms by (auto dest: cache_ok_queue)
  have x: "cache_data c f = Some (item_data ci)" using assms(2) by (simp add: cache_data_def)
  have "\<exists>c' qs'. enqueue_cache_item f side c = Some c' \<and> queue_is c' qs' \<and> cache_data c' = cache_data c"
    using cq.push_last [OF q x] cq.push_first [OF q x] by (cases side) blast+
  then show ?thesis using cache_okI [OF assms(1)] by metis
qed

lemma queue_if_due_keeps:
  "queue_if_due cf now f d = Some d' \<Longrightarrow> cache_ok (dcache d) \<Longrightarrow>
     cache_ok (dcache d') \<and> run_state d' = run_state d"
  using enqueue_keeps [of "dcache d" f _ TAIL]
  by (auto simp: queue_if_due_def on_cache_def split: option.splits if_splits)

lemma handle_request_update_keeps:
  assumes h: "handle_request_update cf e now usage so b d = Some (r, so', d')" and ok: "cache_ok (dcache d)"
  shows "cache_ok (dcache d') \<and> run_state d' = run_state d"
proof (cases "\<exists>f0 rest. buffer_get_field b = Some (Some (f0, rest))")
  case False
  then show ?thesis using h ok
    by (auto simp: handle_request_update_def bind_eq_Some_conv split: option.splits if_splits)
next
  case True
  then obtain f0 rest where b: "buffer_get_field b = Some (Some (f0, rest))" by blast
  let ?f = "get_abs_path cf f0" and ?d1 = "d\<lparr>stats_updates_received := stats_updates_received d + 1\<rparr>"
  show ?thesis
  proof (cases "access_allowed cf (so = None) ?f \<and> (\<exists>d2. update_item cf e now ?f ?d1 = Some (Inr d2))")
    case False
    then consider "\<not> access_allowed cf (so = None) ?f" | "update_item cf e now ?f ?d1 = None"
      | m where "update_item cf e now ?f ?d1 = Some (Inl m)"
      by (metis not_None_eq obj_sumE)
    then show ?thesis using h ok b
      by cases (auto simp: handle_request_update_def Let_def split: if_splits)
  next
    case True
    then obtain d2 where a: "access_allowed cf (so = None) ?f" and d2: "update_item cf e now ?f ?d1 = Some (Inr d2)" by blast
    obtain d3 vs where d3: "(if so = None then Some d2 else journal_write cf e ''update'' (cstr b) d2) = Some d3"
      and vs: "update_values ?f rest 0 d3 = Some vs"
      and fin: "d' = read_daemon vs \<or> queue_if_due cf now ?f (read_daemon vs) = Some d'"
      using h b a d2
      by (auto simp: handle_request_update_def Let_def split: if_splits values_read.splits bind_splits)
    have "cache_ok (dcache d3) \<and> run_state d3 = run_state d"
      using update_item_keeps [OF d2] ok d3 by (auto dest!: journal_write_keeps split: if_splits)
    then have "cache_ok (dcache (read_daemon vs)) \<and> run_state (read_daemon vs) = run_state d"
      using update_values_keeps [OF vs] by simp
    then show ?thesis using fin queue_if_due_keeps by fastforce
  qed
qed

lemma wipe_links [simp]:
  "in_queue (wipe_ci_values cf e now ci) = in_queue ci" "ci_prev (wipe_ci_values cf e now ci) = ci_prev ci"
  "ci_next (wipe_ci_values cf e now ci) = ci_next ci"
  "wipe_ci_values cf e now (ci\<lparr>ci_next := x\<rparr>) = (wipe_ci_values cf e now ci)\<lparr>ci_next := x\<rparr>"
  "wipe_ci_values cf e now (ci\<lparr>ci_prev := x\<rparr>) = (wipe_ci_values cf e now ci)\<lparr>ci_prev := x\<rparr>"
  "wipe_ci_values cf e now (ci\<lparr>in_queue := b\<rparr>) = (wipe_ci_values cf e now ci)\<lparr>in_queue := b\<rparr>"
  by (simp_all add: wipe_ci_values_def)

lemma wipe_and_remove:
  assumes q: "queue_is (dcache d) qs" and ci: "d_item d f = Some ci"
  shows "\<exists>d1 c. on_cache (set_item f (wipe_ci_values cf e now)) d = Some d1 \<and>
    on_cache (remove_from_queue f) d1 = Some (d\<lparr>dcache := c\<rparr>) \<and> queue_is c (remove1 f qs) \<and>
    cache_data c = (cache_data (dcache d))(f := Some (item_data (wipe_ci_values cf e now ci)))"
proof -
  obtain c1 c where c: "set_item f (wipe_ci_values cf e now) (dcache d) = Some c1" "remove_from_queue f c1 = Some c"
    "queue_is c (remove1 f qs)" "\<And>g. map_option item_data (item c g) =
       (if g = f then Some (item_data (wipe_ci_values cf e now ci)) else map_option item_data (d_item d g))"
    using remove_wiped_ok [OF q ci, of "wipe_ci_values cf e now"] by auto
  then show ?thesis by (intro exI [of _ "d\<lparr>dcache := c1\<rparr>"] exI [of _ c]) (auto simp: on_cache_def cache_data_def)
qed

lemma wipe_and_remove_keeps:
  assumes ok: "cache_ok (dcache d)" and ci: "d_item d f = Some ci"
  shows "\<exists>d1 c. on_cache (set_item f (wipe_ci_values cf e now)) d = Some d1 \<and>
    on_cache (remove_from_queue f) d1 = Some (d\<lparr>dcache := c\<rparr>) \<and> cache_ok c"
proof -
  obtain qs where q: "queue_is (dcache d) qs" using ok by (auto dest: cache_ok_queue)
  obtain d1 c where c: "on_cache (set_item f (wipe_ci_values cf e now)) d = Some d1"
    "on_cache (remove_from_queue f) d1 = Some (d\<lparr>dcache := c\<rparr>)" "queue_is c (remove1 f qs)"
    "cache_data c = (cache_data (dcache d))(f := Some (item_data (wipe_ci_values cf e now ci)))"
    using wipe_and_remove [OF q ci] by blast
  have "cache_ok c"
    by (rule cache_okI [OF ok c(3)]) (auto simp: c(4) item_data_def wipe_ci_values_def split: if_splits)
  with c show ?thesis by blast
qed

text \<open>A queue thread takes the first file with all its pending values; on the invariant none of its
  assertions fails.\<close>

lemma queue_take_empty: "queue_is (dcache d) [] \<Longrightarrow> queue_take cf e d = Some (None, d)"
  by (simp add: queue_take_def queue_is_def)

lemma queue_take_first:
  assumes q: "queue_is (dcache d) (f # qs)"
  shows "\<exists>vs t s c. cache_data (dcache d) f = Some (vs, t, s) \<and> vs \<noteq> [] \<and>
    queue_take cf e d = Some (Some (f, vs), d\<lparr>dcache := c\<rparr>) \<and> queue_is c qs \<and>
    (\<exists>t'. cache_data c = (cache_data (dcache d))(f := Some ([], t', s)))"
proof -
  obtain ci where ci: "d_item d f = Some ci" "ci_values ci \<noteq> []" using q by (auto simp: queue_is_def)
  obtain d1 c where c: "on_cache (set_item f (wipe_ci_values cf e (de_time e))) d = Some d1"
    "on_cache (remove_from_queue f) d1 = Some (d\<lparr>dcache := c\<rparr>)" "queue_is c qs"
    "cache_data c = (cache_data (dcache d))(f := Some (item_data (wipe_ci_values cf e (de_time e) ci)))"
    using wipe_and_remove [OF q ci(1), of cf e "de_time e"] by auto
  have "queue_take cf e d = Some (Some (f, ci_values ci), d\<lparr>dcache := c\<rparr>)"
    using q ci c(1,2) by (simp add: queue_take_def queue_is_def)
  then show ?thesis using c(3,4) ci by (auto simp: cache_data_def item_data_def wipe_ci_values_def)
qed

lemma queue_take_keeps:
  assumes ok: "cache_ok (dcache d)"
  shows "\<exists>w d'. queue_take cf e d = Some (w, d') \<and> cache_ok (dcache d') \<and> run_state d' = run_state d \<and>
    (\<forall>f vs. w = Some (f, vs) \<longrightarrow> vs \<noteq> [] \<and> (\<exists>s. stamped vs s))"
proof -
  obtain qs where q: "queue_is (dcache d) qs" using ok by (auto dest: cache_ok_queue)
  show ?thesis
  proof (cases qs)
    case Nil
    then show ?thesis using queue_take_empty q ok by auto
  next
    case (Cons f fs)
    then obtain vs t s c t' where c: "cache_data (dcache d) f = Some (vs, t, s)" "vs \<noteq> []"
      "queue_take cf e d = Some (Some (f, vs), d\<lparr>dcache := c\<rparr>)" "queue_is c fs"
      "cache_data c = (cache_data (dcache d))(f := Some ([], t', s))"
      using queue_take_first q by blast
    have "cache_ok c" by (rule cache_okI [OF ok c(4)]) (auto simp: c(5) split: if_splits)
    moreover have "stamped vs s" using ok c(1) by (auto simp: cache_ok_def)
    ultimately show ?thesis using c(2,3) by auto
  qed
qed

lemma flush_file_keeps:
  "flush_file f d = Some (st, w, d') \<Longrightarrow> cache_ok (dcache d) \<Longrightarrow> cache_ok (dcache d') \<and> run_state d' = run_state d"
  using enqueue_keeps [of "dcache d" f _ HEAD]
  by (auto simp: flush_file_def on_cache_def split: option.splits if_splits)

lemma g_tree_remove_keeps:
  assumes ok: "cache_ok c" and r: "g_tree_remove f c = Some (b, c')"
  shows "cache_ok c'"
proof -
  obtain qs where q: "queue_is c qs" using ok by (auto dest: cache_ok_queue)
  show ?thesis using cq.forget [OF q, of f] r by (auto intro!: cache_okI [OF ok] split: if_splits)
qed

lemma with_field_cases:
  assumes "with_field c so b d k = Some (r, so', d')"
  obtains "d' = d" | f0 rest where "k f0 rest = Some (r, so', d')"
  using assms by (auto simp: with_field_def syntax_error_def split: option.splits dest!: respond_keeps)

lemma handle_request_wrote_keeps:
  "handle_request_wrote cf e now so b d = Some (r, so', d') \<Longrightarrow> cache_ok (dcache d) \<Longrightarrow>
     cache_ok (dcache d') \<and> run_state d' = run_state d"
  using wipe_and_remove_keeps [of d "cstr b" _ cf e now]
  by (auto simp: handle_request_wrote_def Let_def split: if_splits bind_splits)

lemma handle_request_flush_keeps:
  assumes h: "handle_request_flush cf e c so b d = Some (r, so', d')" and ok: "cache_ok (dcache d)"
  shows "cache_ok (dcache d') \<and> run_state d' = run_state d"
  using h unfolding handle_request_flush_def
proof (cases rule: with_field_cases)
  case (2 f0 rest)
  then show ?thesis using ok
    by (auto simp: deny_access_def flush_done_def Let_def dest!: flush_file_keeps respond_keeps
        split: if_splits option.splits file_kind.splits)
qed (use ok in simp)

lemma handle_request_forget_keeps:
  assumes h: "handle_request_forget cf e c so b d = Some (r, so', d')" and ok: "cache_ok (dcache d)"
  shows "cache_ok (dcache d') \<and> run_state d' = run_state d"
  using h unfolding handle_request_forget_def
proof (cases rule: with_field_cases)
  case (2 f0 rest)
  then show ?thesis using ok
    by (auto simp: deny_access_def Let_def dest!: g_tree_remove_keeps [OF ok] respond_keeps journal_write_keeps
        split: if_splits option.splits bind_splits)
qed (use ok in simp)

lemma handle_request_pending_keeps:
  "handle_request_pending cf e c so b d = Some (r, so', d') \<Longrightarrow> d' = d"
  unfolding handle_request_pending_def
  by (erule with_field_cases) (auto dest!: respond_keeps split: option.splits)

end
