(* ===== verification/Daemon_System.thy ===== *)
theory Daemon_System
  imports Daemon_Inv
begin

text \<open>
  The caching daemon as a system (\<open>rrd_daemon.c\<close>): the cache, and the batches of values that queue
  threads have taken and not yet reported. A step is what one thread does while it holds the lock.
  The invariant of the reachable states, the order in which files are served, and the shutdown.
\<close>

lemma handle_request_keeps:
  assumes h: "handle_request cf e now so b d = Some (r, so', d')" and ok: "cache_ok (dcache d)"
  shows "cache_ok (dcache d') \<and> run_state d' = run_state d"
proof -
  have run: "cache_ok (dcache d') \<and> run_state d' = run_state d"
    if "run_handler cf e now c so1 rest d = Some (r, so', d')" for c so1 rest
    using that ok flush_old_values_keeps [OF ok, of cf e "- 1"]
    by (auto simp: run_handler_def handle_request_flushall_def handle_request_queue_def handle_request_stats_def
        handle_request_help_def handle_batch_start_def handle_batch_done_def
        split: handler.splits bind_splits option.splits if_splits
        dest!: handle_request_update_keeps handle_request_wrote_keeps handle_request_flush_keeps
          handle_request_pending_keeps handle_request_forget_keeps respond_keeps)
  show ?thesis
    using h ok run unfolding handle_request_def Let_def
    by (auto split: if_splits option.splits dest!: respond_keeps)
qed

section \<open>Steps\<close>

record system =
  sy_daemon :: daemon
  sy_writes :: "(string \<times> string list) list"

inductive daemon_step :: "daemon_config \<Rightarrow> system \<Rightarrow> system \<Rightarrow> bool" for cf :: daemon_config where
  request: "handle_request cf e now so b d = Some (r, so', d') \<Longrightarrow>
     daemon_step cf \<lparr>sy_daemon = d, sy_writes = ws\<rparr> \<lparr>sy_daemon = d', sy_writes = ws\<rparr>"
| take: "queue_take cf e d = Some (Some w, d') \<Longrightarrow>
     daemon_step cf \<lparr>sy_daemon = d, sy_writes = ws\<rparr> \<lparr>sy_daemon = d', sy_writes = ws @ [w]\<rparr>"
| wrote: "queue_wrote cf e f (length vs) status d = Some d' \<Longrightarrow>
     daemon_step cf \<lparr>sy_daemon = d, sy_writes = us @ (f, vs) # ws\<rparr> \<lparr>sy_daemon = d', sy_writes = us @ ws\<rparr>"
| tick: "run_state d = RUNNING \<Longrightarrow> flush_tick cf e d = Some d' \<Longrightarrow>
     daemon_step cf \<lparr>sy_daemon = d, sy_writes = ws\<rparr> \<lparr>sy_daemon = d', sy_writes = ws\<rparr>"
| stop: "run_state d \<noteq> RUNNING \<Longrightarrow> flush_stop cf e d = Some d' \<Longrightarrow>
     daemon_step cf \<lparr>sy_daemon = d, sy_writes = ws\<rparr> \<lparr>sy_daemon = d', sy_writes = ws\<rparr>"
| signal: "daemon_step cf \<lparr>sy_daemon = d, sy_writes = ws\<rparr> \<lparr>sy_daemon = handle_signal sg d, sy_writes = ws\<rparr>"

definition empty_cache :: cache where
  "empty_cache = \<lparr>tree = [], queue_head = None, queue_tail = None, stats_queue_length = 0\<rparr>"

inductive daemon_reachable :: "daemon_config \<Rightarrow> system \<Rightarrow> bool" for cf :: daemon_config where
  start: "dcache d = empty_cache \<Longrightarrow> run_state d = RUNNING \<Longrightarrow>
     daemon_reachable cf \<lparr>sy_daemon = d, sy_writes = []\<rparr>"
| step: "daemon_reachable cf y \<Longrightarrow> daemon_step cf y y' \<Longrightarrow> daemon_reachable cf y'"

definition system_ok :: "system \<Rightarrow> bool" where
  "system_ok y \<longleftrightarrow> cache_ok (dcache (sy_daemon y)) \<and>
     (\<forall>(f, vs) \<in> set (sy_writes y). vs \<noteq> [] \<and> (\<exists>s. stamped vs s))"

lemma empty_cache_ok: "cache_ok empty_cache"
  unfolding cache_ok_def
  by (auto simp: empty_cache_def queue_is_def cache_data_def item_def g_tree_lookup_def intro: exI [of _ "[]"])

lemma queue_wrote_keeps: "queue_wrote cf e f n st d = Some d' \<Longrightarrow> dcache d' = dcache d \<and> run_state d' = run_state d"
  by (auto simp: queue_wrote_def split: bind_splits dest!: journal_write_keeps)

lemma daemon_step_ok: "daemon_step cf y y' \<Longrightarrow> system_ok y \<Longrightarrow> system_ok y'"
proof (induction rule: daemon_step.induct)
  case (take e d w d' ws)
  then show ?case using queue_take_keeps [of d cf e] by (auto simp: system_ok_def)
next
  case (tick d e d' ws)
  then show ?case using flush_old_values_keeps [of d cf e "write_interval cf"]
    by (auto simp: system_ok_def flush_tick_def split: bind_splits dest!: journal_rotate_keeps)
next
  case (stop d e d' ws)
  then show ?case using flush_old_values_keeps [of d cf e "- 1"]
    by (auto simp: system_ok_def flush_stop_def split: bind_splits if_splits)
qed (auto simp: system_ok_def handle_signal_keeps dest!: handle_request_keeps queue_wrote_keeps)

lemma daemon_reachable_ok: "daemon_reachable cf y \<Longrightarrow> system_ok y"
proof (induction rule: daemon_reachable.induct)
  case (start d)
  then show ?case by (simp add: system_ok_def empty_cache_ok)
qed (rule daemon_step_ok)

lemma reachable_queue:
  assumes "daemon_reachable cf y"
  obtains qs where "queue_is (dcache (sy_daemon y)) qs"
  using daemon_reachable_ok [OF assms] unfolding system_ok_def cache_ok_def by blast

section \<open>Waiting\<close>

text \<open>Only a flush of a file with pending values waits, and it has put that file in front.\<close>

lemma respond_finished: "respond rc t so d \<noteq> Some (Waits f, so', d')"
  by (auto simp: respond_def)

lemma deny_finished: "deny_access e so d \<noteq> Some (Waits f, so', d')"
  by (auto simp: deny_access_def)

lemma with_field_waits:
  assumes "with_field c so b d k = Some (Waits f, so', d')"
  obtains f0 rest where "k f0 rest = Some (Waits f, so', d')"
  using assms by (auto simp: with_field_def syntax_error_def respond_finished split: option.splits)

definition put_first :: "string \<Rightarrow> daemon \<Rightarrow> daemon \<Rightarrow> bool" where
  "put_first f d d' \<longleftrightarrow> (\<exists>ci. d_item d f = Some ci \<and> ci_values ci \<noteq> []) \<and>
     enqueue_cache_item f HEAD (dcache d) = Some (dcache d')"

lemma flush_waits:
  assumes "handle_request_flush cf e c so b d = Some (Waits f, so', d')"
  shows "put_first f d d'"
  using assms unfolding handle_request_flush_def
proof (cases rule: with_field_waits)
  case (1 f0 rest)
  then have "flush_file f (d\<lparr>stats_flush_received := stats_flush_received d + 1\<rparr>) = Some (0, True, d')"
    by (auto simp: Let_def deny_finished flush_done_def respond_finished flush_file_def
        split: if_splits option.splits file_kind.splits)
  then show ?thesis by (auto simp: put_first_def flush_file_def on_cache_def split: option.splits if_splits)
qed

lemma request_waits:
  assumes "handle_request cf e now so b d = Some (Waits f, so', d')"
  shows "put_first f d d'"
proof -
  have "put_first f d d'" if "run_handler cf e now c so1 rest d = Some (Waits f, so', d')" for c so1 rest
  proof (cases "cmd_handler c = H_flush")
    case True
    then show ?thesis using that flush_waits by (simp add: run_handler_def)
  next
    case False
    then show ?thesis using that
      by (auto simp: run_handler_def handle_request_flushall_def handle_request_queue_def handle_request_stats_def
        handle_request_help_def handle_batch_start_def handle_batch_done_def handle_request_wrote_def
        handle_request_pending_def handle_request_forget_def Let_def respond_finished deny_finished
        elim!: with_field_waits split: handler.splits bind_splits option.splits if_splits)
  qed
  then show ?thesis
    using assms by (auto simp: handle_request_def Let_def respond_finished split: if_splits option.splits)
qed

section \<open>The loop of a queue thread\<close>

text \<open>The loop ends when the daemon stops and, if the cache is to be flushed, the queue is empty. The
  environment of each turn is its own; \<open>upd\<close> is the status of the update of a file. \<open>None\<close> is an
  assertion that fails, or more turns than \<open>n\<close>.\<close>

fun queue_thread_loop ::
  "daemon_config \<Rightarrow> (nat \<Rightarrow> daemon_env) \<Rightarrow> (string \<Rightarrow> string list \<Rightarrow> int) \<Rightarrow> nat \<Rightarrow> daemon
     \<Rightarrow> ((string \<times> string list) list \<times> daemon) option" where
  "queue_thread_loop cf es upd n d =
     (if run_state d = SHUTDOWN \<and> \<not> (queue_head (dcache d) \<noteq> None \<and> flush_at_shutdown d) then Some ([], d)
      else
        (case n of
           0 \<Rightarrow> None
         | Suc m \<Rightarrow> do {
             (w, d1) \<leftarrow> queue_take cf (es m) d;
             case w of
               None \<Rightarrow> queue_thread_loop cf es upd m d1
             | Some (f, vs) \<Rightarrow> do {
                 d2 \<leftarrow> queue_wrote cf (es m) f (length vs) (upd f vs) d1;
                 (ws, d3) \<leftarrow> queue_thread_loop cf es upd m d2;
                 Some ((f, vs) # ws, d3)
               }
           }))"

declare queue_thread_loop.simps [simp del]

text \<open>The journal can be written: while a file is open there is a directory and a set.\<close>

definition journal_ready :: "daemon_config \<Rightarrow> daemon \<Rightarrow> bool" where
  "journal_ready cf d \<longleftrightarrow> journal_fh d = None \<or> journal_dir cf \<noteq> None \<and> journal_cur d \<noteq> None"

lemma journal_write_ready:
  assumes "journal_ready cf d"
  shows "\<exists>d'. journal_write cf e a b d = Some d' \<and> journal_ready cf d' \<and>
    (flush_at_shutdown d \<longrightarrow> flush_at_shutdown d')"
  using assms
  by (auto simp: journal_write_def journal_ready_def journal_new_file_def journal_close_def Let_def
      split: option.split)

lemma queue_wrote_ready:
  assumes "journal_ready cf d"
  shows "\<exists>d'. queue_wrote cf e f n st d = Some d' \<and> journal_ready cf d' \<and> dcache d' = dcache d \<and>
    run_state d' = run_state d \<and> (flush_at_shutdown d \<longrightarrow> flush_at_shutdown d')"
proof -
  obtain d' where d': "journal_write cf e ''wrote'' f d = Some d'" "journal_ready cf d'"
    "flush_at_shutdown d \<longrightarrow> flush_at_shutdown d'"
    using journal_write_ready [OF assms] by blast
  then show ?thesis using journal_write_keeps [OF d'(1)]
    by (simp add: queue_wrote_def journal_ready_def)
qed

definition pending :: "daemon \<Rightarrow> string \<Rightarrow> string list" where
  "pending d f = (case d_item d f of None \<Rightarrow> [] | Some ci \<Rightarrow> ci_values ci)"

lemma pending_data: "pending d f = (case cache_data (dcache d) f of None \<Rightarrow> [] | Some (vs, _) \<Rightarrow> vs)"
  by (simp add: pending_def cache_data_def item_data_def split: option.split)

text \<open>A thread that works while the daemon stops writes every queued file once, in the order of
  the queue, with all its pending values.\<close>

lemma loop_drains:
  assumes "queue_is (dcache d) qs" "run_state d = SHUTDOWN" "flush_at_shutdown d" "journal_ready cf d" "length qs \<le> n"
  shows "\<exists>d'. queue_thread_loop cf es upd n d = Some (map (\<lambda>f. (f, pending d f)) qs, d') \<and>
    queue_is (dcache d') [] \<and> (\<forall>f. pending d' f = (if f \<in> set qs then [] else pending d f))"
  using assms
proof (induction qs arbitrary: d n)
  case Nil
  then have "queue_head (dcache d) = None" by (simp add: queue_is_def)
  then have "queue_thread_loop cf es upd n d = Some ([], d)"
    using Nil.prems by (subst queue_thread_loop.simps) simp
  then show ?case using Nil.prems(1) by simp
next
  case (Cons f qs)
  obtain m where n: "n = Suc m" "length qs \<le> m" using Cons.prems(5) by (cases n) auto
  obtain vs t s c t' where c: "cache_data (dcache d) f = Some (vs, t, s)"
    "queue_take cf (es m) d = Some (Some (f, vs), d\<lparr>dcache := c\<rparr>)" "queue_is c qs"
    "cache_data c = (cache_data (dcache d))(f := Some ([], t', s))"
    using queue_take_first [OF Cons.prems(1)] by blast
  let ?d1 = "d\<lparr>dcache := c\<rparr>"
  have p: "pending ?d1 g = (if g = f then [] else pending d g)" "pending d f = vs" for g
    by (simp_all add: pending_data c(1,4))
  have "journal_ready cf ?d1" using Cons.prems(4) by (simp add: journal_ready_def)
  then obtain d2 where d2: "queue_wrote cf (es m) f (length vs) (upd f vs) ?d1 = Some d2" "journal_ready cf d2"
    "dcache d2 = c" "run_state d2 = SHUTDOWN" "flush_at_shutdown d2"
    using queue_wrote_ready [of cf ?d1] Cons.prems(2,3) by fastforce
  have p2: "pending d2 g = pending ?d1 g" for g using d2(3) by (simp add: pending_def)
  obtain d3 where d3: "queue_thread_loop cf es upd m d2 = Some (map (\<lambda>f. (f, pending d2 f)) qs, d3)"
    "queue_is (dcache d3) []" "\<forall>g. pending d3 g = (if g \<in> set qs then [] else pending d2 g)"
    using Cons.IH [of d2 m] c(3) d2 n(2) by auto
  have h: "queue_head (dcache d) = Some f" using Cons.prems(1) by (simp add: queue_is_def)
  have qs: "f \<notin> set qs" using Cons.prems(1) by (simp add: queue_is_def)
  then have "queue_thread_loop cf es upd n d = Some ((f, vs) # map (\<lambda>f. (f, pending d2 f)) qs, d3)"
    using Cons.prems(3) h by (subst queue_thread_loop.simps) (simp add: n(1) c(2) d2(1) d3(1))
  moreover have "map (\<lambda>f. (f, pending d2 f)) qs = map (\<lambda>f. (f, pending d f)) qs"
    using qs by (auto simp: p2 p(1))
  ultimately show ?case using d3(2,3) p p2 by (intro exI [of _ d3]) auto
qed

text \<open>Until the flush thread has set the last state, the loop goes on.\<close>

lemma queue_take_state: "queue_take cf e d = Some (w, d') \<Longrightarrow> run_state d' = run_state d"
  by (auto simp: queue_take_def on_cache_def split: option.splits bind_splits if_splits)

lemma loop_goes_on: "run_state d \<noteq> SHUTDOWN \<Longrightarrow> queue_thread_loop cf es upd n d = None"
proof (induction n arbitrary: d)
  case (Suc n)
  have "queue_thread_loop cf es upd n d1 = None" if "run_state d1 = run_state d" for d1
    using Suc that by simp
  then show ?case
    using Suc.prems by (subst queue_thread_loop.simps)
      (auto split: bind_splits option.splits dest!: queue_take_state queue_wrote_keeps)
qed (subst queue_thread_loop.simps, simp)

end
