(* ===== verification/Daemon_Spec.thy ===== *)
theory Daemon_Spec
  imports Daemon_System
begin

text \<open>
  What the caching daemon guarantees in every reachable state: the invariant of the cache, the order
  in which the queue threads serve the files, flushing, the shutdown, and permissions.
\<close>

section \<open>A small daemon\<close>

definition small_config :: daemon_config where
  "small_config = \<lparr>write_interval = 300, write_jitter = 0, flush_interval = 3600, base_dir = Some ''/d'',
     write_base_only = True, journal_dir = None\<rparr>"

definition small_env :: daemon_env where
  "small_env = \<lparr>file_stat = (\<lambda>f. Regular_file), de_strerror = (\<lambda>n. ''error''), de_random = 0, de_time = 1000,
     de_malloc = True, tree_height = length, journal_time = (0, 0), journal_open = True\<rparr>"

definition small_daemon :: daemon where
  "small_daemon = \<lparr>dcache = empty_cache, run_state = RUNNING, flush_at_shutdown = False,
     stats_updates_received = 0, stats_flush_received = 0, stats_updates_written = 0,
     stats_data_sets_written = 0, stats_journal_bytes = 0, stats_journal_rotate = 0, journal_fh = None,
     journal_size = 0, journal_cur = None, journal_old = None, disk = (\<lambda>f. None)\<rparr>"

definition small_request :: "int \<Rightarrow> string \<Rightarrow> daemon \<Rightarrow> daemon" where
  "small_request now l d =
     (case handle_request small_config small_env now None (l @ [NUL]) d of Some (_, _, d') \<Rightarrow> d' | None \<Rightarrow> d)"

lemma small_step:
  assumes "daemon_reachable small_config \<lparr>sy_daemon = d, sy_writes = ws\<rparr>"
  shows "daemon_reachable small_config \<lparr>sy_daemon = small_request now l d, sy_writes = ws\<rparr>"
proof (cases "handle_request small_config small_env now None (l @ [NUL]) d")
  case (Some x)
  then show ?thesis
    by (cases x) (auto simp: small_request_def intro: daemon_reachable.step [OF assms daemon_step.request])
qed (simp add: small_request_def assms)

lemma small_start: "daemon_reachable small_config \<lparr>sy_daemon = small_daemon, sy_writes = []\<rparr>"
  by (rule daemon_reachable.start) (simp_all add: small_daemon_def)

definition two_files :: daemon where
  "two_files = small_request 1400 ''update a 6:2'' (small_request 1000 ''update b 7:1 9:2''
     (small_request 1000 ''update a 5:1'' small_daemon))"

lemma two_files_reachable: "daemon_reachable small_config \<lparr>sy_daemon = two_files, sy_writes = []\<rparr>"
  unfolding two_files_def by (intro small_step small_start)

text \<open>What is evaluated of a daemon, in one pass.\<close>

definition digest :: "daemon \<Rightarrow> cache \<times> run_state_t \<times> bool \<times> string option" where
  "digest d = (dcache d, run_state d, flush_at_shutdown d, journal_fh d)"

lemma two_files_digest:
  "digest two_files = (\<lparr>tree =
      [(''/d/a'', \<lparr>ci_values = [''5:1'', ''6:2''], last_flush_time = 1000, last_update_stamp = 6, in_queue = True,
          ci_prev = None, ci_next = None\<rparr>),
       (''/d/b'', \<lparr>ci_values = [''7:1'', ''9:2''], last_flush_time = 1000, last_update_stamp = 9, in_queue = False,
          ci_prev = None, ci_next = None\<rparr>)],
     queue_head = Some ''/d/a'', queue_tail = Some ''/d/a'', stats_queue_length = 1\<rparr>, RUNNING, False, None)"
  by code_simp

lemmas two_files_cache = two_files_digest [unfolded digest_def prod.inject, THEN conjunct1]
  two_files_digest [unfolded digest_def prod.inject, THEN conjunct2, THEN conjunct1]
  two_files_digest [unfolded digest_def prod.inject, THEN conjunct2, THEN conjunct2, THEN conjunct1]
  two_files_digest [unfolded digest_def prod.inject, THEN conjunct2, THEN conjunct2, THEN conjunct2]

lemma two_files_pending: "pending two_files f =
    (if f = ''/d/a'' then [''5:1'', ''6:2''] else if f = ''/d/b'' then [''7:1'', ''9:2''] else [])"
  by (simp add: pending_def two_files_cache item_def g_tree_lookup_def)

definition small_client :: listen_socket_t where
  "small_client = \<lparr>batch_start = 0, batch_cmd = 0, rbuf = [], next_off = 0, wbuf = [],
     permissions = socket_permission_set_all, sent = [], writable = True\<rparr>"

lemma small_flush:
  "map_option fst (handle_request small_config small_env 1400 (Some small_client) (''flush b'' @ [NUL]) two_files)
     = Some (Waits ''/d/b'')"
  by code_simp

section \<open>The properties\<close>

text \<open>C5. In every reachable state, whatever the threads did and in whatever order, the queue is a
  finite list of different files, its length is the statistic, an item is marked as queued exactly
  if it is in the list, and then it has values; the pending values of an item and the values that
  a queue thread writes are in the order of their times.\<close>

theorem daemon_invariant:
  assumes "daemon_reachable cf y"
  shows "\<exists>qs. queue_files (dcache (sy_daemon y)) = Some qs \<and> distinct qs \<and>
    stats_queue_length (dcache (sy_daemon y)) = of_nat (length qs) \<and>
    (\<forall>f ci. d_item (sy_daemon y) f = Some ci \<longrightarrow>
       in_queue ci = (f \<in> set qs) \<and> (f \<in> set qs \<longrightarrow> ci_values ci \<noteq> []) \<and>
       sorted_wrt (<) (map stamp_of (ci_values ci)) \<and> (\<forall>v \<in> set (ci_values ci). stamp_of v \<le> last_update_stamp ci)) \<and>
    (\<forall>(f, vs) \<in> set (sy_writes y). vs \<noteq> [] \<and> sorted_wrt (<) (map stamp_of vs))"
proof -
  obtain qs where q: "queue_is (dcache (sy_daemon y)) qs" using reachable_queue [OF assms] .
  have ok: "system_ok y" by (rule daemon_reachable_ok [OF assms])
  have "in_queue ci = (f \<in> set qs)" "f \<in> set qs \<longrightarrow> ci_values ci \<noteq> []"
    "sorted_wrt (<) (map stamp_of (ci_values ci))" "\<forall>v \<in> set (ci_values ci). stamp_of v \<le> last_update_stamp ci"
    if "d_item (sy_daemon y) f = Some ci" for f ci
    using queue_item [OF q that] cq.queued [OF q, of f] cache_ok_item [OF _ that] ok that
    by (auto simp: system_ok_def stamped_def cache_data_def item_data_def)
  then show ?thesis
    using queue_files_ok [OF q] q ok by (auto simp: queue_is_def system_ok_def stamped_def)
qed

theorem daemon_invariant_witness:
  "sorted_wrt (<) (map stamp_of [''7:1'', ''9:2'']) \<and> queue_files (dcache two_files) = Some [''/d/a'']"
proof -
  obtain qs where "queue_files (dcache two_files) = Some qs"
    "\<forall>f ci. d_item two_files f = Some ci \<longrightarrow> in_queue ci = (f \<in> set qs) \<and> (f \<in> set qs \<longrightarrow> ci_values ci \<noteq> []) \<and>
       sorted_wrt (<) (map stamp_of (ci_values ci)) \<and> (\<forall>v \<in> set (ci_values ci). stamp_of v \<le> last_update_stamp ci)"
    using daemon_invariant [OF two_files_reachable] by auto
  then show ?thesis
    by (auto simp: two_files_cache item_def g_tree_lookup_def queue_files_def dest: spec [of _ "''/d/b''"])
qed

text \<open>C29. The queue threads serve the files in the order of the queue: with an empty queue
  there is nothing to do, otherwise the first file is taken with all its pending values, the rest of
  the queue stays, and no other item changes. No assertion of the thread fails.\<close>

theorem queue_served_in_order:
  assumes "daemon_reachable cf y"
  shows "\<exists>qs. queue_files (dcache (sy_daemon y)) = Some qs \<and>
    (case qs of
       [] \<Rightarrow> queue_take cf e (sy_daemon y) = Some (None, sy_daemon y)
     | f # fs \<Rightarrow> \<exists>d'. queue_take cf e (sy_daemon y) = Some (Some (f, pending (sy_daemon y) f), d') \<and>
         pending (sy_daemon y) f \<noteq> [] \<and> queue_files (dcache d') = Some fs \<and>
         (\<forall>g. pending d' g = (if g = f then [] else pending (sy_daemon y) g)))"
proof -
  obtain qs where q: "queue_is (dcache (sy_daemon y)) qs" using reachable_queue [OF assms] .
  show ?thesis
  proof (cases qs)
    case Nil
    then show ?thesis using queue_files_ok [OF q] queue_take_empty q by auto
  next
    case (Cons f fs)
    then obtain vs t s c t' where "cache_data (dcache (sy_daemon y)) f = Some (vs, t, s)" "vs \<noteq> []"
      "queue_take cf e (sy_daemon y) = Some (Some (f, vs), (sy_daemon y)\<lparr>dcache := c\<rparr>)" "queue_is c fs"
      "cache_data c = (cache_data (dcache (sy_daemon y)))(f := Some ([], t', s))"
      using queue_take_first q by blast
    then show ?thesis using queue_files_ok [OF q] queue_files_ok [of c fs] Cons by (simp add: pending_data)
  qed
qed

theorem queue_served_in_order_witness:
  "\<exists>d'. queue_take small_config small_env two_files = Some (Some (''/d/a'', [''5:1'', ''6:2'']), d')"
  using queue_served_in_order [OF two_files_reachable, of small_env]
  by (auto simp: two_files_cache item_def g_tree_lookup_def queue_files_def two_files_pending)

text \<open>C10. A client that flushes a file with pending values is served next: whatever was queued before,
  the next queue thread takes that file, with all its values, in whatever environment it runs.\<close>

theorem flush_is_served_next:
  assumes "daemon_reachable cf y" "handle_request cf e now so b (sy_daemon y) = Some (Waits f, so', d')"
  shows "\<exists>d''. queue_take cf e' d' = Some (Some (f, pending (sy_daemon y) f), d'') \<and>
    pending (sy_daemon y) f \<noteq> [] \<and> pending d'' f = []"
proof -
  obtain qs where q: "queue_is (dcache (sy_daemon y)) qs" using reachable_queue [OF assms(1)] .
  obtain ci where ci: "d_item (sy_daemon y) f = Some ci" "ci_values ci \<noteq> []"
    and h: "enqueue_cache_item f HEAD (dcache (sy_daemon y)) = Some (dcache d')"
    using request_waits [OF assms(2)] by (auto simp: put_first_def)
  have x: "cache_data (dcache (sy_daemon y)) f = Some (item_data ci)" using ci by (simp add: cache_data_def)
  have q': "queue_is (dcache d') (f # remove1 f qs)" "cache_data (dcache d') = cache_data (dcache (sy_daemon y))"
    using cq.push_first [OF q x] h ci(2) by (auto simp: item_data_def)
  show ?thesis using queue_take_first [OF q'(1)] q'(2) by (fastforce simp: pending_data)
qed

theorem flush_is_served_next_witness:
  "\<exists>d' d''. queue_take small_config small_env d' = Some (Some (''/d/b'', [''7:1'', ''9:2'']), d'')"
proof -
  obtain so' d' where h: "handle_request small_config small_env 1400 (Some small_client) (''flush b'' @ [NUL]) two_files
      = Some (Waits ''/d/b'', so', d')"
    using small_flush by auto
  then show ?thesis
    using flush_is_served_next [OF two_files_reachable, unfolded system.simps, OF h, of small_env]
    by (auto simp: two_files_pending)
qed

text \<open>C30. A pass of the flush thread puts exactly those files at the end of the queue that are not
  queued and have values that are older than the limit (or any values, when the daemon is about to
  stop), in the order of their names; it forgets exactly the items without values that were not
  flushed for the interval of the option \<open>-f\<close>; all other items stay.\<close>

theorem flush_pass_queues_due_files:
  assumes "daemon_reachable cf y"
  shows "\<exists>qs c. queue_files (dcache (sy_daemon y)) = Some qs \<and>
    flush_old_values cf e max_age (sy_daemon y) = Some ((sy_daemon y)\<lparr>dcache := c\<rparr>) \<and>
    queue_files c = Some (qs @ filter (\<lambda>f. f \<notin> set qs \<and>
        due_file (run_state (sy_daemon y)) (flush_limit cf e max_age) (dcache (sy_daemon y)) f)
      (map fst (tree (dcache (sy_daemon y))))) \<and>
    (\<forall>f. cache_data c f = (if dead_file cf (de_time e) (dcache (sy_daemon y)) f then None
                         else cache_data (dcache (sy_daemon y)) f))"
proof -
  obtain qs where q: "queue_is (dcache (sy_daemon y)) qs" using reachable_queue [OF assms] .
  show ?thesis using flush_pass [OF q, of cf e max_age] queue_files_ok [OF q] queue_files_ok by blast
qed

theorem flush_pass_queues_due_files_witness:
  "\<exists>c. flush_old_values small_config small_env (- 5) two_files = Some (two_files\<lparr>dcache := c\<rparr>) \<and>
     queue_files c = Some [''/d/a'', ''/d/b'']"
  using flush_pass_queues_due_files [OF two_files_reachable, of small_env "- 5"]
  by (auto simp: two_files_cache item_def g_tree_lookup_def queue_files_def due_file_def cache_data_def item_data_def
      flush_limit_def small_env_def small_config_def)

text \<open>C6. A stop that flushes loses nothing: when the flush thread has done its last pass, a queue
  thread with enough turns writes every file with pending values exactly once and with all its
  values, and nothing is pending after it. Enough turns are as many as there are files to write.\<close>

theorem shutdown_writes_everything:
  assumes "daemon_reachable cf y" "run_state (sy_daemon y) \<noteq> RUNNING" "flush_at_shutdown (sy_daemon y)"
    "journal_ready cf (sy_daemon y)"
  shows "\<exists>d1 fs. flush_stop cf e (sy_daemon y) = Some d1 \<and> distinct fs \<and>
    (\<forall>f. f \<in> set fs \<longleftrightarrow> pending (sy_daemon y) f \<noteq> []) \<and>
    (\<forall>n \<ge> length fs. \<exists>d2. queue_thread_loop cf es upd n d1 = Some (map (\<lambda>f. (f, pending (sy_daemon y) f)) fs, d2) \<and>
       queue_files (dcache d2) = Some [] \<and> (\<forall>f. pending d2 f = []))"
proof -
  let ?d = "sy_daemon y"
  obtain qs where q: "queue_is (dcache ?d) qs" using reachable_queue [OF assms(1)] .
  define fs where "fs = qs @ filter (\<lambda>f. f \<notin> set qs \<and> due_file (run_state ?d) (flush_limit cf e (- 1)) (dcache ?d) f)
    (map fst (tree (dcache ?d)))"
  obtain c where c: "flush_old_values cf e (- 1) ?d = Some (?d\<lparr>dcache := c\<rparr>)" "queue_is c fs"
    "\<forall>f. cache_data c f = (if dead_file cf (de_time e) (dcache ?d) f then None else cache_data (dcache ?d) f)"
    unfolding fs_def using flush_pass [OF q] by blast
  define d1 where "d1 = ?d\<lparr>dcache := c, run_state := SHUTDOWN\<rparr>"
  have d1: "flush_stop cf e ?d = Some d1" using c(1) assms(3) by (simp add: flush_stop_def d1_def)
  have due: "due_file (run_state ?d) l (dcache ?d) f \<longleftrightarrow> pending ?d f \<noteq> []" for f l
    using assms(2) by (auto simp: due_file_def pending_data split: option.splits)
  have mem: "f \<in> set fs \<longleftrightarrow> pending ?d f \<noteq> []" for f
    using cq.queued [OF q, of f] keys_item [of f "dcache ?d"]
    by (auto simp: fs_def due pending_data cache_data_def item_data_def split: option.splits)
  have p: "pending d1 f = pending ?d f" for f
    using c(3) by (auto simp: d1_def pending_data dead_file_def split: option.splits)
  have "\<exists>d2. queue_thread_loop cf es upd n d1 = Some (map (\<lambda>f. (f, pending ?d f)) fs, d2) \<and>
      queue_files (dcache d2) = Some [] \<and> (\<forall>f. pending d2 f = [])" if n: "length fs \<le> n" for n
  proof -
    have pre: "queue_is (dcache d1) fs" "run_state d1 = SHUTDOWN" "flush_at_shutdown d1" "journal_ready cf d1"
      using c(2) assms(3,4) by (simp_all add: d1_def journal_ready_def)
    obtain d2 where "queue_thread_loop cf es upd n d1 = Some (map (\<lambda>f. (f, pending d1 f)) fs, d2)"
      "queue_is (dcache d2) []" "\<forall>f. pending d2 f = (if f \<in> set fs then [] else pending d1 f)"
      using loop_drains [OF pre n] by blast
    then show ?thesis using mem p queue_files_ok by auto
  qed
  moreover have "distinct fs" using c(2) by (simp add: queue_is_def)
  ultimately show ?thesis using d1 mem by blast
qed

text \<open>The daemon with two files after the signal that flushes.\<close>

lemma stopping_reachable:
  "daemon_reachable small_config \<lparr>sy_daemon = handle_signal SIGUSR1 two_files, sy_writes = []\<rparr>"
  by (rule daemon_reachable.step [OF two_files_reachable daemon_step.signal])

theorem shutdown_writes_everything_witness:
  "\<exists>d1 fs d2. flush_stop small_config small_env (handle_signal SIGUSR1 two_files) = Some d1 \<and>
     set fs = {''/d/a'', ''/d/b''} \<and>
     queue_thread_loop small_config (\<lambda>n. small_env) (\<lambda>f vs. 0) (length fs) d1
       = Some (map (\<lambda>f. (f, pending (handle_signal SIGUSR1 two_files) f)) fs, d2) \<and>
     pending d2 ''/d/b'' = []"
proof -
  let ?d = "handle_signal SIGUSR1 two_files"
  have pre: "run_state ?d \<noteq> RUNNING" "flush_at_shutdown ?d" "journal_ready small_config ?d"
    by (simp_all add: handle_signal_def journal_ready_def two_files_cache)
  obtain d1 fs where d1: "flush_stop small_config small_env ?d = Some d1" "\<forall>f. f \<in> set fs \<longleftrightarrow> pending ?d f \<noteq> []"
    "\<forall>n \<ge> length fs. \<exists>d2. queue_thread_loop small_config (\<lambda>n. small_env) (\<lambda>f vs. 0) n d1
       = Some (map (\<lambda>f. (f, pending ?d f)) fs, d2) \<and> queue_files (dcache d2) = Some [] \<and> (\<forall>f. pending d2 f = [])"
    using shutdown_writes_everything [OF stopping_reachable, of small_env "\<lambda>n. small_env" "\<lambda>f vs. 0"] pre by auto
  have "pending ?d f = pending two_files f" for f by (simp add: pending_def handle_signal_keeps)
  then have "f \<in> set fs \<longleftrightarrow> f = ''/d/a'' \<or> f = ''/d/b''" for f
    by (simp only: d1(2) two_files_pending) simp
  then have "set fs = {''/d/a'', ''/d/b''}" by (simp add: set_eq_iff)
  moreover obtain d2 where "queue_thread_loop small_config (\<lambda>n. small_env) (\<lambda>f vs. 0) (length fs) d1
       = Some (map (\<lambda>f. (f, pending ?d f)) fs, d2)" "\<forall>f. pending d2 f = []"
    using d1(3) by auto
  ultimately show ?thesis using d1(1) by (intro exI [of _ d1] exI [of _ fs] exI [of _ d2]) simp
qed


end
