(* ===== verification/Daemon_Replay.thy ===== *)
theory Daemon_Replay
  imports Daemon_System "HOL-Library.Sublist"
begin

text \<open>
  Recovery after a crash (\<open>rrd_daemon.c\<close>: \<open>journal_write\<close>, \<open>journal_replay\<close>): what the cache holds is
  related to what the replay of the journal gives.
\<close>

section \<open>What an update adds\<close>

text \<open>The values of an update that are accepted after the time \<open>s\<close>, and the time of the last one.\<close>

function accept :: "string \<Rightarrow> int \<Rightarrow> string list \<times> int" where
  "accept b s =
     (if b = [] then ([], s)
      else
        (case buffer_get_field b of
           Some (Some (v, rest)) \<Rightarrow>
             (if snd (strtol_10 v) \<noteq> v \<and> starts_with '':'' (snd (strtol_10 v)) \<and> s < stamp_of v
              then (v # fst (accept rest (stamp_of v)), snd (accept rest (stamp_of v)))
              else ([], s))
         | _ \<Rightarrow> ([], s)))"
  by pat_completeness auto
termination
  by (relation "measure (\<lambda>(b, s). length b)") (auto dest: buffer_get_field_shorter)

declare accept.simps [simp del]

text \<open>What recovery is about: the pending values of an item and the time of its last update.\<close>

definition view :: "daemon \<Rightarrow> string \<Rightarrow> (string list \<times> int) option" where
  "view d f = map_option (\<lambda>(vs, t, s). (vs, s)) (cache_data (dcache d) f)"

lemma view_item: "view d f = map_option (\<lambda>ci. (ci_values ci, last_update_stamp ci)) (d_item d f)"
  by (simp add: view_def cache_data_def item_data_def option.map_comp o_def)

lemma view_pending: "view d f = Some (vs, s) \<Longrightarrow> pending d f = vs"
  by (auto simp: view_item pending_def split: option.splits)

lemma view_None: "view d f = None \<longleftrightarrow> d_item d f = None"
  by (simp add: view_item)

lemma view_cache: "dcache d' = dcache d \<Longrightarrow> view d' = view d"
  by (simp add: view_def fun_eq_iff)

lemma update_values_view:
  "update_values f b n d = Some r \<Longrightarrow> view d f = Some (vs, s) \<Longrightarrow>
     view (read_daemon r) = (view d)(f := Some (vs @ fst (accept b s), snd (accept b s)))"
proof (induction f b n d arbitrary: r vs s rule: update_values.induct)
  case (1 f b n d)
  show ?case
  proof (cases "b = [] \<or> (\<forall>v rest. buffer_get_field b \<noteq> Some (Some (v, rest)))")
    case True
    then have "read_daemon r = d" using 1(2)
      by (subst (asm) update_values.simps) (auto split: if_splits option.splits)
    moreover have "accept b s = ([], s)" using True
      by (subst accept.simps) (auto split: option.splits)
    ultimately show ?thesis using 1(3) by (simp add: fun_upd_idem)
  next
    case False
    then obtain v rest where b: "b \<noteq> []" "buffer_get_field b = Some (Some (v, rest))" by auto
    obtain stamp eo where s: "strtol_10 v = (stamp, eo)" by force
    have st: "stamp_of v = stamp" by (simp add: stamp_of_def s)
    obtain ci where ci: "d_item d f = Some ci" "ci_values ci = vs" "last_update_stamp ci = s"
      using 1(3) by (auto simp: view_item)
    show ?thesis
    proof (cases "eo = v \<or> \<not> starts_with '':'' eo \<or> stamp \<le> last_update_stamp ci")
      case True
      then have "read_daemon r = d" using 1(2) b ci s
        by (subst (asm) update_values.simps) (auto split: if_splits)
      moreover have "accept b s = ([], s)" using True b s ci
        by (subst accept.simps) (auto simp: stamp_of_def)
      ultimately show ?thesis using 1(3) by (simp add: fun_upd_idem)
    next
      case False
      obtain c where c: "set_item f (add_value v stamp) (dcache d) = Some c" using set_item_exists [OF ci(1)] by blast
      then have d1: "on_cache (set_item f (add_value v stamp)) d = Some (d\<lparr>dcache := c\<rparr>)"
        by (simp add: on_cache_def)
      have v1: "view (d\<lparr>dcache := c\<rparr>) = (view d)(f := Some (vs @ [v], stamp))"
        using ci by (auto simp: view_item item_set_item [OF c] add_value_def fun_eq_iff)
      have "update_values f rest (Suc n) (d\<lparr>dcache := c\<rparr>) = Some r"
        using 1(2) b ci s False d1 by (subst (asm) update_values.simps) simp
      moreover have "\<not> (eo = v \<or> \<not> starts_with '':'' eo)" "\<not> stamp \<le> last_update_stamp ci"
        and "view (d\<lparr>dcache := c\<rparr>) f = Some (vs @ [v], stamp)"
        using False v1 by auto
      ultimately have "view (read_daemon r) = (view (d\<lparr>dcache := c\<rparr>))(f :=
          Some ((vs @ [v]) @ fst (accept rest stamp), snd (accept rest stamp)))"
        using 1(1) [OF b(1,2) refl refl ci(1) s [symmetric] _ _ d1] by blast
      moreover have "accept b s = (v # fst (accept rest stamp), snd (accept rest stamp))"
        using False b s ci by (subst accept.simps) (simp add: st)
      ultimately show ?thesis by (simp add: v1)
    qed
  qed
qed

lemma update_values_fields:
  "update_values f b n d = Some r \<Longrightarrow> journal_fh (read_daemon r) = journal_fh d \<and> disk (read_daemon r) = disk d"
proof (induction f b n d arbitrary: r rule: update_values.induct)
  case (1 f b n d)
  show ?case
    using 1(2) by (subst (asm) update_values.simps)
      (auto split: if_splits option.splits prod.splits dest!: 1(1) simp: on_cache_def)
qed

text \<open>A buffer that ends with a null byte can always be read.\<close>

definition ended :: "string \<Rightarrow> bool" where
  "ended b \<longleftrightarrow> b = [] \<or> last b = NUL"

lemma get_field_loop_suffix: "get_field_loop b fld = Some (v, rest) \<Longrightarrow> suffix rest b"
  by (induction b fld rule: get_field_loop.induct) (auto intro: suffix_ConsI split: if_splits list.splits)

lemma get_field_ended:
  assumes "buffer_get_field b = Some (Some (v, rest))"
  shows "ended rest"
proof -
  have "last b = NUL" "suffix rest b"
    using assms by (auto simp: buffer_get_field_def hd_rev split: if_splits intro: get_field_loop_suffix)
  then show ?thesis by (auto simp: ended_def suffix_def last_append split: if_splits)
qed

lemma ended_reads: "ended b \<Longrightarrow> buffer_get_field b \<noteq> None"
  by (auto simp: buffer_get_field_def ended_def hd_rev)

lemma update_values_total: "ended b \<Longrightarrow> d_item d f \<noteq> None \<Longrightarrow> \<exists>r. update_values f b n d = Some r"
proof (induction f b n d rule: update_values.induct)
  case (1 f b n d)
  show ?case
  proof (cases "b = [] \<or> (\<forall>v rest. buffer_get_field b \<noteq> Some (Some (v, rest)))")
    case True
    then show ?thesis using ended_reads [OF 1(2)]
      by (subst update_values.simps) (auto split: option.splits)
  next
    case False
    then obtain v rest where b: "b \<noteq> []" "buffer_get_field b = Some (Some (v, rest))" by auto
    obtain stamp eo where s: "strtol_10 v = (stamp, eo)" by force
    obtain ci where ci: "d_item d f = Some ci" using 1(3) by auto
    obtain c where c: "set_item f (add_value v stamp) (dcache d) = Some c" using set_item_exists [OF ci] by blast
    then have d1: "on_cache (set_item f (add_value v stamp)) d = Some (d\<lparr>dcache := c\<rparr>)"
      by (simp add: on_cache_def)
    have it: "d_item (d\<lparr>dcache := c\<rparr>) f \<noteq> None" using ci by (simp add: item_set_item [OF c])
    show ?thesis
    proof (cases "eo = v \<or> \<not> starts_with '':'' eo \<or> stamp \<le> last_update_stamp ci")
      case True
      then show ?thesis using b s ci by (subst update_values.simps) auto
    next
      case False
      then show ?thesis
        using 1(1) [OF b(1,2) refl refl ci s [symmetric] _ _ d1 get_field_ended [OF b(2)] it] b s ci d1
        by (subst update_values.simps) simp
    qed
  qed
qed

text \<open>The two ways through the handler: nothing changes, or the item is there, perhaps made new, and
  takes the accepted values.\<close>

definition updated :: "string \<Rightarrow> string \<Rightarrow> (string \<Rightarrow> (string list \<times> int) option) \<Rightarrow> string \<Rightarrow> (string list \<times> int) option" where
  "updated f b m =
     (case (case m f of None \<Rightarrow> ([], 0) | Some x \<Rightarrow> x) of
        (vs, s) \<Rightarrow> m(f := Some (vs @ fst (accept b s), snd (accept b s))))"

lemma update_item_view:
  assumes "update_item cf e now f d = Some (Inr d')"
  shows "view d' = (view d)(f := Some (case view d f of None \<Rightarrow> ([], 0) | Some x \<Rightarrow> x))"
    "journal_fh d' = journal_fh d \<and> disk d' = disk d" "d_item d' f \<noteq> None"
proof -
  have it: "item (c\<lparr>tree := g_tree_replace f ci (tree c)\<rparr>) = (item c)(f := Some ci)" for c ci
    by (simp add: item_def g_tree_lookup_def map_of_replace fun_eq_iff)
  show "view d' = (view d)(f := Some (case view d f of None \<Rightarrow> ([], 0) | Some x \<Rightarrow> x))"
    "journal_fh d' = journal_fh d \<and> disk d' = disk d" "d_item d' f \<noteq> None"
    using assms
    by (auto simp: update_item_def view_item it wipe_ci_values_def Let_def fun_eq_iff
        split: if_splits file_kind.splits)
qed

lemma queue_if_due_view: "queue_if_due cf now f d = Some d' \<Longrightarrow> cache_ok (dcache d) \<Longrightarrow> view d' = view d"
proof -
  assume a: "queue_if_due cf now f d = Some d'" "cache_ok (dcache d)"
  obtain qs where q: "queue_is (dcache d) qs" using a(2) by (auto dest: cache_ok_queue)
  show ?thesis
    using a(1) cq.push_last [OF q, of f]
    by (auto simp: queue_if_due_def on_cache_def view_def cache_data_def split: option.splits if_splits)
qed

lemma queue_if_due_total: "cache_ok (dcache d) \<Longrightarrow> d_item d f \<noteq> None \<Longrightarrow> \<exists>d'. queue_if_due cf now f d = Some d'"
  using enqueue_keeps [of "dcache d" f _ TAIL] by (fastforce simp: queue_if_due_def on_cache_def)

lemma update_added:
  assumes h: "handle_request_update cf e now usage so b d = Some (r, so', d')" and ok: "cache_ok (dcache d)"
    and b: "buffer_get_field b = Some (Some (f0, rest))" and a: "access_allowed cf (so = None) (get_abs_path cf f0)"
    and d2: "update_item cf e now (get_abs_path cf f0)
      (d\<lparr>stats_updates_received := stats_updates_received d + 1\<rparr>) = Some (Inr d2)"
  shows "view d' = updated (get_abs_path cf f0) rest (view d)"
    "\<exists>d3. (if so = None then Some d2 else journal_write cf e ''update'' (cstr b) d2) = Some d3 \<and>
       journal_fh d' = journal_fh d3 \<and> disk d' = disk d3"
proof -
  let ?f = "get_abs_path cf f0" and ?d1 = "d\<lparr>stats_updates_received := stats_updates_received d + 1\<rparr>"
  obtain d3 vs where d3: "(if so = None then Some d2 else journal_write cf e ''update'' (cstr b) d2) = Some d3"
    and vs: "update_values ?f rest 0 d3 = Some vs"
    and fin: "d' = read_daemon vs \<or> queue_if_due cf now ?f (read_daemon vs) = Some d'"
    using h b a d2
    by (auto simp: handle_request_update_def Let_def split: if_splits values_read.splits bind_splits)
  have ok3: "cache_ok (dcache d3)" and c3: "dcache d3 = dcache d2"
    using update_item_keeps [OF d2] ok d3 by (auto dest!: journal_write_keeps split: if_splits)
  have "view ?d1 = view d" by (simp add: view_def fun_eq_iff)
  then have v3: "view d3 = (view d)(?f := Some (case view d ?f of None \<Rightarrow> ([], 0) | Some x \<Rightarrow> x))"
    using update_item_view(1) [OF d2] view_cache [OF c3] by simp
  have "view (read_daemon vs) = updated ?f rest (view d)"
    using update_values_view [OF vs] v3 by (auto simp: updated_def split: option.split prod.split)
  moreover have "view d' = view (read_daemon vs)"
    using fin queue_if_due_view update_values_keeps [OF vs ok3] by auto
  ultimately show "view d' = updated ?f rest (view d)" by simp
  have "journal_fh d' = journal_fh d3 \<and> disk d' = disk d3"
    using fin update_values_fields [OF vs] by (auto simp: queue_if_due_def on_cache_def split: option.splits if_splits)
  then show "\<exists>d3. (if so = None then Some d2 else journal_write cf e ''update'' (cstr b) d2) = Some d3 \<and>
      journal_fh d' = journal_fh d3 \<and> disk d' = disk d3"
    using d3 by blast
qed

lemma update_same:
  assumes h: "handle_request_update cf e now usage so b d = Some (r, so', d')"
    and b: "buffer_get_field b = Some None \<or> (\<exists>f0 rest. buffer_get_field b = Some (Some (f0, rest)) \<and>
      \<not> (access_allowed cf (so = None) (get_abs_path cf f0) \<and> (\<exists>d2. update_item cf e now (get_abs_path cf f0)
      (d\<lparr>stats_updates_received := stats_updates_received d + 1\<rparr>) = Some (Inr d2))))"
  shows "view d' = view d \<and> journal_fh d' = journal_fh d \<and> disk d' = disk d"
proof -
  let ?d1 = "d\<lparr>stats_updates_received := stats_updates_received d + 1\<rparr>"
  consider "buffer_get_field b = Some None"
    | f0 rest where "buffer_get_field b = Some (Some (f0, rest))" "\<not> access_allowed cf (so = None) (get_abs_path cf f0)"
    | f0 rest where "buffer_get_field b = Some (Some (f0, rest))" "update_item cf e now (get_abs_path cf f0) ?d1 = None"
    | f0 rest m where "buffer_get_field b = Some (Some (f0, rest))" "update_item cf e now (get_abs_path cf f0) ?d1 = Some (Inl m)"
    using b by (metis not_None_eq obj_sumE)
  then have "d' = d \<or> d' = ?d1" using h
    by cases (auto simp: handle_request_update_def Let_def split: if_splits)
  then show ?thesis by (auto simp: view_def fun_eq_iff)
qed

text \<open>The other operations of a running daemon.\<close>

lemma queue_take_view:
  assumes ok: "cache_ok (dcache d)" and t: "queue_take cf e d = Some (Some (f, vs), d')"
  shows "\<exists>s. view d f = Some (vs, s) \<and> view d' = (view d)(f := Some ([], s))"
    "journal_fh d' = journal_fh d" "disk d' = disk d"
proof -
  obtain qs where q: "queue_is (dcache d) qs" using ok by (auto dest: cache_ok_queue)
  have ne: "qs \<noteq> []" using queue_take_empty [of d cf e] q t by auto
  then obtain g fs where qs: "qs = g # fs" by (cases qs) auto
  then obtain vs' t' s c t'' where c: "cache_data (dcache d) g = Some (vs', t', s)"
    "queue_take cf e d = Some (Some (g, vs'), d\<lparr>dcache := c\<rparr>)" "cache_data c = (cache_data (dcache d))(g := Some ([], t'', s))"
    using queue_take_first q by blast
  have eq: "g = f" "vs' = vs" "d' = d\<lparr>dcache := c\<rparr>" using c(2) t by auto
  show "\<exists>s. view d f = Some (vs, s) \<and> view d' = (view d)(f := Some ([], s))"
    "journal_fh d' = journal_fh d" "disk d' = disk d"
    using c(1,3) by (auto simp: eq view_def fun_eq_iff)
qed

lemma enqueue_view:
  assumes "cache_ok c" "enqueue_cache_item f side c = Some c'"
  shows "cache_data c' = cache_data c"
proof -
  obtain qs where q: "queue_is c qs" using assms by (auto dest: cache_ok_queue)
  obtain ci where "item c f = Some ci" using assms(2) by (auto simp: enqueue_cache_item_def split: option.splits)
  then have x: "cache_data c f = Some (item_data ci)" by (simp add: cache_data_def)
  show ?thesis
    using cq.push_last [OF q x] cq.push_first [OF q x] assms(2) by (cases side) auto
qed

lemma flush_view:
  assumes h: "handle_request_flush cf e c so b d = Some (r, so', d')" and ok: "cache_ok (dcache d)"
  shows "view d' = view d \<and> journal_fh d' = journal_fh d \<and> disk d' = disk d"
  using h unfolding handle_request_flush_def
proof (cases rule: with_field_cases)
  case (2 f0 rest)
  then show ?thesis using ok enqueue_view [of "dcache d" _ HEAD]
    by (auto simp: deny_access_def flush_done_def Let_def flush_file_def on_cache_def view_def fun_eq_iff dest!: respond_keeps
        split: if_splits option.splits file_kind.splits)
qed simp

lemma g_tree_remove_view:
  assumes ok: "cache_ok c" and r: "g_tree_remove f c = Some (b, c')"
  shows "cache_data c' = (cache_data c)(f := None)" "b \<longleftrightarrow> item c f \<noteq> None"
proof -
  obtain qs where q: "queue_is c qs" using ok by (auto dest: cache_ok_queue)
  show "cache_data c' = (cache_data c)(f := None)" "b \<longleftrightarrow> item c f \<noteq> None"
    using cq.forget [OF q, of f] r by (auto simp: cache_data_def)
qed

text \<open>An entry of the journal.\<close>

lemma journal_write_disk:
  assumes "journal_write cf e a b d = Some d'" "journal_fh d = Some nm" "journal_fh d' = Some nm" "disk d nm = Some c"
  shows "disk d' nm = Some (c @ a @ '' '' @ b @ [NL])"
  using assms
  by (auto simp: journal_write_def journal_new_file_def journal_close_def Let_def split: option.splits if_splits bind_splits)

section \<open>Replaying\<close>

lemma take_line_append:
  "take_line n a = (l, r) \<Longrightarrow> a \<noteq> [] \<Longrightarrow> last a = NL \<Longrightarrow> take_line n (a @ b) = (l, r @ b)"
  by (induction n a arbitrary: l r rule: take_line.induct) (auto split: if_splits prod.splits)

lemma take_line_rest: "take_line n a = (l, r) \<Longrightarrow> suffix r a"
  by (induction n a arbitrary: l r rule: take_line.induct) (auto split: if_splits prod.splits intro: suffix_ConsI)

definition whole_lines :: "string \<Rightarrow> bool" where
  "whole_lines a \<longleftrightarrow> a = [] \<or> last a = NL"

lemma replay_step:
  assumes "a \<noteq> []" "take_line 4095 a = (l, r)"
  shows "replay_entries cf e now a cnt d =
    (if cstr l = [] then replay_entries cf e now r cnt d
     else if hd (rev (cstr l)) \<noteq> NL then replay_entries cf e now r (fst cnt, Suc (snd cnt)) d
     else
       (case handle_request cf e now None (butlast (cstr l) @ [NUL]) d of
          None \<Rightarrow> None
        | Some (st, _, d1) \<Rightarrow>
            replay_entries cf e now r
              (if st = Finished 0 then (Suc (fst cnt), snd cnt) else (fst cnt, Suc (snd cnt))) d1))"
  using assms by (subst replay_entries.simps) (simp add: Let_def)

lemma replay_end [simp]: "replay_entries cf e now [] cnt d = Some (cnt, d)"
  by (subst replay_entries.simps) simp

lemma replay_append:
  "whole_lines a \<Longrightarrow> replay_entries cf e now (a @ b) cnt d =
     Option.bind (replay_entries cf e now a cnt d) (\<lambda>(cnt1, d1). replay_entries cf e now b cnt1 d1)"
proof (induction cf e now a cnt d rule: replay_entries.induct)
  case (1 cf e now a cnt d)
  show ?case
  proof (cases "a = []")
    case True
    then show ?thesis by simp
  next
    case False
    obtain l r where lr: "take_line 4095 a = (l, r)" by force
    have w: "whole_lines r"
      using take_line_rest [OF lr] 1(4) by (auto simp: whole_lines_def suffix_def last_append split: if_splits)
    have t: "take_line 4095 (a @ b) = (l, r @ b)"
      using take_line_append [OF lr False] 1(4) False by (simp add: whole_lines_def)
    have ne: "a @ b \<noteq> []" using False by simp
    show ?thesis
      unfolding replay_step [OF False lr] replay_step [OF ne t]
      using 1(1) [OF False lr [symmetric] refl _ w] 1(2) [OF False lr [symmetric] refl _ _ w]
        1(3) [OF False lr [symmetric] refl _ _ _ _ _ w]
      by (auto split: option.split)
  qed
qed

definition plain_text :: "string \<Rightarrow> bool" where
  "plain_text s \<longleftrightarrow> NL \<notin> set s \<and> NUL \<notin> set s"

lemma take_line_whole: "NL \<notin> set l \<Longrightarrow> length l < n \<Longrightarrow> take_line n (l @ [NL]) = (l @ [NL], [])"
proof (induction l arbitrary: n)
  case Nil
  then show ?case by (cases n) auto
next
  case (Cons ch l)
  then show ?case by (cases n) auto
qed

lemma cstr_plain: "NUL \<notin> set s \<Longrightarrow> cstr s = s" "NUL \<notin> set s \<Longrightarrow> cstr (s @ NUL # t) = s"
  by (auto simp: cstr_def takeWhile_eq_all_conv takeWhile_append)

lemma replay_line:
  assumes "plain_text l" "length l \<le> 4094"
  shows "replay_entries cf e now (l @ [NL]) cnt d =
    (case handle_request cf e now None (l @ [NUL]) d of
       None \<Rightarrow> None
     | Some (st, _, d1) \<Rightarrow> Some (if st = Finished 0 then (Suc (fst cnt), snd cnt) else (fst cnt, Suc (snd cnt)), d1))"
proof -
  have "take_line 4095 (l @ [NL]) = (l @ [NL], [])" using assms by (intro take_line_whole) (auto simp: plain_text_def)
  moreover have "cstr (l @ [NL]) = l @ [NL]" using assms(1) by (intro cstr_plain) (auto simp: plain_text_def)
  ultimately show ?thesis by (subst replay_step) (auto split: option.split)
qed

lemma journal_commands:
  "find_command ''update'' = Some (list_of_commands ! 0)" "cmd_handler (list_of_commands ! 0) = H_update"
  "find_command ''wrote'' = Some (list_of_commands ! 1)" "cmd_handler (list_of_commands ! 1) = H_wrote"
  "find_command ''forget'' = Some (list_of_commands ! 5)" "cmd_handler (list_of_commands ! 5) = H_forget"
  "command_check_context None (list_of_commands ! 0)" "command_check_context None (list_of_commands ! 1)"
  "command_check_context None (list_of_commands ! 5)"
  by code_simp+

lemma field_prefix:
  "buffer_get_field (''update '' @ s @ [NUL]) = Some (Some (''update'', s @ [NUL]))"
  "buffer_get_field (''wrote '' @ s @ [NUL]) = Some (Some (''wrote'', s @ [NUL]))"
  "buffer_get_field (''forget '' @ s @ [NUL]) = Some (Some (''forget'', s @ [NUL]))"
  by (simp_all add: buffer_get_field_def cstr_def)

lemma journal_requests:
  "handle_request cf e now None (''update '' @ s @ [NUL]) d =
     map_option (\<lambda>(r, so1, d1). (Finished r, so1, d1))
       (handle_request_update cf e now (''Usage: '' @ the (cmd_syntax (list_of_commands ! 0))) None (s @ [NUL]) d)"
  "handle_request cf e now None (''wrote '' @ s @ [NUL]) d = handle_request_wrote cf e now None (s @ [NUL]) d"
  "handle_request cf e now None (''forget '' @ s @ [NUL]) d =
     handle_request_forget cf e (list_of_commands ! 5) None (s @ [NUL]) d"
  unfolding handle_request_def field_prefix
  by (simp_all add: journal_commands [simplified] socket_permission_check_def run_handler_def)

lemma get_field_plain:
  assumes "plain_text s" "CHR '' '' \<notin> set s" "CHR 0x5C \<notin> set s"
  shows "buffer_get_field (s @ [NUL]) = Some (Some (s, []))"
proof -
  have "get_field_loop (s @ [NUL]) fld = Some (cstr (fld @ s), [])" for fld
    using assms by (induction s arbitrary: fld) (auto simp: plain_text_def)
  then show ?thesis using assms(1) by (simp add: buffer_get_field_def cstr_plain plain_text_def)
qed

section \<open>Entries on the recovering side\<close>

text \<open>The environment of the recovery: the databases are still there, and memory can be had.\<close>

definition recovers :: "daemon_env \<Rightarrow> bool" where
  "recovers e \<longleftrightarrow> (\<forall>f. file_stat e f = Regular_file) \<and> de_malloc e"

lemma tree_size:
  assumes "cache_ok (dcache d)"
  shows "length (tree (dcache d)) = card (dom (view d))"
proof -
  obtain qs where q: "queue_is (dcache d) qs" using assms by (auto dest: cache_ok_queue)
  have "dom (view d) = set (map fst (tree (dcache d)))"
    using keys_item [of _ "dcache d"] by (auto simp: view_item dom_def)
  then show ?thesis using keys_distinct [OF q] by (metis distinct_card length_map)
qed

lemma update_item_recovers:
  assumes "recovers e" "run_state d = RUNNING" "d_item d f \<noteq> None \<or> length (tree (dcache d)) < 2 ^ 56"
  shows "\<exists>d'. update_item cf e now f d = Some (Inr d')"
  using assms by (auto simp: update_item_def recovers_def Let_def)

lemma replay_update:
  assumes ok: "cache_ok (dcache d)" and e: "recovers e" and st: "run_state d = RUNNING"
    and b: "buffer_get_field b = Some (Some (f0, rest))"
    and room: "d_item d (get_abs_path cf f0) \<noteq> None \<or> length (tree (dcache d)) < 2 ^ 56"
  shows "\<exists>r d'. handle_request_update cf e now usage None b d = Some (r, None, d') \<and>
    cache_ok (dcache d') \<and> run_state d' = RUNNING \<and> view d' = updated (get_abs_path cf f0) rest (view d)"
proof -
  let ?f = "get_abs_path cf f0" and ?d1 = "d\<lparr>stats_updates_received := stats_updates_received d + 1\<rparr>"
  obtain d2 where d2: "update_item cf e now ?f ?d1 = Some (Inr d2)"
    using update_item_recovers [OF e, of ?d1 ?f] st room by auto
  have ok2: "cache_ok (dcache d2)" using update_item_keeps [OF d2] ok by simp
  obtain vs where vs: "update_values ?f rest 0 d2 = Some vs"
    using update_values_total [OF get_field_ended [OF b]] update_item_view(3) [OF d2] by blast
  have "view (read_daemon vs) ?f \<noteq> None"
    using update_values_view [OF vs] update_item_view(3) [OF d2] by (fastforce simp: view_item)
  then obtain d5 where d5: "queue_if_due cf now ?f (read_daemon vs) = Some d5"
    using queue_if_due_total update_values_keeps [OF vs ok2] by (metis view_None)
  have "\<exists>r d'. handle_request_update cf e now usage None b d = Some (r, None, d')"
    using b d2 vs d5
    by (cases vs) (auto simp: handle_request_update_def access_allowed_def send_response_def)
  then obtain r d' where h: "handle_request_update cf e now usage None b d = Some (r, None, d')" by blast
  have "access_allowed cf (None = (None :: listen_socket_t option)) ?f" by (simp add: access_allowed_def)
  from update_added(1) [OF h ok b this d2] show ?thesis
    using h handle_request_update_keeps [OF h ok] st by auto
qed

lemma replay_wrote:
  assumes ok: "cache_ok (dcache d)" and st: "run_state d = RUNNING" and f: "NUL \<notin> set f"
  shows "\<exists>d'. handle_request_wrote cf e now None (f @ [NUL]) d = Some (Finished 0, None, d') \<and>
    cache_ok (dcache d') \<and> run_state d' = RUNNING \<and>
    view d' = (case view d f of None \<Rightarrow> view d | Some (vs, s) \<Rightarrow> (view d)(f := Some ([], s)))"
proof (cases "d_item d f")
  case None
  then have "view d f = None" by (simp add: view_None)
  then show ?thesis using None assms by (simp add: handle_request_wrote_def cstr_plain)
next
  case (Some ci)
  obtain qs where q: "queue_is (dcache d) qs" using ok by (auto dest: cache_ok_queue)
  obtain d1 c where c: "on_cache (set_item f (wipe_ci_values cf e now)) d = Some d1"
    "on_cache (remove_from_queue f) d1 = Some (d\<lparr>dcache := c\<rparr>)"
    "cache_data c = (cache_data (dcache d))(f := Some (item_data (wipe_ci_values cf e now ci)))"
    using wipe_and_remove [OF q Some] by blast
  have h: "handle_request_wrote cf e now None (f @ [NUL]) d = Some (Finished 0, None, d\<lparr>dcache := c\<rparr>)"
    using Some c(1,2) f by (simp add: handle_request_wrote_def cstr_plain)
  have "view (d\<lparr>dcache := c\<rparr>) = (case view d f of None \<Rightarrow> view d | Some (vs, s) \<Rightarrow> (view d)(f := Some ([], s)))"
    using Some by (auto simp: view_def c(3) cache_data_def item_data_def wipe_ci_values_def fun_eq_iff)
  then show ?thesis using h handle_request_wrote_keeps [OF h ok] st by simp
qed

lemma replay_forget:
  assumes ok: "cache_ok (dcache d)" and st: "run_state d = RUNNING"
    and f: "plain_text f" "CHR '' '' \<notin> set f" "CHR 0x5C \<notin> set f" "get_abs_path cf f = f"
  shows "\<exists>r d'. handle_request_forget cf e c None (f @ [NUL]) d = Some (r, None, d') \<and>
    cache_ok (dcache d') \<and> run_state d' = RUNNING \<and> view d' = (view d)(f := None)"
proof -
  obtain qs where q: "queue_is (dcache d) qs" using ok by (auto dest: cache_ok_queue)
  obtain c1 where c1: "g_tree_remove f (dcache d) = Some (cache_data (dcache d) f \<noteq> None, c1)"
    "cache_data c1 = (cache_data (dcache d))(f := None)"
    using cq.forget [OF q, of f] by blast
  have "\<exists>r. handle_request_forget cf e c None (f @ [NUL]) d = Some (r, None, d\<lparr>dcache := c1\<rparr>)"
    using c1(1) get_field_plain [OF f(1-3)] f(4)
    by (auto simp: handle_request_forget_def with_field_def access_allowed_def respond_def send_response_def Let_def)
  then obtain r where h: "handle_request_forget cf e c None (f @ [NUL]) d = Some (r, None, d\<lparr>dcache := c1\<rparr>)" by blast
  have "view (d\<lparr>dcache := c1\<rparr>) = (view d)(f := None)" by (auto simp: view_def c1(2) fun_eq_iff)
  then show ?thesis using h handle_request_forget_keeps [OF h ok] st by auto
qed

end
