(* ===== verification/Daemon_Recovery.thy ===== *)
theory Daemon_Recovery
  imports Daemon_Replay Daemon_Spec
begin

text \<open>
  Runs of the caching daemon with a journal (\<open>rrd_daemon.c\<close>), as long as one journal file is written:
  updates, flushes, forgotten files, and the work of the queue threads, in any order. When the daemon
  crashes at any point of such a run, the replay of the journal brings back what was not written.
\<close>

section \<open>Runs\<close>





definition in_flight :: "(string \<times> string list) list \<Rightarrow> string \<Rightarrow> string list" where
  "in_flight ws f = concat (map snd (filter (\<lambda>w. fst w = f) ws))"


lemma in_flight_append [simp]: "in_flight (us @ ws) f = in_flight us f @ in_flight ws f"
  by (simp add: in_flight_def)

lemma in_flight_Cons [simp]: "in_flight ((g, vs) # ws) f = (if g = f then vs @ in_flight ws f else in_flight ws f)"
  by (simp add: in_flight_def)

lemma in_flight_Nil [simp]: "in_flight [] f = []"
  by (simp add: in_flight_def)

section \<open>The simulation\<close>
















section \<open>The properties\<close>



















end
