(* ===== verification/Reduce.thy ===== *)
theory Reduce
  imports Rrd_Format Fetch
begin

text \<open>
  Reducing the resolution of fetched data (\<open>reduce_data\<close> of \<open>rrd_graph.c\<close>, used by graphs and by
  \<open>rrd_xport.c\<close>): several rows become one, in place. \<open>None\<close> is an access outside the array, a division
  by zero, or the exit of the program after its sanity check.
\<close>

section \<open>Combining rows\<close>

definition averages :: "cf_en set" where
  "averages = {CF_HWPREDICT, CF_MHWPREDICT, CF_DEVSEASONAL, CF_DEVPREDICT, CF_SEASONAL, CF_AVERAGE}"

text \<open>One source value: the accumulated value and the number of values that are known.\<close>

definition reduce_value :: "cf_en \<Rightarrow> dbl \<Rightarrow> dbl \<times> nat \<Rightarrow> dbl \<times> nat" where
  "reduce_value cf v acc =
     (case acc of (newval, validval) \<Rightarrow>
        if isnan v then acc
        else
          (if isnan newval then v
           else case cf of
              CF_MINIMUM \<Rightarrow> if flt newval v then newval else v
            | CF_FAILURES \<Rightarrow> if flt v newval then newval else v
            | CF_MAXIMUM \<Rightarrow> if flt v newval then newval else v
            | CF_LAST \<Rightarrow> v
            | _ \<Rightarrow> fadd newval v, Suc validval))"

definition reduce_final :: "cf_en \<Rightarrow> dbl \<times> nat \<Rightarrow> dbl" where
  "reduce_final cf acc =
     (case acc of (newval, validval) \<Rightarrow>
        if validval = 0 then DNAN
        else if cf \<in> averages then fdiv newval (dbl_of_ulong (of_nat validval)) else newval)"

text \<open>The values of a column in the source rows that become one row.\<close>

fun reduce_column :: "cf_en \<Rightarrow> nat \<Rightarrow> dbl list \<Rightarrow> nat \<Rightarrow> nat \<Rightarrow> dbl \<times> nat \<Rightarrow> (dbl \<times> nat) option" where
  "reduce_column cf ds xs p 0 acc = Some acc" 
| "reduce_column cf ds xs p (Suc k) acc =
     (if p < length xs then reduce_column cf ds xs (p + ds) k (reduce_value cf (xs ! p) acc) else None)"

text \<open>Writing at the destination pointer.\<close>

definition put_value :: "nat \<Rightarrow> dbl \<Rightarrow> dbl list \<Rightarrow> dbl list option" where
  "put_value p v xs = (if p < length xs then Some (xs[p := v]) else None)"

fun put_unknown :: "nat \<Rightarrow> nat \<Rightarrow> dbl list \<Rightarrow> dbl list option" where
  "put_unknown p 0 xs = Some xs"
| "put_unknown p (Suc k) xs = Option.bind (put_value p DNAN xs) (put_unknown (Suc p) k)"

text \<open>One destination row: \<open>sp\<close> and \<open>dp\<close> are the pointers, \<open>k\<close> columns from \<open>col\<close> on are left.\<close>

fun reduce_row :: "cf_en \<Rightarrow> nat \<Rightarrow> nat \<Rightarrow> nat \<Rightarrow> nat \<Rightarrow> nat \<Rightarrow> nat \<Rightarrow> dbl list \<Rightarrow> dbl list option" where
  "reduce_row cf f ds sp dp col 0 xs = Some xs"
| "reduce_row cf f ds sp dp col (Suc k) xs =
     Option.bind (reduce_column cf ds xs (sp + col) f (DNAN, 0))
       (\<lambda>acc. Option.bind (put_value dp (reduce_final cf acc) xs)
          (reduce_row cf f ds sp (Suc dp) (Suc col) k))"

text \<open>All destination rows; \<open>rc\<close> source rows are left. The result has the destination pointer.\<close>

function reduce_rows :: "cf_en \<Rightarrow> nat \<Rightarrow> nat \<Rightarrow> int \<Rightarrow> nat \<Rightarrow> nat \<Rightarrow> dbl list \<Rightarrow> (nat \<times> dbl list) option" where
  "reduce_rows cf f ds rc sp dp xs =
     (if f = 0 then None
      else if rc \<ge> int f then
        Option.bind (reduce_row cf f ds sp dp 0 ds xs)
          (reduce_rows cf f ds (rc - int f) (sp + ds * f) (dp + ds))
      else Some (dp, xs))"
  by pat_completeness auto
termination by (relation "measure (\<lambda>(cf, f, ds, rc, sp, dp, xs). nat rc)") auto

declare reduce_rows.simps [simp del]

section \<open>The whole function\<close>

definition reduce_factor :: "ulong \<Rightarrow> ulong \<Rightarrow> int" where
  "reduce_factor st cur = dbl_to_int (fceil (fdiv (dbl_of_ulong st) (dbl_of_ulong cur)))"

text \<open>The result: start, end, step, and the array.\<close>

definition reduce_data ::
  "cf_en \<Rightarrow> ulong \<Rightarrow> int \<Rightarrow> int \<Rightarrow> ulong \<Rightarrow> ulong \<Rightarrow> dbl list \<Rightarrow> (int \<times> int \<times> ulong \<times> dbl list) option" where
  "reduce_data cf cur start stop st0 dsc xs =
     (let fi = reduce_factor st0 cur; st = cur * word_of_int fi; f = nat fi; ds = unat dsc in
      if cur = 0 \<or> st = 0 \<or> fi \<le> 0 then None
      else
        (let eo = utime stop mod st; so = utime start mod st;
             skip = (if so \<noteq> 0 then word_of_int fi - so div cur else 0);
             rc = utime (stop - start) div cur - skip - (if eo \<noteq> 0 then eo div cur else 0)
         in if rc mod word_of_int fi \<noteq> 0 then None
            else
              Option.bind (if so \<noteq> 0 then put_unknown 0 ds xs else Some xs)
                (\<lambda>xs1. Option.bind
                   (reduce_rows cf f ds (sint rc) (unat skip * ds) (if so \<noteq> 0 then ds else 0) xs1)
                   (\<lambda>(dp, xs2). map_option
                      (\<lambda>xs3. (if so \<noteq> 0 then sint (utime start - so) else start,
                             if eo \<noteq> 0 then sint (utime stop - eo + st) else stop, st, xs3))
                      (if eo \<noteq> 0 then put_unknown dp ds xs2 else Some xs2)))))"

end
