(* ===== verification/Reduce_Spec.thy ===== *)
theory Reduce_Spec
  imports Reduce Archive_Fetch
begin

text \<open>
  Reducing fetched data in place is correct: no source value is overwritten before it has been used, and
  every resulting row combines exactly the source rows of its interval of time.
\<close>

section \<open>Rows\<close>

text \<open>The reference: the values of a column, combined.\<close>

definition combine :: "cf_en \<Rightarrow> dbl list \<Rightarrow> dbl" where
  "combine cf vs = reduce_final cf (fold (reduce_value cf) vs (DNAN, 0))"

definition column :: "dbl list \<Rightarrow> nat \<Rightarrow> nat \<Rightarrow> nat \<Rightarrow> dbl list" where
  "column xs ds p f = map (\<lambda>i. xs ! (p + i * ds)) [0..<f]"

lemma column_Suc: "column xs ds p (Suc k) = xs ! p # column xs ds (p + ds) k"
  by (simp add: column_def map_upt_Suc ac_simps del: upt_Suc)

lemma reduce_column_ok:
  "k = 0 \<or> p + (k - 1) * ds < length xs \<Longrightarrow>
     reduce_column cf ds xs p k acc = Some (fold (reduce_value cf) (column xs ds p k) acc)"
proof (induction k arbitrary: p acc)
  case 0
  then show ?case by (simp add: column_def)
next
  case (Suc k)
  then have "p < length xs" "k = 0 \<or> (p + ds) + (k - 1) * ds < length xs"
    by (cases k; simp; fail | cases k; simp)+
  then show ?case using Suc.IH by (simp add: column_Suc)
qed

lemma put_unknown_ok:
  "p + k \<le> length xs \<Longrightarrow> \<exists>ys. put_unknown p k xs = Some ys \<and> length ys = length xs \<and>
     (\<forall>q. ys ! q = (if p \<le> q \<and> q < p + k then DNAN else xs ! q))"
proof (induction k arbitrary: p xs)
  case (Suc k)
  then obtain ys where "put_unknown (Suc p) k (xs[p := DNAN]) = Some ys" "length ys = length xs"
    "\<forall>q. ys ! q = (if Suc p \<le> q \<and> q < Suc p + k then DNAN else xs[p := DNAN] ! q)"
    using Suc.IH [of "Suc p" "xs[p := DNAN]"] by auto
  then show ?case using Suc.prems by (auto simp: put_value_def nth_list_update)
qed auto

lemma column_other:
  "length ys = length xs \<Longrightarrow> (\<And>q. p \<le> q \<Longrightarrow> ys ! q = xs ! q) \<Longrightarrow> column ys ds p f = column xs ds p f"
  by (simp add: column_def)

text \<open>One row: the destination never runs ahead of the source.\<close>

lemma reduce_row_ok:
  "dp + k \<le> length xs \<Longrightarrow> 0 < f \<Longrightarrow> sp + (f - 1) * ds + col + k \<le> length xs \<Longrightarrow> dp \<le> sp + col \<Longrightarrow>
     \<exists>ys. reduce_row cf f ds sp dp col k xs = Some ys \<and> length ys = length xs \<and>
       (\<forall>q. ys ! q = (if dp \<le> q \<and> q < dp + k then combine cf (column xs ds (sp + col + (q - dp)) f) else xs ! q))"
proof (induction k arbitrary: dp col xs)
  case (Suc k)
  let ?v = "combine cf (column xs ds (sp + col) f)" let ?xs = "xs[dp := ?v]"
  have c: "reduce_column cf ds xs (sp + col) f (DNAN, 0) =
      Some (fold (reduce_value cf) (column xs ds (sp + col) f) (DNAN, 0))"
    using Suc.prems by (intro reduce_column_ok) auto
  obtain ys where ys: "reduce_row cf f ds sp (Suc dp) (Suc col) k ?xs = Some ys" "length ys = length xs"
    "\<forall>q. ys ! q = (if Suc dp \<le> q \<and> q < Suc dp + k
       then combine cf (column ?xs ds (sp + Suc col + (q - Suc dp)) f) else ?xs ! q)"
    using Suc.IH [of "Suc dp" ?xs "Suc col"] Suc.prems by auto
  have cl: "column ?xs ds (sp + Suc col + j) f = column xs ds (sp + Suc col + j) f" for j
    using Suc.prems by (intro column_other) (auto simp: nth_list_update)
  have ix: "sp + Suc col + (q - Suc dp) = sp + col + (q - dp)" if "Suc dp \<le> q" for q using that by simp
  have "ys ! q = (if dp \<le> q \<and> q < dp + Suc k then combine cf (column xs ds (sp + col + (q - dp)) f) else xs ! q)" for q
  proof (cases "Suc dp \<le> q \<and> q < Suc dp + k")
    case True
    then have "ys ! q = combine cf (column xs ds (sp + Suc col + (q - Suc dp)) f)" using ys(3) by (simp only: cl if_True simp_thms)
    then show ?thesis using True by (simp only: ix) auto
  next
    case False
    then have "ys ! q = ?xs ! q" using ys(3) by (simp only: if_False simp_thms)
    then show ?thesis using False Suc.prems(1) by (auto simp: nth_list_update)
  qed
  moreover have "reduce_row cf f ds sp dp col (Suc k) xs = Some ys"
    using c ys(1) Suc.prems(1) by (simp add: put_value_def combine_def)
  ultimately show ?case using ys(2) by auto
qed auto

lemma reduce_rows_ok:
  "0 < f \<Longrightarrow> dp \<le> sp \<Longrightarrow> sp + R * f * ds \<le> length xs \<Longrightarrow>
     \<exists>ys. reduce_rows cf f ds (int (R * f)) sp dp xs = Some (dp + R * ds, ys) \<and> length ys = length xs \<and>
       (\<forall>q. ys ! q = (if dp \<le> q \<and> q < dp + R * ds
          then combine cf (column xs ds (sp + (q - dp) div ds * (f * ds) + (q - dp) mod ds) f) else xs ! q))"
proof (induction R arbitrary: sp dp xs)
  case 0
  then show ?case by (subst reduce_rows.simps) auto
next
  case (Suc R)
  have fds: "ds \<le> f * ds" "(f - 1) * ds + ds = f * ds" using Suc.prems(1) by (cases f; simp)+
  have len: "sp + f * ds + R * f * ds \<le> length xs" using Suc.prems(3) by (simp add: algebra_simps)
  obtain zs where zs: "reduce_row cf f ds sp dp 0 ds xs = Some zs" "length zs = length xs"
    "\<forall>q. zs ! q = (if dp \<le> q \<and> q < dp + ds then combine cf (column xs ds (sp + (q - dp)) f) else xs ! q)"
    using reduce_row_ok [of dp ds xs f sp ds 0 cf] Suc.prems fds len by auto
  obtain ys where ys: "reduce_rows cf f ds (int (R * f)) (sp + f * ds) (dp + ds) zs = Some (dp + ds + R * ds, ys)"
    "length ys = length zs"
    "\<forall>q. ys ! q = (if dp + ds \<le> q \<and> q < dp + ds + R * ds
          then combine cf (column zs ds (sp + f * ds + (q - (dp + ds)) div ds * (f * ds) + (q - (dp + ds)) mod ds) f) else zs ! q)"
    using Suc.IH [of "dp + ds" "sp + f * ds" zs] Suc.prems fds zs(2) len by auto
  have sp: "column zs ds (sp + f * ds + j) f = column xs ds (sp + f * ds + j) f" for j
    using Suc.prems(2) fds zs by (intro column_other) auto
  have "ys ! q = (if dp \<le> q \<and> q < dp + Suc R * ds
          then combine cf (column xs ds (sp + (q - dp) div ds * (f * ds) + (q - dp) mod ds) f) else xs ! q)" for q
  proof (cases "dp + ds \<le> q \<and> q < dp + ds + R * ds")
    case True
    then have "0 < ds" "ds \<le> q - dp" by (auto intro: Nat.gr0I)
    then have "(q - dp) div ds = Suc ((q - (dp + ds)) div ds)" "(q - dp) mod ds = (q - (dp + ds)) mod ds"
      using le_div_geq [of ds "q - dp"] le_mod_geq [of ds "q - dp"] by (simp_all add: diff_diff_left)
    moreover have "ys ! q = combine cf (column xs ds (sp + f * ds + ((q - (dp + ds)) div ds * (f * ds) + (q - (dp + ds)) mod ds)) f)"
      using ys(3) True by (simp only: if_True simp_thms add.assoc [of _ _ "_ mod _"] sp)
    ultimately show ?thesis using True by (simp add: ac_simps distrib_left)
  next
    case False
    then show ?thesis using ys(3) zs(3) by (auto simp: div_less mod_less)
  qed
  moreover have "reduce_rows cf f ds (int (Suc R * f)) sp dp xs = Some (dp + Suc R * ds, ys)"
    using zs(1) ys(1) Suc.prems(1) by (subst reduce_rows.simps) (simp add: algebra_simps)
  ultimately show ?case using ys(2) zs(2) by auto
qed

section \<open>The array\<close>

text \<open>What row \<open>k\<close> of the result holds in column \<open>c\<close>, in units of the source step: the source covers the
  times from \<open>a\<close> to \<open>b\<close>, and row \<open>k\<close> the \<open>f\<close> units after \<open>(a div f + k) * f\<close>.\<close>

definition reduced :: "cf_en \<Rightarrow> nat \<Rightarrow> nat \<Rightarrow> nat \<Rightarrow> nat \<Rightarrow> dbl list \<Rightarrow> nat \<Rightarrow> nat \<Rightarrow> dbl" where
  "reduced cf f ds a b xs k c =
     (let lo = (a div f + k) * f in
      if a \<le> lo \<and> lo + f \<le> b then combine cf (map (\<lambda>i. xs ! ((lo + i - a) * ds + c)) [0..<f]) else DNAN)"

definition round_up :: "nat \<Rightarrow> nat \<Rightarrow> nat" where "round_up n f = (n + f - 1) div f"

lemma round_up_eq:
  assumes "0 < f" shows "round_up n f = n div f + (if n mod f = 0 then 0 else 1)"
proof (cases "n mod f")
  case 0
  then have "n + f - 1 = f * (n div f) + (f - 1)" using assms mult_div_mod_eq [of f n] by linarith
  moreover have "(f * (n div f) + (f - 1)) div f = n div f" using assms by (subst div_mult_self4) auto
  ultimately show ?thesis using 0 by (simp only: round_up_def if_True add_0_right simp_thms)
next
  case (Suc r)
  then have "n + f - 1 = f * (n div f + 1) + r" "r < f"
    using assms mult_div_mod_eq [of f n] mod_less_divisor [of f n] by (simp_all add: distrib_left)
  moreover have "(f * (n div f + 1) + r) div f = n div f + 1" using assms \<open>r < f\<close> by (subst div_mult_self4) auto
  ultimately show ?thesis using Suc by (simp only: round_up_def) simp
qed

lemma round_up_mult: "0 < f \<Longrightarrow> round_up n f * f = n div f * f + (if n mod f = 0 then 0 else f)"
  by (simp add: round_up_eq distrib_right)

lemma round_up_le:
  assumes "0 < f" "round_up a f \<le> b div f" shows "a \<le> b"
proof -
  have "a = a div f * f + a mod f" "a mod f < f" "round_up a f * f \<le> b div f * f" "b div f * f \<le> b"
    using assms by (simp_all add: mult_le_mono1)
  then show ?thesis using round_up_mult [OF assms(1), of a] by (simp only: split: if_splits)
qed

lemma put_if_ok:
  "(u \<longrightarrow> p + k \<le> length xs) \<Longrightarrow>
     \<exists>ys. (if u then put_unknown p k xs else Some xs) = Some ys \<and> length ys = length xs \<and>
       (\<forall>q. ys ! q = (if u \<and> p \<le> q \<and> q < p + k then DNAN else xs ! q))"
  using put_unknown_ok [of p k xs] by auto

lemma reduce_array_ok:
  assumes f: "0 < f" and skip: "u \<longrightarrow> 1 \<le> skip" and tail: "w \<longrightarrow> 1 \<le> rest"
    and len: "(skip + R * f + rest) * ds \<le> length xs" and dp: "dp = (if u then ds else 0)"
  shows "\<exists>xs1 xs2 ys. (if u then put_unknown 0 ds xs else Some xs) = Some xs1 \<and>
    reduce_rows cf f ds (int (R * f)) (skip * ds) dp xs1 = Some (dp + R * ds, xs2) \<and>
    (if w then put_unknown (dp + R * ds) ds xs2 else Some xs2) = Some ys \<and> length ys = length xs \<and>
    (\<forall>k c. c < ds \<longrightarrow> k < of_bool u + R + of_bool w \<longrightarrow>
       ys ! (k * ds + c) = (if u \<and> k = 0 \<or> k = of_bool u + R then DNAN
         else combine cf (map (\<lambda>i. xs ! ((skip + (k - of_bool u) * f + i) * ds + c)) [0..<f])))"
proof -
  have sd: "dp \<le> skip * ds" and dp': "dp = of_bool u * ds" using skip dp by (cases skip; simp)+
  have len': "skip * ds + R * f * ds \<le> length xs" using len by (simp add: algebra_simps)
  have u: "u \<longrightarrow> 0 + ds \<le> length xs" using len' sd dp by (metis add.commute add_0 le_trans add_leD1)
  obtain xs1 where x1: "(if u then put_unknown 0 ds xs else Some xs) = Some xs1" "length xs1 = length xs"
    "\<And>q. xs1 ! q = (if u \<and> q < ds then DNAN else xs ! q)"
    using put_if_ok [of u 0 ds xs] u by auto
  have keep: "xs1 ! (skip * ds + q) = xs ! (skip * ds + q)" for q
  proof -
    have "u \<longrightarrow> ds \<le> skip * ds + q" using sd dp by (metis trans_le_add1)
    then show ?thesis using x1(3) [of "skip * ds + q"] by (auto simp: not_less)
  qed
  obtain xs2 where x2: "reduce_rows cf f ds (int (R * f)) (skip * ds) dp xs1 = Some (dp + R * ds, xs2)"
    "length xs2 = length xs"
    "\<And>q. xs2 ! q = (if dp \<le> q \<and> q < dp + R * ds
        then combine cf (column xs1 ds (skip * ds + (q - dp) div ds * (f * ds) + (q - dp) mod ds) f) else xs1 ! q)"
    using reduce_rows_ok [OF f sd, of R ds xs1 cf] len' x1(2) by auto
  have "R * ds \<le> R * f * ds" using f by (cases f) auto
  moreover have "w \<longrightarrow> ds \<le> rest * ds" using tail by (cases rest) auto
  ultimately have "w \<longrightarrow> dp + R * ds + ds \<le> length xs2"
    using len sd x2(2) unfolding distrib_right by linarith
  then obtain ys where ys: "(if w then put_unknown (dp + R * ds) ds xs2 else Some xs2) = Some ys" "length ys = length xs"
    "\<And>q. ys ! q = (if w \<and> dp + R * ds \<le> q \<and> q < dp + R * ds + ds then DNAN else xs2 ! q)"
    using put_if_ok [of w "dp + R * ds" ds xs2] x2(2) by auto
  have "ys ! (k * ds + c) = (if u \<and> k = 0 \<or> k = of_bool u + R then DNAN
         else combine cf (map (\<lambda>i. xs ! ((skip + (k - of_bool u) * f + i) * ds + c)) [0..<f]))"
    if c: "c < ds" and k: "k < of_bool u + R + of_bool w" for k c
  proof -
    have lt: "k * ds + c < m * ds \<longleftrightarrow> k < m" for m
      using c by (metis div_less_iff_less_mult div_mult_self3 div_less add_0 gr_implies_not0 not_gr_zero add.commute)
    have ge: "m * ds \<le> k * ds + c \<longleftrightarrow> m \<le> k" for m using lt [of m] by linarith
    consider "u" "k = 0" | "k = of_bool u + R" "w" | "of_bool u \<le> k" "k < of_bool u + R"
      using k by (cases u; cases w) force+
    then show ?thesis
    proof cases
      case 1
      then show ?thesis using c x1(3) x2(3) ys(3) dp by simp
    next
      case 2
      then have "ys ! (k * ds + c) = DNAN"
        using ys(3) [of "k * ds + c"] c dp' by (simp add: algebra_simps)
      then show ?thesis using 2 by simp
    next
      case 3
      define m where "m = k - of_bool u"
      have "k = of_bool u + m" using 3 by (simp add: m_def)
      then have m: "k * ds + c = dp + (m * ds + c)" unfolding dp' by (simp add: distrib_right)
      have "m < R" using 3 by (simp add: m_def)
      then have q: "m * ds + c < R * ds"
        using c by (metis div_less_iff_less_mult div_mult_self3 div_less add_0 gr_implies_not0 not_gr_zero add.commute)
      have "ys ! (k * ds + c) = combine cf (column xs1 ds (skip * ds + m * (f * ds) + c) f)"
        using ys(3) [of "k * ds + c"] x2(3) [of "k * ds + c"] q c unfolding m by simp
      also have "column xs1 ds (skip * ds + m * (f * ds) + c) f =
          map (\<lambda>i. xs ! ((skip + (k - of_bool u) * f + i) * ds + c)) [0..<f]"
        unfolding m_def [symmetric] column_def
      proof (intro list.map_cong0)
        fix i
        show "xs1 ! (skip * ds + m * (f * ds) + c + i * ds) = xs ! ((skip + m * f + i) * ds + c)"
          using keep [of "m * (f * ds) + c + i * ds"] by (simp add: algebra_simps)
      qed
      finally show ?thesis using 3 by auto
    qed
  qed
  then show ?thesis using x1(1) x2(1) ys(1,2) by blast
qed

section \<open>The whole function\<close>

lemma unat_utime: "n < 2 ^ 62 \<Longrightarrow> unat (utime (int n)) = n"
  by (simp add: utime_def unat_of_nat)

lemma reduce_arith:
  fixes a b f p q r s up sk :: nat
  assumes "a = p + r" "b = q + s" "up = p + (if r = 0 then 0 else f)" "up \<le> q" "r < f" "sk = (if r = 0 then 0 else f - r)"
  shows "sk \<le> b - a" "s \<le> b - a - sk" "b - a - sk - s = q - up"
  using assms by (auto split: if_splits)

text \<open>The words of the function: the times are \<open>a\<close> and \<open>b\<close> source steps, the factor is \<open>f\<close>.\<close>

lemma reduce_words:
  fixes a b f :: nat and cur :: ulong
  defines "C \<equiv> unat cur" and "st \<equiv> cur * word_of_int (int f)"
  assumes C: "0 < C" and f: "0 < f" and fit: "(b + f) * C < 2 ^ 62" and le: "a \<le> b"
  defines "so \<equiv> utime (int (a * C)) mod st" and "eo \<equiv> utime (int (b * C)) mod st"
  defines "skip \<equiv> if so \<noteq> 0 then word_of_int (int f) - so div cur else 0"
  shows "unat st = f * C" and "unat so = a mod f * C" and "unat eo = b mod f * C"
    and "unat skip = (if a mod f = 0 then 0 else f - a mod f)"
    and "unat (utime (int (b * C) - int (a * C)) div cur) = b - a"
    and "unat (if eo \<noteq> 0 then eo div cur else 0) = b mod f"
proof -
  have "f * 1 \<le> f * C" "b * 1 \<le> b * C" using C by (intro mult_le_mono; simp)+
  then have b: "b < 2 ^ 62" "f < 2 ^ 62" "b * C < 2 ^ 62" "f * C < 2 ^ 62"
    using fit unfolding add_mult_distrib by linarith+
  have lt: "a mod f < f" using f by simp
  have aC: "a * C < 2 ^ 62" "a * C \<le> b * C" using b(3) le by (auto intro: le_less_trans [OF mult_le_mono1])
  have uf: "unat (word_of_int (int f) :: ulong) = f" using b(2) by (simp add: unat_of_nat)
  show st: "unat st = f * C"
    using b(4) by (simp add: st_def C_def unat_word_ariths uf unat_of_nat mod_less mult.commute del: of_int_of_nat_eq)
  show so: "unat so = a mod f * C" by (simp only: so_def unat_mod unat_utime [OF aC(1)] st mod_mult_mult2)
  show eo: "unat eo = b mod f * C" by (simp only: eo_def unat_mod unat_utime [OF b(3)] st mod_mult_mult2)
  have z: "so = 0 \<longleftrightarrow> a mod f = 0" "eo = 0 \<longleftrightarrow> b mod f = 0"
    using so eo C by (simp_all add: unat_eq_zero [symmetric])
  have q: "unat (so div cur) = a mod f" "unat (eo div cur) = b mod f"
    using C by (simp_all add: unat_div so eo C_def [symmetric])
  have "so div cur \<le> word_of_int (int f)" using lt by (simp only: word_le_nat_alt q uf)
  then have "unat (word_of_int (int f) - so div cur) = f - a mod f" by (simp only: unat_sub q uf)
  then show sk: "unat skip = (if a mod f = 0 then 0 else f - a mod f)"
    by (simp add: skip_def z)
  show "unat (utime (int (b * C) - int (a * C)) div cur) = b - a"
  proof -
    have "int (b * C) - int (a * C) = int ((b - a) * C)" using le by (simp add: of_nat_diff diff_mult_distrib aC(2))
    moreover have "(b - a) * C < 2 ^ 62" by (rule le_less_trans [OF mult_le_mono1 b(3)]) simp
    ultimately show ?thesis using C by (simp only: unat_div unat_utime C_def [symmetric]) simp
  qed
  show "unat (if eo \<noteq> 0 then eo div cur else 0) = b mod f" using z q by simp
qed

lemma reduced_index:
  assumes f: "0 < f" and ab: "round_up a f \<le> b div f" and k: "k < of_bool (a mod f \<noteq> 0) + (b div f - round_up a f) + of_bool (b mod f \<noteq> 0)"
  shows "reduced cf f ds a b xs k c =
    (if a mod f \<noteq> 0 \<and> k = 0 \<or> k = of_bool (a mod f \<noteq> 0) + (b div f - round_up a f) then DNAN
     else combine cf (map (\<lambda>i. xs ! (((if a mod f = 0 then 0 else f - a mod f) + (k - of_bool (a mod f \<noteq> 0)) * f + i) * ds + c)) [0..<f]))"
proof -
  define q r m where "q = a div f" "r = a mod f" "m = b div f"
  have a: "a = q * f + r" "r < f" and b: "b = m * f + b mod f" "b mod f < f" using f by (simp_all add: q_r_m_def)
  have up: "round_up a f = q + of_bool (r \<noteq> 0)" using round_up_eq [OF f, of a] by (simp add: q_r_m_def)
  have "q + k + 1 \<le> m \<longleftrightarrow> (q + k) * f + f \<le> b"
  proof
    assume "q + k + 1 \<le> m"
    then have "(q + k + 1) * f \<le> m * f" by (rule mult_le_mono1)
    then show "(q + k) * f + f \<le> b" using b by (simp add: distrib_right)
  next
    assume "(q + k) * f + f \<le> b"
    then have "(q + k + 1) * f < (m + 1) * f" using b by (simp add: distrib_right)
    then show "q + k + 1 \<le> m" by simp
  qed
  moreover have "k \<noteq> of_bool (r \<noteq> 0) + (m - round_up a f) \<longleftrightarrow> q + k + 1 \<le> m"
    using k ab unfolding up q_r_m_def [symmetric]
    by (cases "r = 0"; cases "b mod f = 0") auto
  moreover have "a \<le> (q + k) * f \<longleftrightarrow> r = 0 \<or> k \<noteq> 0"
    using a by (cases k) (auto simp: distrib_right)
  moreover have "(q + k) * f + i - a = (if r = 0 then 0 else f - r) + (k - of_bool (r \<noteq> 0)) * f + i"
    if "r = 0 \<or> k \<noteq> 0" for i
    using that a by (cases k) (auto simp: distrib_right)
  ultimately show ?thesis
    unfolding reduced_def Let_def q_r_m_def [symmetric] by (auto cong: map_cong)
qed

lemma sint_of_unat:
  assumes "unat w < 2 ^ 62" shows "sint (w :: ulong) = int (unat w)"
proof -
  have "int (unat w) < int (2 ^ 62)" using assms by (simp only: of_nat_less_iff)
  then have "uint w < 2 ^ 62" by simp
  moreover have "- (2 ^ 62) \<le> uint w" by (rule order_trans [OF _ uint_ge_0]) simp
  ultimately show ?thesis using sint_small [of "uint w"] by simp
qed

lemma unat_minus_mod:
  assumes "unat so = n mod f * C" "n * C < 2 ^ 62"
  shows "unat (utime (int (n * C)) - so) = n div f * f * C"
proof -
  have n: "n * C = n div f * f * C + n mod f * C" by (simp flip: distrib_right)
  have "so \<le> utime (int (n * C))" unfolding word_le_nat_alt assms(1) unat_utime [OF assms(2)] by (subst n) simp
  then have "unat (utime (int (n * C)) - so) = n * C - n mod f * C"
    by (simp only: unat_sub assms(1) unat_utime [OF assms(2)])
  then show ?thesis using n by linarith
qed

text \<open>C12. Reducing in place is correct: when the source rows cover a whole new interval, the result starts at
  the interval of the old start, ends after the interval of the old end, and row \<open>k\<close> holds in every column the
  combination of exactly the source values of its interval, or is unknown where the source does not cover the
  whole interval. No access leaves the array, and no source value is lost by being overwritten.\<close>

theorem reduce_correct:
  assumes "0 < unat cur" "reduce_factor st0 cur = int f" "0 < f" "round_up a f \<le> b div f"
    and "(b + f) * unat cur < 2 ^ 62" "(b - a) * unat dsc \<le> length xs"
  shows "\<exists>ys. reduce_data cf cur (int (a * unat cur)) (int (b * unat cur)) st0 dsc xs =
      Some (int (a div f * f * unat cur), int (round_up b f * f * unat cur), cur * of_nat f, ys) \<and>
    length ys = length xs \<and>
    (\<forall>k c. c < unat dsc \<longrightarrow> k < round_up b f - a div f \<longrightarrow> ys ! (k * unat dsc + c) = reduced cf f (unat dsc) a b xs k c)"
proof -
  define C st where "C = unat cur" "st = cur * word_of_int (int f)"
  define so eo where "so = utime (int (a * C)) mod st" "eo = utime (int (b * C)) mod st"
  define skip where "skip = (if so \<noteq> 0 then word_of_int (int f) - so div cur else 0)"
  define rc where "rc = utime (int (b * C) - int (a * C)) div cur - skip - (if eo \<noteq> 0 then eo div cur else 0)"
  define R where "R = b div f - round_up a f"
  have ab: "a \<le> b" by (rule round_up_le [OF assms(3,4)])
  note W = reduce_words [OF assms(1,3,5) ab, folded C_st_def, folded so_eo_def, folded skip_def]
  note A = reduce_arith [OF div_mult_mod_eq [symmetric] div_mult_mod_eq [symmetric] round_up_mult [OF assms(3)]
      mult_le_mono1 [OF assms(4)] mod_less_divisor [OF assms(3)] W(4)]
  have rc: "unat rc = R * f"
    using A unfolding rc_def R_def by (simp only: unat_sub word_le_nat_alt W(5,6) diff_mult_distrib)
  have Cp: "0 < C" using assms(1) by (simp add: C_st_def)
  have st: "cur * of_nat f = st" by (simp add: C_st_def)
  have "f * C \<le> (b + f) * C" "b * C \<le> (b + f) * C" by simp_all
  then have fit: "f * C < 2 ^ 62" "b * C < 2 ^ 62" "(b + f) * C < 2 ^ 62" using assms(5) by (simp_all only: C_st_def)
  have z: "so = 0 \<longleftrightarrow> a mod f = 0" "eo = 0 \<longleftrightarrow> b mod f = 0"
    using W(2,3) Cp by (simp_all add: unat_eq_zero [symmetric])
  have nz: "cur \<noteq> 0" "st \<noteq> 0" using assms(1,3) W(1) by (auto simp: C_st_def)
  have "1 * f \<le> C * f" using assms(1) by (intro mult_le_mono1) (simp add: C_st_def)
  then have "f < 2 ^ 62" using fit(1) unfolding mult.commute [of C] by linarith
  then have uf: "unat (word_of_int (int f) :: ulong) = f" by (simp add: unat_of_nat)
  have "R * f \<le> b" unfolding R_def diff_mult_distrib using ab by (simp add: div_times_less_eq_dividend le_diff_conv trans_le_add1)
  moreover have "b * 1 \<le> b * C" using assms(1) by (intro mult_le_mono2) (simp add: C_st_def)
  ultimately have "R * f < 2 ^ 62" using fit(2) by linarith
  then have "sint rc = int (R * f)" by (simp add: sint_of_unat rc)
  moreover have "rc mod word_of_int (int f) = 0"
    by (simp only: unat_eq_zero [symmetric] unat_mod uf rc) simp
  moreover have "(if so \<noteq> 0 then sint (utime (int (a * C)) - so) else int (a * C)) = int (a div f * f * C)"
  proof -
    have l: "a * C < 2 ^ 62" by (rule le_less_trans [OF mult_le_mono1 [OF ab] fit(2)])
    note u = unat_minus_mod [OF W(2) l]
    have "a div f * f * C \<le> a * C" by (intro mult_le_mono1) (simp add: div_times_less_eq_dividend)
    then have "sint (utime (int (a * C)) - so) = int (a div f * f * C)"
      using sint_of_unat [of "utime (int (a * C)) - so", unfolded u] l by linarith
    moreover have "a mod f = 0 \<Longrightarrow> a div f * f = a" using div_mult_mod_eq [of a f] by simp
    ultimately show ?thesis by (cases "a mod f = 0") (simp_all only: z simp_thms if_True if_False)
  qed
  moreover have "(if eo \<noteq> 0 then sint (utime (int (b * C)) - eo + st) else int (b * C)) = int (round_up b f * f * C)"
  proof (cases "b mod f = 0")
    case True
    then have "round_up b f * f = b" using round_up_mult [OF assms(3), of b] div_mult_mod_eq [of b f]
      by (simp only: if_True add_0_right simp_thms)
    then show ?thesis using True by (simp only: z simp_thms if_False)
  next
    case False
    have "b div f * f * C \<le> b * C" by (intro mult_le_mono1) (simp add: div_times_less_eq_dividend)
    then have le: "b div f * f * C + f * C < 2 ^ 62" using fit(3) unfolding add_mult_distrib by linarith
    then have "unat (utime (int (b * C)) - eo) + unat st < 2 ^ LENGTH(64)"
      unfolding unat_minus_mod [OF W(3) fit(2)] W(1) by simp
    then have "unat (utime (int (b * C)) - eo + st) = b div f * f * C + f * C"
      by (simp only: iffD1 [OF unat_add_lem] unat_minus_mod [OF W(3) fit(2)] W(1))
    also have "\<dots> = round_up b f * f * C" using False round_up_mult [OF assms(3), of b] by (simp add: add_mult_distrib)
    finally have u: "unat (utime (int (b * C)) - eo + st) = round_up b f * f * C" .
    have "eo \<noteq> 0" using False z by simp
    moreover have "round_up b f * f * C < 2 ^ 62"
      using le False round_up_mult [OF assms(3), of b] by (simp add: add_mult_distrib)
    ultimately show ?thesis using u by (simp only: sint_of_unat if_True simp_thms)
  qed
  ultimately have main: "reduce_data cf cur (int (a * C)) (int (b * C)) st0 dsc xs =
      Option.bind (if so \<noteq> 0 then put_unknown 0 (unat dsc) xs else Some xs)
        (\<lambda>xs1. Option.bind
           (reduce_rows cf f (unat dsc) (int (R * f)) (unat skip * unat dsc) (if so \<noteq> 0 then unat dsc else 0) xs1)
           (\<lambda>(dp, xs2). map_option (\<lambda>xs3. (int (a div f * f * C), int (round_up b f * f * C), st, xs3))
              (if eo \<noteq> 0 then put_unknown dp (unat dsc) xs2 else Some xs2)))"
    unfolding reduce_data_def assms(2) Let_def C_st_def(2) [symmetric] so_eo_def [symmetric] skip_def [symmetric]
      rc_def [symmetric]
    using nz assms(3) by simp
  let ?ds = "unat dsc" and ?u = "a mod f \<noteq> 0" and ?w = "b mod f \<noteq> 0"
  have arith: "unat skip + R * f + b mod f \<le> b - a"
    using A by (simp add: R_def diff_mult_distrib)
  have len: "(unat skip + R * f + b mod f) * ?ds \<le> length xs"
    using mult_le_mono1 [OF arith, of ?ds] assms(6) by linarith
  have pos: "?u \<longrightarrow> 1 \<le> unat skip" "?w \<longrightarrow> 1 \<le> b mod f"
    using W(4) mod_less_divisor [OF assms(3), of a] by (simp_all add: Suc_le_eq)
  obtain xs1 xs2 ys where R: "(if ?u then put_unknown 0 ?ds xs else Some xs) = Some xs1"
    "reduce_rows cf f ?ds (int (R * f)) (unat skip * ?ds) (if ?u then ?ds else 0) xs1 = Some ((if ?u then ?ds else 0) + R * ?ds, xs2)"
    "(if ?w then put_unknown ((if ?u then ?ds else 0) + R * ?ds) ?ds xs2 else Some xs2) = Some ys" "length ys = length xs"
    "\<And>k c. c < ?ds \<Longrightarrow> k < of_bool ?u + R + of_bool ?w \<Longrightarrow>
       ys ! (k * ?ds + c) = (if ?u \<and> k = 0 \<or> k = of_bool ?u + R then DNAN
         else combine cf (map (\<lambda>i. xs ! ((unat skip + (k - of_bool ?u) * f + i) * ?ds + c)) [0..<f]))"
    using reduce_array_ok [OF assms(3) pos len refl, of cf] by blast
  have "ys ! (k * ?ds + c) = reduced cf f ?ds a b xs k c" if "c < ?ds" "k < round_up b f - a div f" for k c
    using R(5) [OF that(1), of k] that(2) assms(4) round_up_eq [OF assms(3), of b] round_up_eq [OF assms(3), of a]
    by (subst reduced_index [OF assms(3,4)]) (auto simp: W(4) R_def split: if_splits)
  moreover have "reduce_data cf cur (int (a * C)) (int (b * C)) st0 dsc xs =
      Some (int (a div f * f * C), int (round_up b f * f * C), st, ys)"
    by (simp only: main z R(1-3) bind.bind_lunit prod.case option.map)
  ultimately show ?thesis using R(4) unfolding C_st_def st by blast
qed


lemma word_of_unat: "unat w = n \<Longrightarrow> w = of_nat n" for w :: ulong
  by auto

lemma unat_uminus_of_nat:
  assumes "0 < n" "n < 2 ^ 62" shows "unat (- of_nat n :: ulong) = 2 ^ 64 - n"
proof -
  have "int n < int (2 ^ 62)" using assms(2) by (simp only: of_nat_less_iff)
  then have m: "int n mod 2 ^ 64 = int n" "int n \<noteq> 0" using assms(1) by simp_all
  have "uint (word_of_int (- int n) :: ulong) = (- int n) mod 2 ^ 64" by (simp only: uint_word_of_int) simp
  also have "\<dots> = 2 ^ 64 - int n" by (simp only: zmod_zminus1_eq_if m if_False simp_thms)
  also have "\<dots> = int (2 ^ 64 - n)" using assms(2) by simp
  finally have "nat (uint (word_of_int (- int n) :: ulong)) = 2 ^ 64 - n" by (simp only: nat_int)
  then show ?thesis by simp
qed

text \<open>C33. When the rows lie inside one new interval, the count of rows wraps below zero, and for every factor
  that is no power of two the sanity check ends the program: no result is returned.\<close>

theorem reduce_inside_exits:
  assumes "0 < unat cur" "reduce_factor st0 cur = int f" "0 < f" "a \<le> b" "b div f < round_up a f"
    and "(b + f) * unat cur < 2 ^ 62" "\<not> f dvd 2 ^ 64"
  shows "reduce_data cf cur (int (a * unat cur)) (int (b * unat cur)) st0 dsc xs = None"
proof -
  define C st where "C = unat cur" "st = cur * word_of_int (int f)"
  define so eo where "so = utime (int (a * C)) mod st" "eo = utime (int (b * C)) mod st"
  define skip where "skip = (if so \<noteq> 0 then word_of_int (int f) - so div cur else 0)"
  define D e where "D = utime (int (b * C) - int (a * C)) div cur" "e = (if eo \<noteq> 0 then eo div cur else 0)"
  note W = reduce_words [OF assms(1,3,6,4), folded C_st_def, folded so_eo_def, folded skip_def D_e_def]
  have d: "a div f \<le> b div f" using assms(4) by (rule div_le_mono)
  then have z: "a mod f \<noteq> 0" and q: "a div f = b div f"
    using assms(5) round_up_eq [OF assms(3), of a] by (auto split: if_splits)
  have "b - a = b mod f - a mod f" "a mod f \<le> b mod f"
    using div_mult_mod_eq [of a f] div_mult_mod_eq [of b f] assms(4) unfolding q by linarith+
  moreover have "D = of_nat (b - a)" "skip = of_nat (f - a mod f)" "e = of_nat (b mod f)"
    using z W(4-6) by (simp_all only: word_of_unat if_False)
  moreover have "a mod f < f" using assms(3) by simp
  ultimately have rc: "D - skip - e = - of_nat f" by (simp add: of_nat_diff)
  have f: "f < 2 ^ 62"
  proof -
    have "f * 1 \<le> (b + f) * C" using assms(1) by (intro mult_le_mono) (simp_all add: C_st_def)
    then show ?thesis using assms(6) unfolding C_st_def(1) by linarith
  qed
  have "unat (- of_nat f :: ulong) = 2 ^ 64 - f" by (rule unat_uminus_of_nat [OF assms(3) f])
  then have "unat ((D - skip - e) mod word_of_int (int f)) = (2 ^ 64 - f) mod f"
    using f unfolding rc by (simp add: unat_mod unat_of_nat)
  moreover have "(2 ^ 64 - f) mod f \<noteq> 0"
    using f assms(7) dvd_add [of f "2 ^ 64 - f" f] by (auto simp: mod_eq_0_iff_dvd)
  ultimately have "(D - skip - e) mod word_of_int (int f) \<noteq> 0" by (metis unat_0)
  then show ?thesis
    unfolding reduce_data_def assms(2) Let_def C_st_def [symmetric] so_eo_def [symmetric] skip_def [symmetric] D_e_def [symmetric]
    by simp
qed


text \<open>Eight values at a step of 300 from 600 to 3000, reduced to 900.\<close>

definition eight_values :: "dbl list" where
  "eight_values = map dbl_of_int [1, 2, 3, 4, 5, 6, 7, 8]"

lemma eight_factor: "reduce_factor 700 300 = 3" by code_simp

theorem reduce_correct_witness:
  "\<exists>ys. reduce_data CF_AVERAGE 300 600 3000 700 1 eight_values = Some (0, 3600, 900, ys) \<and>
     length ys = 8 \<and> ys ! 0 = DNAN \<and> ys ! 1 = dbl_of_int 3 \<and> ys ! 2 = dbl_of_int 6 \<and> ys ! 3 = DNAN"
proof -
  have r: "round_up 2 3 = 1" "round_up 10 3 = 4" by (simp_all add: round_up_def)
  have v: "reduced CF_AVERAGE 3 1 2 10 eight_values 0 0 = DNAN" "reduced CF_AVERAGE 3 1 2 10 eight_values 1 0 = dbl_of_int 3"
    "reduced CF_AVERAGE 3 1 2 10 eight_values 2 0 = dbl_of_int 6" "reduced CF_AVERAGE 3 1 2 10 eight_values 3 0 = DNAN"
    by code_simp+
  obtain ys where ys: "reduce_data CF_AVERAGE 300 600 3000 700 1 eight_values = Some (0, 3600, 900, ys)"
    "length ys = length eight_values"
    "\<forall>k c. c < 1 \<longrightarrow> k < 4 \<longrightarrow> ys ! (k * 1 + c) = reduced CF_AVERAGE 3 1 2 10 eight_values k c"
    using reduce_correct [of 300 700 3 2 10 1 eight_values CF_AVERAGE] by (auto simp: r eight_factor eight_values_def)
  have "ys ! k = reduced CF_AVERAGE 3 1 2 10 eight_values k 0" if "k < 4" for k
    using ys(3) [rule_format, of 0 k] that by simp
  from this [of 0, unfolded v] this [of 1, unfolded v] this [of 2, unfolded v] this [of 3, unfolded v] ys(1,2)
  show ?thesis by (simp add: eight_values_def)
qed

theorem reduce_inside_exits_witness: "reduce_data CF_AVERAGE 300 1200 1500 700 1 [0] = None"
  using reduce_inside_exits [of 300 700 3 4 5 CF_AVERAGE 1 "[0]"] by (simp add: round_up_def eight_factor)

end
