(* ===== verification/Tune.thy ===== *)
theory Tune
  imports Create Update Hw
begin

text \<open>
  Changing the definitions of a database (\<open>rrd_tune.c\<close>). The options come as \<open>getopt_long\<close> delivers
  them. The file is mapped, so an option has changed the file when a later one fails; the final writes
  copy the mapped definitions onto themselves. The numbers of the Holt-Winters options are read in the
  process locale, here the one with a decimal point. The inner \<open>False\<close> is a return with - 1.
\<close>

section \<open>Scanning\<close>

text \<open>\<open>%19[a-zA-Z0-9_-]\<close> and the text behind a following colon, if there is one.\<close>

definition scan_ds_name :: "string \<Rightarrow> (string \<times> string option) option" where
  "scan_ds_name s =
     (let nam = scan_set 19 is_name_char s; r = drop (length nam) s in
      if nam = [] then None
      else Some (nam, if r = [] \<or> hd r \<noteq> CHR '':'' then None else Some (tl r)))"

definition scan_ld :: "string \<Rightarrow> int option" where
  "scan_ld s =
     (if takeWhile isdigit (snd (take_sign (skip_space s))) = [] then None else Some (atol s))"

definition scan_lf :: "string \<Rightarrow> dbl option" where
  "scan_lf s = (case strtod s of (v, rest, _) \<Rightarrow> if rest = s then None else Some v)"

section \<open>Data sources\<close>

definition tune_error :: "string \<Rightarrow> world \<Rightarrow> (bool \<times> world) option" where
  "tune_error m w = Some (False, rrd_set_error m w)"

text \<open>Go on with the index of the data source.\<close>

definition with_ds :: "string \<Rightarrow> world \<Rightarrow> (nat \<Rightarrow> world \<Rightarrow> (bool \<times> world) option) \<Rightarrow> (bool \<times> world) option" where
  "with_ds nam w k =
     (case ds_match (db w) nam w of (ds, w1) \<Rightarrow> if ds = - 1 then Some (False, w1) else k (nat ds) w1)"

text \<open>In the locale \<open>C\<close>; the old one is restored on both ways.\<close>

definition in_c_locale :: "('a \<Rightarrow> world \<Rightarrow> (bool \<times> world) option) \<Rightarrow> string \<Rightarrow> 'a option \<Rightarrow> world \<Rightarrow> (bool \<times> world) option" where
  "in_c_locale k m res w =
     (let old_locale = lc_numeric w; w1 = setlocale ''C'' w in
      case res of
        None \<Rightarrow> Some (False, setlocale old_locale (rrd_set_error m w1))
      | Some x \<Rightarrow> k x (setlocale old_locale w1))"

definition tune_heartbeat :: "string \<Rightarrow> world \<Rightarrow> (bool \<times> world) option" where
  "tune_heartbeat optarg =
     in_c_locale
       (\<lambda>(nam, heartbeat) w. with_ds nam w
          (\<lambda>ds w1. Some (True, w1\<lparr>db := set_ds_par ds DS_mrhb_cnt (word_of_int heartbeat) (db w1)\<rparr>)))
       ''invalid arguments for heartbeat''
       (case scan_ds_name optarg of
          Some (nam, Some r) \<Rightarrow> map_option (Pair nam) (scan_ld r)
        | _ \<Rightarrow> None)"

text \<open>A limit that is not a number is unknown.\<close>

definition tune_limit :: "nat \<Rightarrow> string \<Rightarrow> string \<Rightarrow> world \<Rightarrow> (bool \<times> world) option" where
  "tune_limit par m optarg =
     in_c_locale
       (\<lambda>(nam, r) w. with_ds nam w
          (\<lambda>ds w1. let v = (case Option.bind r scan_lf of None \<Rightarrow> DNAN | Some x \<Rightarrow> x) in
             Some (True, w1\<lparr>db := set_ds_par ds par v (db w1)\<rparr>)))
       m (scan_ds_name optarg)"

definition set_ds_type :: "nat \<Rightarrow> string \<Rightarrow> rrd_t \<Rightarrow> rrd_t" where
  "set_ds_type ds ty r =
     (if take 19 (dst (ds_def r ! ds)) = take 19 ty then r
      else r\<lparr>ds_def := (ds_def r)[ds := (ds_def r ! ds)\<lparr>dst := take 19 ty\<rparr>],
             pdp_prep := (pdp_prep r)[ds := (pdp_prep r ! ds)\<lparr>last_ds := ''UNKN''\<rparr>]\<rparr>)"

definition tune_type :: "string \<Rightarrow> world \<Rightarrow> (bool \<times> world) option" where
  "tune_type optarg w =
     (case scan_ds_name optarg of
        Some (nam, Some r) \<Rightarrow>
          (let ty = scan_set 19 isupper r in
           if ty = [] then tune_error ''invalid arguments for data source type'' w
           else with_ds nam w
             (\<lambda>ds w1. case dst_conv ty w1 of
                (None, w2) \<Rightarrow> Some (False, w2)
              | (Some d, w2) \<Rightarrow> Some (True, w2\<lparr>db := set_ds_type ds ty (db w2)\<rparr>)))
      | _ \<Rightarrow> tune_error ''invalid arguments for data source type'' w)"

definition set_ds_nam :: "nat \<Rightarrow> string \<Rightarrow> rrd_t \<Rightarrow> rrd_t" where
  "set_ds_nam ds nam r = r\<lparr>ds_def := (ds_def r)[ds := (ds_def r ! ds)\<lparr>ds_nam := take 19 nam\<rparr>]\<rparr>"

definition tune_rename :: "string \<Rightarrow> world \<Rightarrow> (bool \<times> world) option" where
  "tune_rename optarg w =
     (case scan_ds_name optarg of
        Some (nam, Some r) \<Rightarrow>
          (let ds_new = scan_set 19 is_name_char r in
           if ds_new = [] then tune_error ''invalid arguments for data source type'' w
           else with_ds nam w (\<lambda>ds w1. Some (True, w1\<lparr>db := set_ds_nam ds ds_new (db w1)\<rparr>)))
      | _ \<Rightarrow> tune_error ''invalid arguments for data source type'' w)"

definition tune_reset :: "string \<Rightarrow> world \<Rightarrow> (bool \<times> world) option" where
  "tune_reset optarg w =
     (case scan_ds_name optarg of
        None \<Rightarrow> tune_error ''invalid argument for aberrant-reset'' w
      | Some (nam, _) \<Rightarrow>
          with_ds nam w
            (\<lambda>ds w1. map_option (\<lambda>w2. (\<not> rrd_test_error w2, w2)) (reset_aberrant_coefficients ds w1)))"

section \<open>Archives\<close>

text \<open>The first archive with a consolidation function, as a signed short; an unknown name on the way
  leaves its error.\<close>

fun find_rra :: "cf_en \<Rightarrow> nat list \<Rightarrow> world \<Rightarrow> int \<times> world" where
  "find_rra cf [] w = (- 1, w)"
| "find_rra cf (i # is) w =
     (case cf_conv (cf_nam (rra_def (db w) ! i)) w of (c, w1) \<Rightarrow>
        if c = Some cf then (wrap_short (int i), w1) else find_rra cf is w1)"

definition set_rra_par :: "nat \<Rightarrow> nat \<Rightarrow> unival \<Rightarrow> rrd_t \<Rightarrow> rrd_t" where
  "set_rra_par i k v r =
     r\<lparr>rra_def := (rra_def r)[i := (rra_def r ! i)\<lparr>rra_par := (rra_par (rra_def r ! i))[k := v]\<rparr>]\<rparr>"

text \<open>The common part: a rejected value, no such archive, or the parameter is set; a negative index
  is an access before the definitions.\<close>

definition set_arg :: "bool \<Rightarrow> string \<Rightarrow> cf_en \<Rightarrow> string \<Rightarrow> nat \<Rightarrow> unival \<Rightarrow> world \<Rightarrow> (bool \<times> nat \<times> world) option" where
  "set_arg bad m cf missing par v w =
     (if bad then Some (False, 0, rrd_set_error m w)
      else
        (case find_rra cf [0..<n_rra (db w)] w of (i, w1) \<Rightarrow>
           if i = - 1 then Some (False, 0, rrd_set_error missing w1)
           else if i < 0 then None
           else Some (True, nat i, w1\<lparr>db := set_rra_par (nat i) par v (db w1)\<rparr>)))"

definition arg_result :: "(bool \<times> nat \<times> world) option \<Rightarrow> (bool \<times> world) option" where
  "arg_result res = map_option (\<lambda>(ok, i, w). (ok, w)) res"

definition set_hwarg :: "cf_en \<Rightarrow> nat \<Rightarrow> string \<Rightarrow> world \<Rightarrow> (bool \<times> world) option" where
  "set_hwarg cf par arg w =
     (let param = atof arg in
      arg_result (set_arg (fle param 0 \<or> fge param D1) ''Holt-Winters parameter must be between 0 and 1''
        cf ''Holt-Winters RRA does not exist in this RRD'' par param w))"

definition set_hwsmootharg :: "cf_en \<Rightarrow> nat \<Rightarrow> string \<Rightarrow> world \<Rightarrow> (bool \<times> world) option" where
  "set_hwsmootharg cf par arg w =
     (let param = atof arg in
      arg_result (set_arg (flt param 0 \<or> fgt param D1) ''Holt-Winters parameter must be between 0 and 1''
        cf ''Holt-Winters RRA does not exist in this RRD'' par param w))"

definition set_deltaarg :: "nat \<Rightarrow> string \<Rightarrow> world \<Rightarrow> (bool \<times> world) option" where
  "set_deltaarg par arg w =
     (let param = atof arg in
      arg_result (set_arg (flt param (dlit 1 10)) ''Parameter specified is too small''
        CF_FAILURES ''Failures RRA does not exist in this RRD'' par param w))"

definition set_windowarg :: "nat \<Rightarrow> string \<Rightarrow> world \<Rightarrow> (bool \<times> world) option" where
  "set_windowarg par arg w =
     (let param = word_of_int (atoi arg) :: ulong in
      case set_arg (param < 1 \<or> param > word_of_int MAX_FAILURES_WINDOW_LEN)
             (''Parameter must be between 1 and '' @ show_int MAX_FAILURES_WINDOW_LEN)
             CF_FAILURES ''Failures RRA does not exist in this RRD'' par param w of
        None \<Rightarrow> None
      | Some (False, _, w1) \<Rightarrow> Some (False, w1)
      | Some (True, i, w1) \<Rightarrow>
          Some (True, fold (\<lambda>ds. erase_violations (i * n_ds (db w1) + ds) i) [0..<n_ds (db w1)] w1))"

text \<open>A predictor of either kind: the error of the first attempt is cleared when the second succeeds.\<close>

definition tune_predictor :: "nat \<Rightarrow> string \<Rightarrow> world \<Rightarrow> (bool \<times> world) option" where
  "tune_predictor par optarg w =
     (case set_hwarg CF_HWPREDICT par optarg w of
        Some (False, w1) \<Rightarrow>
          (case set_hwarg CF_MHWPREDICT par optarg w1 of
             Some (True, w2) \<Rightarrow> Some (True, rrd_clear_error w2)
           | res \<Rightarrow> res)
      | res \<Rightarrow> res)"

text \<open>The version is set before the argument is looked at.\<close>

definition tune_smoothing :: "cf_en \<Rightarrow> string \<Rightarrow> world \<Rightarrow> (bool \<times> world) option" where
  "tune_smoothing cf optarg w =
     set_hwsmootharg cf RRA_seasonal_smoothing_window optarg
       (w\<lparr>db := (db w)\<lparr>stat_head := (stat_head (db w))\<lparr>version := RRD_VERSION\<rparr>\<rparr>\<rparr>)"

section \<open>The command\<close>

datatype tune_opt =
    Tune_heartbeat string | Tune_minimum string | Tune_maximum string | Tune_type string | Tune_rename string
  | Tune_deltapos string | Tune_deltaneg string | Tune_threshold string | Tune_window string
  | Tune_alpha string | Tune_beta string | Tune_gamma string | Tune_gamma_deviation string
  | Tune_reset string | Tune_smooth string | Tune_smooth_deviation string | Tune_bad string

fun tune_step :: "tune_opt \<Rightarrow> world \<Rightarrow> (bool \<times> world) option" where
  "tune_step (Tune_heartbeat a) w = tune_heartbeat a w"
| "tune_step (Tune_minimum a) w = tune_limit DS_min_val ''invalid arguments for minimum ds value'' a w"
| "tune_step (Tune_maximum a) w = tune_limit DS_max_val ''invalid arguments for maximum ds value'' a w"
| "tune_step (Tune_type a) w = tune_type a w"
| "tune_step (Tune_rename a) w = tune_rename a w"
| "tune_step (Tune_deltapos a) w = set_deltaarg RRA_delta_pos a w"
| "tune_step (Tune_deltaneg a) w = set_deltaarg RRA_delta_neg a w"
| "tune_step (Tune_threshold a) w = set_windowarg RRA_failure_threshold a w"
| "tune_step (Tune_window a) w = set_windowarg RRA_window_len a w"
| "tune_step (Tune_alpha a) w = tune_predictor RRA_hw_alpha a w"
| "tune_step (Tune_beta a) w = tune_predictor RRA_hw_beta a w"
| "tune_step (Tune_gamma a) w = set_hwarg CF_SEASONAL RRA_seasonal_gamma a w"
| "tune_step (Tune_gamma_deviation a) w = set_hwarg CF_DEVSEASONAL RRA_seasonal_gamma a w"
| "tune_step (Tune_reset a) w = tune_reset a w"
| "tune_step (Tune_smooth a) w = tune_smoothing CF_SEASONAL a w"
| "tune_step (Tune_smooth_deviation a) w = tune_smoothing CF_DEVSEASONAL a w"
| "tune_step (Tune_bad o_text) w = tune_error (''unknown option '' @ quoted o_text) w"

fun tune_options :: "tune_opt list \<Rightarrow> world \<Rightarrow> (bool \<times> world) option" where
  "tune_options [] w = Some (True, w)"
| "tune_options (opt # opts) w =
     (case tune_step opt w of
        Some (True, w1) \<Rightarrow> tune_options opts w1
      | res \<Rightarrow> res)"

text \<open>Without options the definitions of the data sources are printed; the program of a computed one
  is \<open>None\<close> when printing it leaves its buffer.\<close>

definition tab :: string where "tab = [CHR 0x09]"

definition print_ds :: "ds_def_t list \<Rightarrow> ds_def_t \<Rightarrow> 'a ctx_scheme \<Rightarrow> (string \<times> 'a ctx_scheme) option" where
  "print_ds ds d c =
     (case dst_conv (dst d) c of (t, c1) \<Rightarrow>
        if t \<noteq> Some DST_CDEF then
          Some (''DS['' @ ds_nam d @ ''] typ: '' @ dst d @ tab @ ''hbt: '' @ show_int (sint (ds_par d ! DS_mrhb_cnt))
            @ tab @ ''min: '' @ show_fixed 4 (ds_par d ! DS_min_val)
            @ tab @ ''max: '' @ show_fixed 4 (ds_par d ! DS_max_val) @ [CHR 0x0A], c1)
        else
          map_option (\<lambda>cdef. (''DS['' @ ds_nam d @ ''] typ: '' @ dst d @ tab @ ''cdef: '' @ cdef @ [CHR 0x0A], c1))
            (rpn_compact2str (nodes_of_par (ds_par d)) ds))"

fun print_all_ds :: "ds_def_t list \<Rightarrow> ds_def_t list \<Rightarrow> 'a ctx_scheme \<Rightarrow> (string list \<times> 'a ctx_scheme) option" where
  "print_all_ds ds [] c = Some ([], c)"
| "print_all_ds ds (d # rest) c =
     Option.bind (print_ds ds d c) (\<lambda>(line, c1).
       map_option (\<lambda>(lines, c2). (line # lines, c2)) (print_all_ds ds rest c1))"

text \<open>The final writes of the three sections at the start of the file.\<close>

definition write_definitions :: "world \<Rightarrow> world" where
  "write_definitions w =
     w\<lparr>dbfile := (dbfile w)\<lparr>pos := sizeof_stat_head + sizeof_ds_def * n_ds (db w) + sizeof_rra_def * n_rra (db w)\<rparr>\<rparr>"

text \<open>The result, what is printed, and the file.\<close>

definition rrd_tune ::
  "string \<Rightarrow> tune_opt list \<Rightarrow> sys_open \<Rightarrow> ctx \<Rightarrow> (int \<times> string list \<times> sys_open \<times> ctx) option" where
  "rrd_tune filename opts so c =
     (case rrd_open filename so c of
        (None, c1) \<Rightarrow> Some (- 1, [], so, c1)
      | (Some (r, f), c1) \<Rightarrow>
          (case tune_options opts (open_world c1 r f) of
             None \<Rightarrow> None
           | Some (False, w) \<Rightarrow> Some (- 1, [], Opened (image_of w), ctx_of_world w)
           | Some (True, w) \<Rightarrow>
               (if opts \<noteq> [] then
                  (let w1 = write_definitions w in Some (0, [], Opened (image_of w1), ctx_of_world w1))
                else
                  map_option (\<lambda>(lines, w1). (0, lines, Opened (image_of w1), ctx_of_world w1))
                    (print_all_ds (ds_def (db w)) (take (n_ds (db w)) (ds_def (db w))) w))))"

end
