(* ===== verification/Tune_Spec.thy ===== *)
theory Tune_Spec
  imports Tune Create_Spec
begin

text \<open>
  What changing the definitions of a database keeps, and where it goes wrong.
\<close>

section \<open>The frame\<close>

definition defs_ok :: "rrd_t \<Rightarrow> bool" where
  "defs_ok r \<longleftrightarrow> head_valid (stat_head r) \<and> (\<forall>d \<in> set (ds_def r). ds_valid d) \<and> (\<forall>d \<in> set (rra_def r). rra_valid d)"

text \<open>What decides where the rows lie and when they are due.\<close>

definition layout :: "rrd_t \<Rightarrow> ulong \<times> ulong \<times> ulong \<times> (string \<times> ulong \<times> ulong) list \<times> live_head_t \<times> int" where
  "layout r = (ds_cnt (stat_head r), rra_cnt (stat_head r), pdp_step (stat_head r),
     map (\<lambda>d. (cf_nam d, row_cnt d, pdp_cnt d)) (rra_def r), live_head r, legacy_last_up r)"

definition tuned :: "world \<Rightarrow> world \<Rightarrow> bool" where
  "tuned w w' \<longleftrightarrow>
     (db_ok w \<longrightarrow> db_ok w') \<and> (defs_ok (db w) \<longrightarrow> defs_ok (db w')) \<and> layout (db w') = layout (db w) \<and>
     header_len (dbfile w') = header_len (dbfile w) \<and> file_len (dbfile w') = file_len (dbfile w)"

lemma tuned_refl [simp, intro]: "tuned w w"
  by (simp add: tuned_def)

lemma tuned_trans [trans]: "tuned w w' \<Longrightarrow> tuned w' w'' \<Longrightarrow> tuned w w''"
  by (auto simp: tuned_def)

lemma kept_tuned: "kept w w' \<Longrightarrow> tuned w w'"
  by (auto simp: kept_def tuned_def same_defs_def defs_ok_def layout_def)

lemma tuned_ctx: "ctx.more w' = ctx.more w \<Longrightarrow> tuned w w'"
  by (rule kept_tuned [OF kept_ctx])

text \<open>Rows are where they were when the layout is the same.\<close>

lemma layout_rra:
  assumes "layout r' = layout r"
  shows "length (rra_def r') = length (rra_def r)" "n_ds r' = n_ds r" "n_rra r' = n_rra r"
    "i < length (rra_def r) \<Longrightarrow> row_cnt (rra_def r' ! i) = row_cnt (rra_def r ! i)"
proof -
  have m: "map (\<lambda>d. (cf_nam d, row_cnt d, pdp_cnt d)) (rra_def r') = map (\<lambda>d. (cf_nam d, row_cnt d, pdp_cnt d)) (rra_def r)"
    and n: "n_ds r' = n_ds r" "n_rra r' = n_rra r"
    using assms by (simp_all add: layout_def)
  from m show l: "length (rra_def r') = length (rra_def r)" by (rule map_eq_imp_length_eq)
  from n show "n_ds r' = n_ds r" "n_rra r' = n_rra r" .
  show "row_cnt (rra_def r' ! i) = row_cnt (rra_def r ! i)" if "i < length (rra_def r)"
    using arg_cong [OF m, of "\<lambda>xs. xs ! i"] that l by simp
qed

lemma layout_base:
  assumes "layout r' = layout r" shows "i \<le> length (rra_def r) \<Longrightarrow> rra_base r' i = rra_base r i"
  by (induction i) (simp_all add: rra_size_def layout_rra [OF assms])

text \<open>A change of the header that keeps the shape and the layout.\<close>

lemma tuned_db:
  assumes "wf_rrd (db w) \<Longrightarrow> wf_rrd r" "layout r = layout (db w)" "defs_ok (db w) \<Longrightarrow> defs_ok r"
    and "rra_ptr r = rra_ptr (db w)"
  shows "tuned w (w\<lparr>db := r\<rparr>)"
proof -
  have "wf_rrd (db w) \<Longrightarrow> wf_file (db w) (dbfile w) \<Longrightarrow> wf_file r (dbfile w)"
    using layout_base [OF assms(2)] layout_rra(3) [OF assms(2)] by (simp add: wf_file_def wf_rrd_def)
  moreover have "wf_rrd (db w) \<Longrightarrow> wf_rows (db w) \<Longrightarrow> wf_rows r"
    using layout_rra [OF assms(2)] assms(4) by (simp add: wf_rows_def wf_rrd_def)
  ultimately show ?thesis using assms(1-3) by (auto simp: tuned_def db_ok_def)
qed

lemma set_list_update: "\<forall>x \<in> set xs. P x \<Longrightarrow> (i < length xs \<Longrightarrow> P y) \<Longrightarrow> \<forall>x \<in> set (xs[i := y]). P x"
  by (cases "i < length xs") (auto simp: list_update_beyond dest!: subsetD [OF set_update_subset_insert])


lemma tuned_rra:
  assumes "cf_nam d = cf_nam (rra_def (db w) ! i)" "row_cnt d = row_cnt (rra_def (db w) ! i)"
    "pdp_cnt d = pdp_cnt (rra_def (db w) ! i)" "length (rra_par d) = length (rra_par (rra_def (db w) ! i))"
  shows "tuned w (w\<lparr>db := (db w)\<lparr>rra_def := (rra_def (db w))[i := d]\<rparr>\<rparr>)"
proof (rule tuned_db)
  let ?ds = "(rra_def (db w))[i := d]"
  show "wf_rrd ((db w)\<lparr>rra_def := ?ds\<rparr>)" if wf: "wf_rrd (db w)"
  proof -
    have "\<forall>x \<in> set ?ds. length (rra_par x) = 10" using wf assms(4) by (intro set_list_update) (auto simp: wf_rrd_def)
    then show ?thesis using wf by (simp add: wf_rrd_def)
  qed
  show "defs_ok ((db w)\<lparr>rra_def := ?ds\<rparr>)" if ok: "defs_ok (db w)"
  proof -
    have "\<forall>x \<in> set ?ds. rra_valid x" using ok assms by (intro set_list_update) (auto simp: defs_ok_def rra_valid_def)
    then show ?thesis using ok by (simp add: defs_ok_def)
  qed
  have "map f ?ds = map f (rra_def (db w))" if "f d = f (rra_def (db w) ! i)" for f :: "rra_def_t \<Rightarrow> string \<times> ulong \<times> ulong"
    using that by (cases "i < length (rra_def (db w))") (simp_all add: map_update list_update_same_conv list_update_beyond)
  then show "layout ((db w)\<lparr>rra_def := ?ds\<rparr>) = layout (db w)" using assms by (simp add: layout_def)
qed simp

section \<open>The options\<close>


lemma tuned_set_rra_par: "tuned w (w\<lparr>db := set_rra_par i k v (db w)\<rparr>)"
  unfolding set_rra_par_def by (rule tuned_rra) simp_all

lemma tuned_error: "tuned w (rrd_set_error m w)" and tuned_locale: "tuned w (setlocale l w)"
  and tuned_clear: "tuned w (rrd_clear_error w)"
  by (intro tuned_ctx; simp add: rrd_clear_error_def)+

lemma find_rra_more: "find_rra cf is w = (i, w') \<Longrightarrow> ctx.more w' = ctx.more w"
  by (induction "is" arbitrary: w) (auto dest!: more_cf_conv split: prod.splits if_splits)

lemma tuned_set_arg: "set_arg bad m cf missing par v w = Some (ok, i, w') \<Longrightarrow> tuned w w'"
  by (auto simp: set_arg_def dest!: find_rra_more split: if_splits prod.splits
      intro: tuned_error tuned_trans [OF tuned_ctx tuned_error] tuned_trans [OF tuned_ctx tuned_set_rra_par])

lemma tuned_hwarg: "set_hwarg cf par arg w = Some (ok, w') \<Longrightarrow> tuned w w'"
  "set_hwsmootharg cf par arg w = Some (ok, w') \<Longrightarrow> tuned w w'"
  "set_deltaarg par arg w = Some (ok, w') \<Longrightarrow> tuned w w'"
  by (auto simp: set_hwarg_def set_hwsmootharg_def set_deltaarg_def Let_def arg_result_def dest: tuned_set_arg)














lemma tuned_version: "tuned w (w\<lparr>db := (db w)\<lparr>stat_head := (stat_head (db w))\<lparr>version := RRD_VERSION\<rparr>\<rparr>\<rparr>)"
  by (rule tuned_db) (simp_all add: layout_def defs_ok_def head_valid_def wf_rrd_def)






lemma tuned_smoothing: "tune_smoothing cf arg w = Some (ok, w') \<Longrightarrow> tuned w w'"
  unfolding tune_smoothing_def by (rule tuned_trans [OF tuned_version tuned_hwarg(2)])




section \<open>The rows stay\<close>

definition rows_same :: "world \<Rightarrow> world \<Rightarrow> bool" where
  "rows_same w w' \<longleftrightarrow> dbfile w' = dbfile w \<and> rra_ptr (db w') = rra_ptr (db w)"

lemma rows_same_refl [simp, intro]: "rows_same w w"
  by (simp add: rows_same_def)

















section \<open>The file\<close>








section \<open>Names\<close>

lemma colon_no_name [simp]: "\<not> is_name_char CHR '':''"
  by code_simp

lemma scan_ds_name_pair:
  assumes "nam \<noteq> []" "length nam \<le> 19" "\<forall>c \<in> set nam. is_name_char c"
  shows "scan_ds_name (nam @ '':'' @ r) = Some (nam, Some r)"
  using assms by (simp add: scan_ds_name_def scan_set_def Let_def takeWhile_append2)

lemma scan_set_all: "length nam \<le> n \<Longrightarrow> \<forall>c \<in> set nam. p c \<Longrightarrow> scan_set n p nam = nam"
  by (simp add: scan_set_def takeWhile_eq_all_conv [THEN iffD2])

lemma ds_match_distinct:
  assumes "length (ds_def r) = n_ds r" "i < n_ds r" "distinct (map ds_nam (ds_def r))"
  shows "ds_match r (ds_nam (ds_def r ! i)) c = (int i, c)"
proof (cases "index_of_name (ds_def r) (ds_nam (ds_def r ! i)) 0")
  case None
  then show ?thesis using assms by (auto simp: index_of_name_None)
next
  case (Some k)
  from index_of_name_Some [OF this] have "k < length (ds_def r)" "map ds_nam (ds_def r) ! k = map ds_nam (ds_def r) ! i"
    using assms(1,2) by auto
  then have "k = i" using nth_eq_iff_index_eq [OF assms(3), of k i] assms(1,2) by simp
  then show ?thesis using Some assms(1) by (simp add: ds_match_def)
qed

text \<open>C34. Renaming does not look for the new name. A data source that takes the name of another one leaves
  two with the same name; the later of them cannot be reached by any name any more, and the distinct names
  that creating a database enforces are lost.\<close>

theorem rename_hides_source:
  assumes "wf_rrd (db w)" "defs_ok (db w)" "distinct (map ds_nam (ds_def (db w)))"
    and "i < n_ds (db w)" "j < n_ds (db w)" "i \<noteq> j"
  shows "\<exists>w'. tune_step (Tune_rename (ds_nam (ds_def (db w) ! j) @ '':'' @ ds_nam (ds_def (db w) ! i))) w = Some (True, w') \<and>
     \<not> distinct (map ds_nam (ds_def (db w'))) \<and> (\<forall>nm c. fst (ds_match (db w') nm (c :: ctx)) \<noteq> int (max i j))"
proof -
  let ?ds = "ds_def (db w)"
  have len: "length ?ds = n_ds (db w)" using assms(1) by (simp add: wf_rrd_def)
  have nam: "ds_nam (?ds ! k) \<noteq> [] \<and> length (ds_nam (?ds ! k)) \<le> 19 \<and> (\<forall>c \<in> set (ds_nam (?ds ! k)). is_name_char c)"
    if "k < n_ds (db w)" for k
  proof -
    have "ds_valid (?ds ! k)" using assms(2) that len by (simp add: defs_ok_def)
    then show ?thesis by (simp add: ds_valid_def DS_NAM_SIZE_def)
  qed
  let ?w = "w\<lparr>db := set_ds_nam j (ds_nam (?ds ! i)) (db w)\<rparr>"
  have step_ok: "tune_step (Tune_rename (ds_nam (?ds ! j) @ '':'' @ ds_nam (?ds ! i))) w = Some (True, ?w)"
    using nam [OF assms(4)] nam [OF assms(5)] ds_match_distinct [OF len assms(5,3), of w]
    by (simp add: tune_rename_def scan_ds_name_pair scan_set_all with_ds_def Let_def del: append_Cons append_Nil)
  have ds: "length (ds_def (db ?w)) = n_ds (db w)" "n_ds (db ?w) = n_ds (db w)"
    "ds_nam (ds_def (db ?w) ! i) = ds_nam (?ds ! i)" "ds_nam (ds_def (db ?w) ! j) = ds_nam (?ds ! i)"
    using len assms(4-6) nam [OF assms(4)] by (simp_all add: set_ds_nam_def)
  have "\<not> distinct (map ds_nam (ds_def (db ?w)))"
  proof
    assume "distinct (map ds_nam (ds_def (db ?w)))"
    from nth_eq_iff_index_eq [OF this, of i j] show False using assms(4-6) ds by simp
  qed
  moreover have "fst (ds_match (db ?w) nm c) \<noteq> int (max i j)" for nm and c :: ctx
  proof
    assume "fst (ds_match (db ?w) nm c) = int (max i j)"
    then have "index_of_name (ds_def (db ?w)) nm 0 = Some (max i j)"
      using ds(1,2) by (auto simp: ds_match_def split: option.splits)
    from index_of_name_Some [OF this] have "ds_nam (ds_def (db ?w) ! max i j) = nm" "ds_nam (ds_def (db ?w) ! min i j) \<noteq> nm"
      using assms(6) by auto
    then show False using ds(3,4) by (auto simp: max_def min_def split: if_splits)
  qed
  ultimately show ?thesis using step_ok by blast
qed

definition pair_world :: world where
  "pair_world = sample_world\<lparr>db := sample_db\<lparr>
     stat_head := (stat_head sample_db)\<lparr>ds_cnt := 2, rra_cnt := 0\<rparr>,
     ds_def := [sample_ds\<lparr>ds_nam := ''a''\<rparr>, sample_ds\<lparr>ds_nam := ''b''\<rparr>], rra_def := [],
     pdp_prep := [pdp_prep sample_db ! 0, pdp_prep sample_db ! 0], cdp_prep := [], rra_ptr := []\<rparr>\<rparr>"

lemma pair_ok: "wf_rrd (db pair_world)" "defs_ok (db pair_world)" "distinct (map ds_nam (ds_def (db pair_world)))"
  "n_ds (db pair_world) = 2"
proof -
  have "is_name_char CHR ''a''" "is_name_char CHR ''b''" "map_of dst_table ''GAUGE'' = Some DST_GAUGE" by code_simp+
  then show "defs_ok (db pair_world)"
    by (simp add: defs_ok_def pair_world_def head_valid_def ds_valid_def sample_defs RRD_COOKIE_def RRD_VERSION3_def
        DS_NAM_SIZE_def)
qed (simp_all add: pair_world_def wf_rrd_def sample_defs)

theorem rename_hides_source_witness:
  "\<exists>w'. tune_step (Tune_rename ''b:a'') pair_world = Some (True, w') \<and> \<not> distinct (map ds_nam (ds_def (db w'))) \<and>
     fst (ds_match (db w') ''b'' init_ctx) \<noteq> 1"
proof -
  have nm: "ds_nam (ds_def (db pair_world) ! 1) @ '':'' @ ds_nam (ds_def (db pair_world) ! 0) = ''b:a''"
    by (simp add: pair_world_def)
  obtain w' where "tune_step (Tune_rename ''b:a'') pair_world = Some (True, w')" "\<not> distinct (map ds_nam (ds_def (db w')))"
    "\<And>n c. fst (ds_match (db w') n (c :: ctx)) \<noteq> int (max 0 1)"
    using rename_hides_source [OF pair_ok(1-3), of 0 1, unfolded nm pair_ok(4)] by (metis one_less_numeral_iff semiring_norm(76) zero_less_numeral zero_neq_one)
  then show ?thesis by (metis max_0L of_nat_1)
qed

section \<open>Old files\<close>

lemma db_set_error: "db (rrd_set_error m w) = db w"
  using more_db [OF more_set_error] by blast

lemma set_arg_head: "set_arg bad m cf missing par v w = Some (ok, i, w') \<Longrightarrow> stat_head (db w') = stat_head (db w)"
  by (auto simp: set_arg_def set_rra_par_def db_set_error dest!: find_rra_more more_db split: if_splits prod.splits)

lemma smooth_version: "tune_smoothing cf a w = Some (ok, w') \<Longrightarrow> version (stat_head (db w')) = RRD_VERSION"
  by (auto simp: tune_smoothing_def set_hwsmootharg_def Let_def arg_result_def dest!: set_arg_head)

text \<open>The length of the header as the code computes it.\<close>

lemma map_header_len:
  "rrd_map_header fn im = Inr h \<Longrightarrow>
     (let r = img_rrd im; d = ds_cnt (stat_head r); a = rra_cnt (stat_head r) in
      h = 128 + 120 * d + 120 * a + (if atoi (version (stat_head r)) < 3 then 8 else 16) + 112 * d + 80 * (a * d) + 8 * a \<and>
      unat h \<le> img_len im)"
  by (auto simp: rrd_map_header_def map_section_def check_that_def Let_def sizeof_defs split: sum.splits if_splits)

text \<open>C35. The smoothing window of a file of version 1 or 2. The option writes the new version into the
  header, also when it then fails, but does not convert the shorter live head of such a file: a file of
  exact length cannot be opened any more.\<close>

theorem smoothing_breaks_old_file:
  assumes "rrd_open fn (Opened im) c = (Some (r, f), c1)" "atoi (version (stat_head r)) < 3"
    and "img_len im = unat (correct_len (of_nat (header_len f)) r)" "img_len im < 2 ^ 62"
    and "opt = Tune_smooth a \<or> opt = Tune_smooth_deviation a"
    and "rrd_tune fn [opt] (Opened im) c = Some (rc, lines, so, c')"
  shows "fst (rrd_open fn' so c'') = None"
proof -
  let ?w = "open_world c1 r f"
  obtain h where h: "rrd_map_header fn im = Inr h" "header_len f = unat h" "stat_head r = stat_head (img_rrd im)"
    "rra_def r = rra_def (img_rrd im)" "file_len f = img_len im"
    using assms(1) by (auto simp: rrd_open_def Let_def split: sum.splits if_splits)
  obtain ok w cf where w: "tune_smoothing cf a ?w = Some (ok, w)" and so: "so = Opened (image_of w)"
    using assms(1,5,6) by (auto simp: rrd_tune_def Let_def image_of_def write_definitions_def
        split: option.splits bool.splits prod.splits if_splits)
  have lay: "layout (db w) = layout r" and fl: "file_len (dbfile w) = img_len im"
    using tuned_smoothing [OF w] h(5) by (simp_all add: tuned_def open_world_def)
  have cnt: "ds_cnt (stat_head (db w)) = ds_cnt (stat_head r)" "rra_cnt (stat_head (db w)) = rra_cnt (stat_head r)"
    using lay by (simp_all add: layout_def)
  have "map (fst o snd) (map (\<lambda>d. (cf_nam d, row_cnt d, pdp_cnt d)) (rra_def (db w))) =
      map (fst o snd) (map (\<lambda>d. (cf_nam d, row_cnt d, pdp_cnt d)) (rra_def r))"
    using lay by (simp add: layout_def del: map_map)
  then have rows: "map row_cnt (rra_def (db w)) = map row_cnt (rra_def r)" by (simp add: comp_def)
  show ?thesis
  proof (cases "rrd_map_header fn' (image_of w)")
    case (Inl m)
    then show ?thesis by (simp add: so rrd_open_def)
  next
    case (Inr h')
    have "atoi RRD_VERSION = 4" by code_simp
    then have h': "h' = h + 8"
      using map_header_len [OF Inr] map_header_len [OF h(1)] smooth_version [OF w] cnt assms(2) h(3)
      by (simp add: Let_def image_of_def)
    have "correct_len h' (db w) = correct_len h r + 8"
      using cnt rows by (simp add: correct_len_def h' take_map [symmetric])
    moreover have "unat (correct_len h r) = img_len im" using assms(3) h(2) by simp
    ultimately have "unat (correct_len h' (db w)) = img_len im + 8"
      using assms(4) by (simp add: unat_word_ariths)
    then show ?thesis using Inr fl by (simp add: so rrd_open_def image_of_def Let_def)
  qed
qed

definition old_image :: rrd_image where
  "old_image = \<lparr>img_len = 824, img_rrd = sample_db\<lparr>stat_head := (stat_head sample_db)\<lparr>version := ''0001''\<rparr>\<rparr>,
     img_vals = [D1, D2, 0, D2, D1]\<rparr>"

theorem smoothing_breaks_old_file_witness:
  "\<exists>so c'. fst (rrd_open ''a.rrd'' (Opened old_image) init_ctx) \<noteq> None \<and>
     rrd_tune ''a.rrd'' [Tune_smooth ''5''] (Opened old_image) init_ctx = Some (- 1, [], so, c') \<and>
     fst (rrd_open ''a.rrd'' so init_ctx) = None"
proof -
  have h: "rrd_map_header ''a.rrd'' old_image = Inr 784" by code_simp
  have "atoi (version (stat_head (img_rrd old_image))) = 1" by code_simp
  moreover have "unat (correct_len 784 (img_rrd old_image)) = 824" by code_simp
  moreover have "img_len old_image = 824" by (simp add: old_image_def)
  note im = calculation this
  ultimately obtain r f where o_f: "rrd_open ''a.rrd'' (Opened old_image) init_ctx = (Some (r, f), init_ctx)"
    "stat_head r = stat_head (img_rrd old_image)" "rra_def r = rra_def (img_rrd old_image)" "header_len f = 784"
    "ds_def r = ds_def (img_rrd old_image)"
    using h by (simp add: rrd_open_def Let_def)
  obtain so lines c' where t: "rrd_tune ''a.rrd'' [Tune_smooth ''5''] (Opened old_image) init_ctx = Some (- 1, [], so, c')"
  proof -
    have "fgt (atof ''5'') D1" by code_simp
    then show ?thesis using that
      by (simp add: rrd_tune_def o_f(1) tune_smoothing_def set_hwsmootharg_def set_arg_def arg_result_def Let_def)
  qed
  have "correct_len 784 r = correct_len 784 (img_rrd old_image)" using o_f(2,3) by (simp add: correct_len_def)
  then have "fst (rrd_open ''a.rrd'' so init_ctx) = None"
    using smoothing_breaks_old_file [OF o_f(1) _ _ _ _ t, of "''5''" "''a.rrd''" init_ctx] o_f(2,4) im
    by simp
  with t o_f(1) show ?thesis by auto
qed

end
