(* ===== verification/Vdef.thy ===== *)
theory Vdef
  imports Reduce Rpn_Calc Rpn_Parse Create
begin

text \<open>
  Single values of a series for graphs and exports (\<open>vdef_parse\<close>, \<open>vdef_calc\<close> and
  \<open>vdef_percent_compar\<close> of \<open>rrd_graph.c\<close>). \<open>None\<close> is an access outside an array or the use of a
  variable that was never set.
\<close>

section \<open>Parsing\<close>

datatype vdef_op_en = VDEF_MAXIMUM | VDEF_MINIMUM | VDEF_AVERAGE | VDEF_STDEV | VDEF_PERCENT | VDEF_TOTAL
  | VDEF_FIRST | VDEF_LAST | VDEF_LSLSLOPE | VDEF_LSLINT | VDEF_LSLCORREL | VDEF_PERCENTNAN

record vdef_t =
  vf_op :: vdef_op_en
  vf_param :: dbl
  vf_val :: dbl
  vf_when :: int

definition vdef_table :: "(string \<times> vdef_op_en) list" where
  "vdef_table = [(''PERCENT'', VDEF_PERCENT), (''PERCENTNAN'', VDEF_PERCENTNAN), (''MAXIMUM'', VDEF_MAXIMUM),
     (''AVERAGE'', VDEF_AVERAGE), (''STDEV'', VDEF_STDEV), (''MINIMUM'', VDEF_MINIMUM), (''TOTAL'', VDEF_TOTAL),
     (''FIRST'', VDEF_FIRST), (''LAST'', VDEF_LAST), (''LSLSLOPE'', VDEF_LSLSLOPE), (''LSLINT'', VDEF_LSLINT),
     (''LSLCORREL'', VDEF_LSLCORREL)]"

text \<open>The two forms: a number, a comma and a name, or a name alone; each must take the whole text. For
  the empty text the first form counts as matched, with nothing read.\<close>

definition scan_param_func :: "string \<Rightarrow> (dbl \<times> string) option" where
  "scan_param_func str =
     (case strtod str of (v, r, _) \<Rightarrow>
        if r = str \<or> r = [] \<or> hd r \<noteq> CHR '','' then None
        else
          (let func = scan_set 29 isupper (tl r)
           in if func = [] \<or> length func \<noteq> length (tl r) then None else Some (v, func)))"

definition scan_func :: "string \<Rightarrow> string option" where
  "scan_func str = (let func = scan_set 29 isupper str in if length func = length str then Some func else None)"

definition vdef_parse :: "string \<Rightarrow> string \<Rightarrow> vdef_t \<Rightarrow> 'a ctx_scheme \<Rightarrow> (int \<times> vdef_t \<times> 'a ctx_scheme) option" where
  "vdef_parse vname str vf c =
     (if str = [] then None
      else
        (case (case scan_param_func str of Some pf \<Rightarrow> Some pf | None \<Rightarrow> map_option (Pair DNAN) (scan_func str)) of
           None \<Rightarrow> Some (- 1, vf, rrd_set_error (''Unknown function string '' @ quoted str @ '' in VDEF '' @ quoted vname) c)
         | Some (param, func) \<Rightarrow>
             (case map_of vdef_table func of
                None \<Rightarrow>
                  Some (- 1, vf, rrd_set_error (''Unknown function '' @ quoted func @ '' in VDEF '' @ quoted vname @ [CHR 0x0A]) c)
              | Some opr \<Rightarrow>
                  (let vf1 = vf\<lparr>vf_op := opr\<rparr> in
                   if opr = VDEF_PERCENT \<or> opr = VDEF_PERCENTNAN then
                     (if isnan param then
                        Some (- 1, vf1, rrd_set_error (''Function '' @ quoted func @ '' needs parameter in VDEF ''
                          @ quoted vname @ [CHR 0x0A]) c)
                      else if fge param 0 \<and> fle param (dbl_of_int 100) then
                        Some (0, vf1\<lparr>vf_param := param, vf_val := DNAN, vf_when := 0\<rparr>, c)
                      else
                        Some (- 1, vf1, rrd_set_error (''Parameter '' @ quoted (show_fixed 6 param) @ '' out of range in VDEF ''
                          @ quoted vname @ [CHR 0x0A]) c))
                   else if isnan param then
                     Some (0, vf1\<lparr>vf_param := DNAN, vf_val := DNAN, vf_when := 0\<rparr>, c)
                   else
                     Some (- 1, vf1, rrd_set_error (''Function '' @ quoted func @ '' needs no parameter in VDEF ''
                       @ quoted vname @ [CHR 0x0A]) c)))))"

section \<open>Ranks\<close>

text \<open>The sign that \<open>isinf\<close> returns, and the comparison.\<close>

definition isinf_sign :: "dbl \<Rightarrow> int" where
  "isinf_sign x = (if isinf x then if sign_of x then - 1 else 1 else 0)"

definition vdef_percent_compar :: "dbl \<Rightarrow> dbl \<Rightarrow> int" where
  "vdef_percent_compar a b =
     (if isnan a then - 1
      else if isnan b then 1
      else if isinf a then isinf_sign a
      else if isinf b then isinf_sign b
      else if flt a b then - 1 else 1)"

text \<open>\<open>round\<close>: to the nearest whole number, halves away from zero.\<close>

definition round_away :: "dbl \<Rightarrow> int" where
  "round_away x =
     (let n = fst (sig_exp (mag x)) * scale_num (exp_of x); d = scale_num (- exp_of x); t = (2 * n + d) div (2 * d)
      in if sign_of x then - t else t)"

definition round_to_int :: "dbl \<Rightarrow> int" where
  "round_to_int x = (if isfinite x \<and> - (2 ^ 31) \<le> round_away x \<and> round_away x < 2 ^ 31 then round_away x else - (2 ^ 31))"

text \<open>The element at a rank of the sorted values.\<close>

definition percent_rank :: "dbl \<Rightarrow> nat \<Rightarrow> int" where
  "percent_rank param n = round_to_int (fdiv (fmul param (dbl_of_int (int n - 1))) (dbl_of_int 100))"

definition percentile :: "dbl \<Rightarrow> dbl list \<Rightarrow> dbl option" where
  "percentile param vs = deref (qsort vdef_percent_compar vs) (percent_rank param (length vs))"

section \<open>Calculation\<close>

text \<open>The series of a source: the values of its column, one for each step. The loops run over the
  steps of the range; a range that ends before it starts is outside the model.\<close>

record series =
  sr_start :: int
  sr_end :: int
  sr_step :: ulong
  sr_ds_cnt :: nat
  sr_ds :: nat
  sr_data :: "dbl list"

definition series_values :: "series \<Rightarrow> dbl list option" where
  "series_values s =
     (if sr_step s = 0 \<or> sr_end s < sr_start s then None
      else
        (let steps = unat (word_of_int (sr_end s - sr_start s) div sr_step s) in
         if steps \<noteq> 0 \<and> sr_ds s + (steps - 1) * sr_ds_cnt s \<ge> length (sr_data s) then None
         else Some (map (\<lambda>k. sr_data s ! (sr_ds s + k * sr_ds_cnt s)) [0..<steps])))"

definition series_time :: "series \<Rightarrow> nat \<Rightarrow> int" where
  "series_time s k = sint (word_of_int (sr_start s) + of_nat k * sr_step s)"

text \<open>The first known value at or behind a step.\<close>

fun first_known :: "dbl list \<Rightarrow> nat \<Rightarrow> nat option" where
  "first_known [] k = None"
| "first_known (v # vs) k = (if isnan v then first_known vs (Suc k) else Some k)"

fun last_known :: "dbl list \<Rightarrow> nat \<Rightarrow> nat option \<Rightarrow> nat option" where
  "last_known [] k r = r"
| "last_known (v # vs) k r = last_known vs (Suc k) (if isnan v then r else Some k)"

text \<open>From the first known value on, a finite value that is better replaces the current one.\<close>

fun extreme_from :: "(dbl \<Rightarrow> dbl \<Rightarrow> bool) \<Rightarrow> dbl list \<Rightarrow> nat \<Rightarrow> dbl \<times> nat \<Rightarrow> dbl \<times> nat" where
  "extreme_from better [] k cur = cur"
| "extreme_from better (v # vs) k cur =
     extreme_from better vs (Suc k) (if isfinite v \<and> better v (fst cur) then (v, k) else cur)"

definition extreme :: "(dbl \<Rightarrow> dbl \<Rightarrow> bool) \<Rightarrow> series \<Rightarrow> dbl list \<Rightarrow> dbl \<times> int" where
  "extreme better s vs =
     (case first_known vs 0 of
        None \<Rightarrow> (DNAN, 0)
      | Some k \<Rightarrow> (case extreme_from better (drop k vs) k (vs ! k, k) of (v, j) \<Rightarrow> (v, series_time s (Suc j))))"

definition finite_sum :: "(dbl \<Rightarrow> dbl) \<Rightarrow> dbl list \<Rightarrow> dbl" where
  "finite_sum g vs = fold (\<lambda>v a. if isfinite v then fadd a (g v) else a) vs 0"

definition finite_count :: "dbl list \<Rightarrow> nat" where
  "finite_count vs = length (filter isfinite vs)"

text \<open>The sums of the least squares line: x, y, xy, xx, yy.\<close>

fun lsl_sums :: "dbl list \<Rightarrow> nat \<Rightarrow> dbl \<times> dbl \<times> dbl \<times> dbl \<times> dbl \<Rightarrow> dbl \<times> dbl \<times> dbl \<times> dbl \<times> dbl" where
  "lsl_sums [] k sums = sums"
| "lsl_sums (v # vs) k (sx, sy, sxy, sxx, syy) =
     lsl_sums vs (Suc k)
       (if isfinite v
        then (fadd sx (dbl_of_int (int k)), fadd sy v, fadd sxy (fmul (dbl_of_int (int k)) v),
              fadd sxx (dbl_of_int (int k * int k)), fadd syy (fmul v v))
        else (sx, sy, sxy, sxx, syy))"

definition lsl_value :: "libm \<Rightarrow> vdef_op_en \<Rightarrow> dbl list \<Rightarrow> dbl" where
  "lsl_value lm opr vs =
     (case lsl_sums vs 0 (0, 0, 0, 0, 0) of (sx, sy, sxy, sxx, syy) \<Rightarrow>
        let n = finite_count vs; cnt = dbl_of_int (int n);
            slope = fdiv (fsub (fmul sx sy) (fmul cnt sxy)) (fsub (fmul sx sx) (fmul cnt sxx));
            y_intercept = fdiv (fsub sy (fmul slope sx)) cnt;
            correl = fdiv (fsub sxy (fdiv (fmul sx sy) cnt))
              (lm_sqrt lm (fmul (fsub sxx (fdiv (fmul sx sx) cnt)) (fsub syy (fdiv (fmul sy sy) cnt))))
        in if n = 0 then DNAN
           else if opr = VDEF_LSLSLOPE then slope else if opr = VDEF_LSLINT then y_intercept else correl)"

text \<open>Sum, mean and standard deviation of the finite values; \<open>pow\<close> is the function of the C library.\<close>

definition mean_value :: "(dbl \<Rightarrow> dbl \<Rightarrow> dbl) \<Rightarrow> vdef_op_en \<Rightarrow> series \<Rightarrow> dbl list \<Rightarrow> dbl" where
  "mean_value pow opr s vs =
     (let n = finite_count vs; cnt = dbl_of_int (int n); total = finite_sum (\<lambda>v. v) vs in
      if n = 0 then DNAN
      else if opr = VDEF_TOTAL then fmul total (dbl_of_ulong (sr_step s))
      else if opr = VDEF_AVERAGE then fdiv total cnt
      else
        (let average = fdiv total cnt
         in pow (fdiv (finite_sum (\<lambda>v. pow (fsub v average) D2) vs) cnt) (dlit 1 2)))"

definition vdef_calc :: "libm \<Rightarrow> (dbl \<Rightarrow> dbl \<Rightarrow> dbl) \<Rightarrow> series \<Rightarrow> vdef_t \<Rightarrow> vdef_t option" where
  "vdef_calc lm pow s vf =
     (case series_values s of
        None \<Rightarrow> None
      | Some vs \<Rightarrow>
          (let res = (\<lambda>(v, t). vf\<lparr>vf_val := v, vf_when := t\<rparr>) in
           case vf_op vf of
             VDEF_PERCENT \<Rightarrow> map_option (\<lambda>v. res (v, 0)) (percentile (vf_param vf) vs)
           | VDEF_PERCENTNAN \<Rightarrow> map_option (\<lambda>v. res (v, 0)) (percentile (vf_param vf) (filter (\<lambda>v. \<not> isnan v) vs))
           | VDEF_MAXIMUM \<Rightarrow> Some (res (extreme fgt s vs))
           | VDEF_MINIMUM \<Rightarrow> Some (res (extreme flt s vs))
           | VDEF_FIRST \<Rightarrow>
               Some (res (case first_known vs 0 of None \<Rightarrow> (DNAN, 0) | Some k \<Rightarrow> (vs ! k, series_time s k)))
           | VDEF_LAST \<Rightarrow>
               Some (res (case last_known vs 0 None of None \<Rightarrow> (DNAN, 0) | Some k \<Rightarrow> (vs ! k, series_time s (Suc k))))
           | VDEF_LSLSLOPE \<Rightarrow> Some (res (lsl_value lm VDEF_LSLSLOPE vs, 0))
           | VDEF_LSLINT \<Rightarrow> Some (res (lsl_value lm VDEF_LSLINT vs, 0))
           | VDEF_LSLCORREL \<Rightarrow> Some (res (lsl_value lm VDEF_LSLCORREL vs, 0))
           | opr \<Rightarrow> Some (res (mean_value pow opr s vs, 0))))"

end
