(* ===== verification/Graph_Data.thy ===== *)
theory Graph_Data
  imports Vdef Fetch "HOL-Library.Signed_Division"
begin

text \<open>
  The data behind graphs and exports (\<open>data_fetch\<close>, \<open>data_calc\<close>, \<open>find_var\<close> and \<open>lcd\<close> of
  \<open>rrd_graph.c\<close>): the descriptions of a graph are filled with the rows of their files, reduced to the
  step that was asked for, and the computed series and values are evaluated on them. A data pointer of
  a program node is its array with a position in it. \<open>None\<close> is an access outside an array, a division by
  zero or a loop that does not end.
\<close>

section \<open>Descriptions\<close>

datatype gf_en = GF_PRINT | GF_GPRINT | GF_COMMENT | GF_HRULE | GF_VRULE | GF_LINE | GF_AREA | GF_STACK
  | GF_TICK | GF_TEXTALIGN | GF_DEF | GF_CDEF | GF_VDEF | GF_SHIFT | GF_XPORT

record graph_desc_t =
  gf :: gf_en
  vname :: string
  vidx :: int
  rrd :: string
  ds_name :: string
  gd_ds :: int
  gd_cf :: cf_en
  cf_reduce :: cf_en
  vf :: vdef_t
  gd_rpnp :: "rpnp_t list"
  shidx :: int
  shval :: int
  shift :: int
  gd_start :: int
  gd_end :: int
  start_orig :: int
  end_orig :: int
  gd_step :: ulong
  step_orig :: ulong
  gd_ds_cnt :: ulong
  data_first :: bool
  ds_namv :: "string list"
  gd_data :: "dbl list"

text \<open>The first description of a name, the last one, which is being built, excepted.\<close>

definition is_source :: "graph_desc_t \<Rightarrow> bool" where
  "is_source d \<longleftrightarrow> gf d = GF_DEF \<or> gf d = GF_VDEF \<or> gf d = GF_CDEF"

fun find_var_from :: "graph_desc_t list \<Rightarrow> string \<Rightarrow> int \<Rightarrow> int" where
  "find_var_from [] nm i = - 1"
| "find_var_from (d # ds) nm i = (if is_source d \<and> vname d = nm then i else find_var_from ds nm (i + 1))"

definition find_var :: "graph_desc_t list \<Rightarrow> string \<Rightarrow> int" where
  "find_var gdes nm = find_var_from (butlast gdes) nm 0"

section \<open>The common step\<close>

text \<open>Euclid's algorithm with the remainder of C, and its run over the numbers before the terminating 0.\<close>

lemma abs_smod_less: "b \<noteq> 0 \<Longrightarrow> \<bar>a smod b\<bar> < \<bar>b\<bar>" for a b :: int
  using smod_int_range [where a=a and b=b] by auto

function euclid :: "int \<Rightarrow> int \<Rightarrow> int" where
  "euclid a b = (if b = 0 then a else let rest = a smod b in if rest = 0 then b else euclid b rest)"
  by pat_completeness auto
termination
  by (relation "measure (\<lambda>(a, b). nat \<bar>b\<bar>)") (auto simp: abs_smod_less)

declare euclid.simps [simp del]

fun lcd :: "int list \<Rightarrow> int option" where
  "lcd [] = None"
| "lcd [a] = Some a"
| "lcd (a # b # num) = (if b = 0 then Some a else lcd (euclid a b # num))"

section \<open>Fetching\<close>

text \<open>The environment: the files, and the answers of the daemon when there is a connection.\<close>

record graph_env =
  files :: "string \<Rightarrow> sys_open"
  flush_status :: "(string \<Rightarrow> int) option"
  g_rpn :: rpn_env
  c_pow :: "dbl \<Rightarrow> dbl \<Rightarrow> dbl"

definition same_fetch :: "graph_desc_t \<Rightarrow> graph_desc_t \<Rightarrow> bool" where
  "same_fetch d e \<longleftrightarrow> gf e = GF_DEF \<and> rrd d = rrd e \<and> gd_cf d = gd_cf e \<and> cf_reduce d = cf_reduce e \<and>
     start_orig d = start_orig e \<and> end_orig d = end_orig e \<and> step_orig d = step_orig e"

definition copy_header :: "graph_desc_t \<Rightarrow> graph_desc_t \<Rightarrow> graph_desc_t" where
  "copy_header e d = d\<lparr>gd_start := gd_start e, gd_end := gd_end e, gd_step := gd_step e,
     gd_ds_cnt := gd_ds_cnt e, ds_namv := ds_namv e, gd_data := gd_data e, data_first := False\<rparr>"

text \<open>The file is flushed when no description before it, of any kind, names it.\<close>

definition flush_first :: "graph_env \<Rightarrow> graph_desc_t list \<Rightarrow> string \<Rightarrow> int" where
  "flush_first env before file_name =
     (case flush_status env of
        None \<Rightarrow> 0
      | Some fl \<Rightarrow> if file_name \<in> rrd ` set before then 0 else fl file_name)"

text \<open>The inner \<open>None\<close> is a return with - 1.\<close>

definition fetch_desc ::
  "graph_env \<Rightarrow> graph_desc_t list \<Rightarrow> graph_desc_t \<Rightarrow> 'a ctx_scheme \<Rightarrow> (graph_desc_t option \<times> 'a ctx_scheme) option" where
  "fetch_desc env before d c =
     (let status = flush_first env before (rrd d) in
      if status \<noteq> 0 then
        Some (None, rrd_set_error (''rrdc_flush ('' @ rrd d @ '') failed with status '' @ show_int status @ ''.'') c)
      else
        (case rrd_fetch_fn (rrd d) (gd_cf d) (gd_start d) (gd_end d) (gd_step d) (files env (rrd d)) c of
           None \<Rightarrow> None
         | Some (None, c1) \<Rightarrow> Some (None, c1)
         | Some (Some ft, c1) \<Rightarrow>
             (let d1 = d\<lparr>gd_start := ft_start ft, gd_end := ft_end ft, gd_ds_cnt := of_nat (length (ft_names ft)),
                         ds_namv := ft_names ft, gd_data := ft_data ft, data_first := True\<rparr> in
              if ft_step ft < gd_step d then
                (case reduce_data (cf_reduce d) (ft_step ft) (ft_start ft) (ft_end ft) (gd_step d)
                        (of_nat (length (ft_names ft))) (ft_data ft) of
                   None \<Rightarrow> None
                 | Some (s, e, st, xs) \<Rightarrow>
                     Some (Some (d1\<lparr>gd_start := s, gd_end := e, gd_step := st, gd_data := xs\<rparr>), c1))
              else Some (Some (d1\<lparr>gd_step := ft_step ft\<rparr>), c1))))"

text \<open>The last column of the name, if there is one.\<close>

fun last_index :: "string \<Rightarrow> string list \<Rightarrow> int \<Rightarrow> int \<Rightarrow> int" where
  "last_index nm [] i r = r"
| "last_index nm (n # ns) i r = last_index nm ns (i + 1) (if n = nm then i else r)"

definition choose_ds :: "graph_desc_t \<Rightarrow> 'a ctx_scheme \<Rightarrow> graph_desc_t option \<times> 'a ctx_scheme" where
  "choose_ds d c =
     (let i = last_index (ds_name d) (take (unat (gd_ds_cnt d)) (ds_namv d)) 0 (gd_ds d) in
      if i = - 1 then
        (None, rrd_set_error (''No DS called '' @ quoted (ds_name d) @ '' in '' @ quoted (rrd d)) c)
      else (Some (d\<lparr>gd_ds := i\<rparr>), c))"

fun data_fetch_from ::
  "graph_env \<Rightarrow> graph_desc_t list \<Rightarrow> graph_desc_t list \<Rightarrow> 'a ctx_scheme \<Rightarrow> (graph_desc_t list option \<times> 'a ctx_scheme) option" where
  "data_fetch_from env before [] c = Some (Some before, c)"
| "data_fetch_from env before (d # rest) c =
     (if gf d \<noteq> GF_DEF then data_fetch_from env (before @ [d]) rest c
      else
        (case (case List.find (same_fetch d) before of
                 Some e \<Rightarrow> Some (Some (copy_header e d), c)
               | None \<Rightarrow> fetch_desc env before d c) of
           None \<Rightarrow> None
         | Some (None, c1) \<Rightarrow> Some (None, c1)
         | Some (Some d1, c1) \<Rightarrow>
             (case choose_ds d1 c1 of
                (None, c2) \<Rightarrow> Some (None, c2)
              | (Some d2, c2) \<Rightarrow> data_fetch_from env (before @ [d2]) rest c2)))"

definition data_fetch ::
  "graph_env \<Rightarrow> graph_desc_t list \<Rightarrow> 'a ctx_scheme \<Rightarrow> (graph_desc_t list option \<times> 'a ctx_scheme) option" where
  "data_fetch env gdes c = data_fetch_from env [] gdes c"

section \<open>Calculating\<close>

text \<open>A shift moves the range of a series; the old shift is taken back first, the new one is cut to whole
  steps. It is a value of another description or a constant.\<close>

definition apply_shift :: "graph_desc_t list \<Rightarrow> graph_desc_t \<Rightarrow> graph_desc_t list option" where
  "apply_shift gdes d =
     (if vidx d < 0 \<or> vidx d \<ge> int (length gdes) \<or> shidx d \<ge> int (length gdes) then None
      else
        (let v = gdes ! nat (vidx d); st = sint (gd_step v);
             new = (if shidx d \<ge> 0 then dbl_to_long (vf_val (vf (gdes ! nat (shidx d)))) else shval d)
         in if st = 0 then None
            else
              (let sh = (new sdiv st) * st in
               Some (gdes[nat (vidx d) := v\<lparr>gd_start := gd_start v - shift v + sh, gd_end := gd_end v - shift v + sh,
                       shift := sh\<rparr>]))))"

text \<open>The nodes that read a series, and the first pass over them: a single value becomes a number, a
  series gives its array, and the range and the steps of the result are collected.\<close>

definition reads_series :: "rpnp_t \<Rightarrow> bool" where
  "reads_series n \<longleftrightarrow> op n = OP_VARIABLE \<or> op n = OP_PREV_OTHER"

definition has_source :: "graph_desc_t list \<Rightarrow> rpnp_t \<Rightarrow> bool" where
  "has_source gdes n \<longleftrightarrow> 0 \<le> ptr n \<and> ptr n < int (length gdes)"

definition source_of :: "graph_desc_t list \<Rightarrow> rpnp_t \<Rightarrow> graph_desc_t" where
  "source_of gdes n = gdes ! nat (ptr n)"

record cdef_range =
  cr_start :: int
  cr_end :: int
  cr_steps :: "int list"

definition bind_node :: "graph_desc_t list \<Rightarrow> rpnp_t \<Rightarrow> cdef_range \<Rightarrow> rpnp_t \<times> cdef_range" where
  "bind_node gdes n cr =
     (let g = source_of gdes n in
      if \<not> reads_series n then (n, cr)
      else if gd_ds_cnt g = 0 then (n\<lparr>val := vf_val (vf g), op := OP_NUMBER\<rparr>, cr)
      else
        (n\<lparr>data := gd_data g, data_pos := gd_ds g, step := sint (gd_step g), r_ds_cnt := sint (gd_ds_cnt g)\<rparr>,
         \<lparr>cr_start = (if cr_start cr < gd_start g then gd_start g else cr_start cr),
          cr_end = (if cr_end cr = 0 \<or> cr_end cr > gd_end g then gd_end g else cr_end cr),
          cr_steps = cr_steps cr @ [sint (gd_step g)]\<rparr>))"

fun bind_nodes :: "graph_desc_t list \<Rightarrow> rpnp_t list \<Rightarrow> cdef_range \<Rightarrow> (rpnp_t list \<times> cdef_range) option" where
  "bind_nodes gdes [] cr = None"
| "bind_nodes gdes (n # ns) cr =
     (if op n = OP_END then Some (n # ns, cr)
      else if reads_series n \<and> \<not> has_source gdes n then None
      else
        (case bind_node gdes n cr of (n1, cr1) \<Rightarrow>
           map_option (\<lambda>(ns1, cr2). (n1 # ns1, cr2)) (bind_nodes gdes ns cr1)))"

text \<open>The second pass: the pointers go to the rows of the start.\<close>

definition move_node :: "graph_desc_t list \<Rightarrow> int \<Rightarrow> rpnp_t \<Rightarrow> rpnp_t" where
  "move_node gdes start n =
     (let g = source_of gdes n; diff = start - gd_start g in
      if reads_series n \<and> diff > 0
      then n\<lparr>data_pos := data_pos n + sint (word_of_int diff div gd_step g * gd_ds_cnt g)\<rparr> else n)"

fun move_nodes :: "graph_desc_t list \<Rightarrow> int \<Rightarrow> rpnp_t list \<Rightarrow> rpnp_t list" where
  "move_nodes gdes start [] = []"
| "move_nodes gdes start (n # ns) = (if op n = OP_END then n # ns else move_node gdes start n # move_nodes gdes start ns)"

text \<open>The times of a series.\<close>

function cdef_rows ::
  "rpn_env \<Rightarrow> int \<Rightarrow> int \<Rightarrow> int \<Rightarrow> rpnp_t list \<Rightarrow> int \<Rightarrow> dbl list \<Rightarrow> int \<Rightarrow> 'a ctx_scheme
     \<Rightarrow> (int \<times> rpnp_t list \<times> int \<times> dbl list \<times> 'a ctx_scheme) option" where
  "cdef_rows env now stop st ns ssize out idx c =
     (if now > stop then Some (0, ns, ssize, out, c)
      else if st \<le> 0 then None
      else
        (case rpn_calc env ns ssize now out idx c of
           None \<Rightarrow> None
         | Some (rc, ns1, ssize1, out1, c1) \<Rightarrow>
             (if rc = - 1 then Some (- 1, ns1, ssize1, out1, c1)
              else cdef_rows env (now + st) stop st ns1 ssize1 out1 (idx + 1) c1)))"
  by pat_completeness auto
termination by (relation "measure (\<lambda>(env, now, stop, st, ns, ssize, out, idx, c). nat (stop - now + 1))") auto

declare cdef_rows.simps [simp del]

text \<open>A computed series. Its array is written before it is read, so its first contents do not matter; a
  range that ends before it starts asks for more memory than there is.\<close>

definition calc_cdef ::
  "rpn_env \<Rightarrow> graph_desc_t list \<Rightarrow> graph_desc_t \<Rightarrow> int \<Rightarrow> 'a ctx_scheme \<Rightarrow> (int \<times> graph_desc_t \<times> int \<times> 'a ctx_scheme) option" where
  "calc_cdef env gdes d0 ssize c =
     (let d = d0\<lparr>gd_ds_cnt := 1, gd_ds := 0, data_first := True, gd_start := 0, gd_end := 0\<rparr> in
      case bind_nodes gdes (gd_rpnp d) \<lparr>cr_start = 0, cr_end = 0, cr_steps = []\<rparr> of
        None \<Rightarrow> None
      | Some (ns1, cr) \<Rightarrow>
          (let ns2 = move_nodes gdes (cr_start cr) ns1;
               d1 = d\<lparr>gd_start := cr_start cr, gd_end := cr_end cr, gd_rpnp := ns2\<rparr> in
           if cr_steps cr = [] then
             Some (- 1, d1, ssize,
               rrd_set_error ''rpn expressions without DEF or CDEF variables are not supported'' c)
           else
             (case lcd (cr_steps cr) of
                None \<Rightarrow> None
              | Some st \<Rightarrow>
                  (if st \<le> 0 \<or> cr_end cr < cr_start cr then None
                   else
                     map_option
                       (\<lambda>(rc, ns3, ssize1, out, c1).
                          (rc, d1\<lparr>gd_step := word_of_int st, gd_rpnp := ns3, gd_data := out\<rparr>, ssize1, c1))
                       (cdef_rows env (cr_start cr + st) (cr_end cr) st ns2 ssize
                          (replicate (nat ((cr_end cr - cr_start cr) div st)) 0) 0 c)))))"

definition series_of :: "graph_desc_t \<Rightarrow> series" where
  "series_of g = \<lparr>sr_start = gd_start g, sr_end = gd_end g, sr_step = gd_step g, sr_ds_cnt = unat (gd_ds_cnt g),
     sr_ds = nat (gd_ds g), sr_data = gd_data g\<rparr>"

text \<open>One description after the other; each one may use those that were calculated.\<close>

definition calc_desc ::
  "graph_env \<Rightarrow> nat \<Rightarrow> graph_desc_t list \<times> int \<Rightarrow> 'a ctx_scheme \<Rightarrow> (bool \<times> (graph_desc_t list \<times> int) \<times> 'a ctx_scheme) option" where
  "calc_desc env gdi gs c =
     (case gs of (gdes, ssize) \<Rightarrow>
        let d = gdes ! gdi in
        case gf d of
          GF_SHIFT \<Rightarrow> map_option (\<lambda>gdes1. (True, (gdes1, ssize), c)) (apply_shift gdes d)
        | GF_VDEF \<Rightarrow>
            (if vidx d < 0 \<or> vidx d \<ge> int (length gdes) \<or> gd_ds (gdes ! nat (vidx d)) < 0 then None
             else
               map_option (\<lambda>v. (True, (gdes[gdi := d\<lparr>gd_ds_cnt := 0, vf := v\<rparr>], ssize), c))
                 (vdef_calc (env_libm (g_rpn env)) (c_pow env) (series_of (gdes ! nat (vidx d))) (vf d)))
        | GF_CDEF \<Rightarrow>
            map_option (\<lambda>(rc, d1, ssize1, c1). (rc \<noteq> - 1, (gdes[gdi := d1], ssize1), c1))
              (calc_cdef (g_rpn env) (gdes[gdi := d\<lparr>gd_ds_cnt := 1, gd_ds := 0, data_first := True, gd_start := 0, gd_end := 0\<rparr>])
                 d ssize c)
        | _ \<Rightarrow> Some (True, (gdes, ssize), c))"

fun data_calc_from ::
  "graph_env \<Rightarrow> nat list \<Rightarrow> graph_desc_t list \<times> int \<Rightarrow> 'a ctx_scheme \<Rightarrow> (int \<times> graph_desc_t list \<times> 'a ctx_scheme) option" where
  "data_calc_from env [] gs c = Some (0, fst gs, c)"
| "data_calc_from env (gdi # rest) gs c =
     (case calc_desc env gdi gs c of
        None \<Rightarrow> None
      | Some (True, gs1, c1) \<Rightarrow> data_calc_from env rest gs1 c1
      | Some (False, gs1, c1) \<Rightarrow> Some (- 1, fst gs1, c1))"

definition data_calc ::
  "graph_env \<Rightarrow> graph_desc_t list \<Rightarrow> 'a ctx_scheme \<Rightarrow> (int \<times> graph_desc_t list \<times> 'a ctx_scheme) option" where
  "data_calc env gdes c = data_calc_from env [0..<length gdes] (gdes, 0) c"

end
