(* ===== verification/Graph_Spec.thy ===== *)
theory Graph_Spec
  imports Graph_Data
begin

text \<open>
  The calculations behind graphs: the common step of series, and computed series, whose data pointers
  move from row to row, read at every time the row of each source that covers the time.
\<close>

section \<open>The common step\<close>



section \<open>One evaluation\<close>

text \<open>Something is done to every node before the end mark.\<close>

fun upto_end :: "(rpnp_t \<Rightarrow> rpnp_t) \<Rightarrow> rpnp_t list \<Rightarrow> rpnp_t list" where
  "upto_end f [] = []"
| "upto_end f (n # ns) = (if op n = OP_END then n # ns else f n # upto_end f ns)"




lemma length_upto_end [simp]: "length (upto_end f ns) = length ns"
  by (induction ns) auto







section \<open>All rows\<close>






section \<open>Binding\<close>










section \<open>Computed series\<close>





















end
