(* ===== verification/Double_Mono.thy ===== *)
theory Double_Mono
  imports Double_Int Complex_Main
begin

text \<open>
  Rounding is monotone: a fraction that is not larger does not round to a larger double. The value of
  \<open>n / d * 2 ^ e\<close> is taken as a real number here.
\<close>

section \<open>Values\<close>

definition frac_val :: "int \<Rightarrow> int \<Rightarrow> int \<Rightarrow> real" where
  "frac_val n d e = of_int n / of_int d * 2 powi e"

definition mag_val :: "int \<Rightarrow> real" where
  "mag_val b = frac_val (fst (sig_exp b)) 1 (snd (sig_exp b))"

lemma scale_powi: "real_of_int (scale_num k) / real_of_int (scale_num (- k)) = 2 powi k"
proof (cases "0 \<le> k")
  case True
  then show ?thesis by (cases "k = 0") (simp_all add: scale_num_def power_int_def)
next
  case False
  then show ?thesis by (simp add: scale_num_def power_int_def inverse_eq_divide power_one_over)
qed

lemma scale_pos: "0 < scale_num k"
  by (simp add: scale_num_def)

lemma powi_less: "a < b \<Longrightarrow> (2::real) powi a < 2 powi b"
  by (rule power_int_strict_increasing) simp_all

lemma powi_le: "a \<le> b \<Longrightarrow> (2::real) powi a \<le> 2 powi b"
  by (rule power_int_increasing) simp_all

lemma powi_less_cancel: "(2::real) powi a < 2 powi b \<Longrightarrow> a < b"
  by (rule ccontr) (use powi_le [of b a] in simp)

text \<open>Rounding half to even of a real number.\<close>

definition rhe :: "real \<Rightarrow> int" where
  "rhe x = (if x - of_int \<lfloor>x\<rfloor> > 1 / 2 \<or> (x - of_int \<lfloor>x\<rfloor> = 1 / 2 \<and> odd \<lfloor>x\<rfloor>) then \<lfloor>x\<rfloor> + 1 else \<lfloor>x\<rfloor>)"

lemma round_half_even_rhe:
  assumes "0 < d" shows "round_half_even n d = rhe (of_int n / of_int d)"
proof -
  have fl: "\<lfloor>real_of_int n / real_of_int d\<rfloor> = n div d" by (rule floor_divide_of_int_eq)
  have "real_of_int n = of_int (n div d * d + n mod d)" by simp
  then have "real_of_int n = of_int (n div d) * of_int d + of_int (n mod d)" by (simp only: of_int_add of_int_mult)
  then have r: "real_of_int n / of_int d - of_int (n div d) = of_int (n mod d) / of_int d"
    using assms by (simp add: field_simps)
  have g: "real_of_int (n mod d) / of_int d > 1 / 2 \<longleftrightarrow> real_of_int d < of_int (2 * (n mod d))"
    "real_of_int (n mod d) / of_int d = 1 / 2 \<longleftrightarrow> real_of_int (2 * (n mod d)) = of_int d"
    using assms by (auto simp: field_simps simp del: of_int_eq_iff of_int_less_iff)
  show ?thesis
    by (simp only: rhe_def fl r g of_int_less_iff of_int_eq_iff round_half_even_def Let_def)
qed

lemma rhe_mono: assumes "x \<le> y" shows "rhe x \<le> rhe y"
proof -
  have f: "\<lfloor>x\<rfloor> \<le> \<lfloor>y\<rfloor>" using assms by (rule floor_mono)
  show ?thesis
  proof (cases "\<lfloor>x\<rfloor> = \<lfloor>y\<rfloor>")
    case True
    then show ?thesis using assms by (auto simp: rhe_def)
  next
    case False
    then show ?thesis using f by (auto simp: rhe_def)
  qed
qed

lemma rhe_int [simp]: "rhe (of_int k) = k"
  by (simp add: rhe_def)

lemma rhe_le: "x \<le> of_int k \<Longrightarrow> rhe x \<le> k" and rhe_ge: "of_int k \<le> x \<Longrightarrow> k \<le> rhe x"
  using rhe_mono [of x "of_int k"] rhe_mono [of "of_int k" x] by simp_all

section \<open>The rounded magnitude\<close>

text \<open>The exponent of the last place for a value between two powers of two, and the bits.\<close>

definition place :: "int \<Rightarrow> int" where
  "place l = max (- 1074) (l - 52)"

definition code_at :: "int \<Rightarrow> real \<Rightarrow> int" where
  "code_at l v = (place l + 1074) * 2 ^ 52 + rhe (v / 2 powi (place l))"

lemma code_at_mono:
  assumes v: "2 powi a \<le> v" "v < 2 powi (a + 1)" and w: "2 powi b \<le> w" "w < 2 powi (b + 1)" and "v \<le> w"
  shows "code_at a v \<le> code_at b w"
proof -
  have "(2::real) powi a < 2 powi (b + 1)" using v w \<open>v \<le> w\<close> by linarith
  then have "a < b + 1" by (rule powi_less_cancel)
  then have ab: "a \<le> b" by simp
  then have "place a \<le> place b" by (simp add: place_def)
  show ?thesis
  proof (cases "place a = place b")
    case True
    have "v / 2 powi place b \<le> w / 2 powi place b" using \<open>v \<le> w\<close> by (simp add: divide_right_mono)
    then show ?thesis using rhe_mono True by (simp add: code_at_def)
  next
    case False
    then have p: "place a + 1 \<le> place b" "place b = b - 52" "a - 52 \<le> place a" using \<open>place a \<le> place b\<close>
      by (auto simp: place_def)
    have "v / 2 powi place a \<le> 2 powi (a + 1) / 2 powi place a" using v(2) by (simp add: divide_right_mono)
    also have "\<dots> = 2 powi (a + 1 - place a)" by (simp add: power_int_diff)
    also have "\<dots> \<le> 2 powi 53" using p(3) by (intro powi_le) simp
    finally have "rhe (v / 2 powi place a) \<le> 2 ^ 53" by (intro rhe_le) simp
    moreover have "(2::real) ^ 52 \<le> w / 2 powi place b"
    proof -
      have "(2::real) powi b = 2 powi (place b + 52)" using p(2) by simp
      also have "\<dots> = 2 powi place b * 2 ^ 52" by (simp add: power_int_add)
      finally show ?thesis using w(1) by (simp add: field_simps)
    qed
    then have "2 ^ 52 \<le> rhe (w / 2 powi place b)" by (intro rhe_ge) simp
    moreover have "(place a + 1 + 1074) * 2 ^ 52 \<le> (place b + 1074) * 2 ^ 52" using p(1) by (intro mult_right_mono) auto
    ultimately show ?thesis by (simp add: code_at_def distrib_right)
  qed
qed

text \<open>The code of the model computes it.\<close>

lemma bit_len_powi:
  assumes "0 < n" shows "2 powi (bit_len n - 1) \<le> real_of_int n" "real_of_int n < 2 powi (bit_len n)"
proof -
  have l: "0 < bit_len n" using assms by (rule bit_len_pos)
  have b: "2 ^ (nat (bit_len n) - 1) \<le> n" "n < 2 ^ nat (bit_len n)" using bit_len_bounds [OF assms] by auto
  have "2 powi (bit_len n - 1) = (2::real) ^ (nat (bit_len n) - 1)" "2 powi (bit_len n) = (2::real) ^ nat (bit_len n)"
    using l by (simp_all add: power_int_def nat_diff_distrib)
  moreover have "real_of_int (2 ^ (nat (bit_len n) - 1)) \<le> of_int n" "real_of_int n < of_int (2 ^ nat (bit_len n))"
    using b by (simp_all only: of_int_le_iff of_int_less_iff)
  ultimately show "2 powi (bit_len n - 1) \<le> real_of_int n" "real_of_int n < 2 powi (bit_len n)" by simp_all
qed

lemma first_length:
  assumes n: "0 < n" "0 < d"
  defines "l \<equiv> bit_len n - bit_len d"
  defines "fl \<equiv> (if d * scale_num l \<le> n * scale_num (- l) then l else l - 1)"
  shows "2 powi fl \<le> real_of_int n / of_int d" "real_of_int n / of_int d < 2 powi (fl + 1)"
proof -
  note bn = bit_len_powi [OF n(1)] and bd = bit_len_powi [OF n(2)]
  have "2 powi l \<le> real_of_int n / of_int d \<longleftrightarrow> real_of_int (scale_num l) / of_int (scale_num (- l)) \<le> of_int n / of_int d"
    by (simp only: scale_powi)
  also have "\<dots> \<longleftrightarrow> real_of_int (d * scale_num l) \<le> of_int (n * scale_num (- l))"
    using n scale_pos [of l] scale_pos [of "- l"] by (simp add: field_simps)
  finally have c: "2 powi l \<le> real_of_int n / of_int d \<longleftrightarrow> d * scale_num l \<le> n * scale_num (- l)" by (simp only: of_int_le_iff)
  have "real_of_int n / of_int d < 2 powi bit_len n / 2 powi (bit_len d - 1)"
    using bn bd n by (intro frac_less) auto
  also have "\<dots> = 2 powi (l + 1)" by (simp add: l_def algebra_simps flip: power_int_diff)
  finally have u: "real_of_int n / of_int d < 2 powi (l + 1)" .
  have "2 powi (l - 1) = 2 powi (bit_len n - 1) / (2::real) powi bit_len d" by (simp add: l_def algebra_simps flip: power_int_diff)
  also have "\<dots> \<le> real_of_int n / of_int d" using bn bd n by (intro frac_le) auto
  finally have low: "2 powi (l - 1) \<le> real_of_int n / of_int d" .
  show "2 powi fl \<le> real_of_int n / of_int d" "real_of_int n / of_int d < 2 powi (fl + 1)"
    using c u low by (auto simp: fl_def)
qed

lemma round_mag_code:
  assumes n: "0 < n" "0 < d"
  shows "\<exists>l. 2 powi l \<le> frac_val n d e \<and> frac_val n d e < 2 powi (l + 1) \<and>
    round_mag n d e = min inf_mag (code_at l (frac_val n d e))"
proof -
  define l0 where "l0 = bit_len n - bit_len d"
  define fl where "fl = (if d * scale_num l0 \<le> n * scale_num (- l0) then l0 else l0 - 1)"
  define q where "q = place (fl + e)"
  have x: "2 powi fl \<le> real_of_int n / of_int d" "real_of_int n / of_int d < 2 powi (fl + 1)"
    using first_length [OF n] by (simp_all only: fl_def l0_def)
  have v: "2 powi (fl + e) \<le> frac_val n d e" "frac_val n d e < 2 powi (fl + e + 1)"
    using mult_right_mono [OF x(1), of "2 powi e"] mult_strict_right_mono [OF x(2), of "2 powi e"]
    by (simp_all add: frac_val_def add.commute add.left_commute flip: power_int_add)
  have "round_to 53 (- 1074) n d e = (round_half_even (n * scale_num (e - q)) (d * scale_num (q - e)), q)"
    by (simp add: round_to_def Let_def q_def place_def fl_def l0_def)
  moreover have "round_half_even (n * scale_num (e - q)) (d * scale_num (q - e)) = rhe (frac_val n d e / 2 powi q)"
  proof -
    have "real_of_int (n * scale_num (e - q)) / of_int (d * scale_num (q - e)) =
        of_int n / of_int d * (of_int (scale_num (e - q)) / of_int (scale_num (- (e - q))))" by simp
    also have "\<dots> = frac_val n d e / 2 powi q" by (simp only: scale_powi) (simp add: frac_val_def power_int_diff)
    finally show ?thesis using n scale_pos [of "q - e"] by (simp add: round_half_even_rhe)
  qed
  ultimately have "round_mag n d e = min inf_mag (code_at (fl + e) (frac_val n d e))"
    using n by (simp add: round_mag_def code_at_def q_def)
  with v show ?thesis by blast
qed

lemma round_mag_mono:
  assumes "0 < n" "0 < d" "0 < n'" "0 < d'" "frac_val n d e \<le> frac_val n' d' e'"
  shows "round_mag n d e \<le> round_mag n' d' e'"
proof -
  obtain l where l: "2 powi l \<le> frac_val n d e" "frac_val n d e < 2 powi (l + 1)"
    "round_mag n d e = min inf_mag (code_at l (frac_val n d e))" using round_mag_code assms(1,2) by blast
  obtain l' where l': "2 powi l' \<le> frac_val n' d' e'" "frac_val n' d' e' < 2 powi (l' + 1)"
    "round_mag n' d' e' = min inf_mag (code_at l' (frac_val n' d' e'))" using round_mag_code assms(3,4) by blast
  from code_at_mono [OF l(1,2) l'(1,2) assms(5)] show ?thesis by (simp add: l(3) l'(3))
qed

lemma round_mag_nonneg: "0 < d \<Longrightarrow> 0 \<le> round_mag n d e"
proof (cases "0 < n")
  case True
  assume d: "0 < d"
  obtain l where l: "round_mag n d e = min inf_mag (code_at l (frac_val n d e))" using round_mag_code True d by blast
  have "0 \<le> frac_val n d e / 2 powi place l" using True d by (simp add: frac_val_def)
  then have "0 \<le> rhe (frac_val n d e / 2 powi place l)" by (intro rhe_ge) simp
  moreover have "0 \<le> (place l + 1074) * 2 ^ 52" by (intro mult_nonneg_nonneg) (simp_all add: place_def)
  ultimately have "0 \<le> code_at l (frac_val n d e)" by (simp add: code_at_def)
  then show ?thesis by (simp add: l inf_mag_def)
qed (simp add: round_mag_def)

section \<open>Magnitudes\<close>

lemma sig_pos: "0 < b \<Longrightarrow> 0 < fst (sig_exp b)"
  by (auto simp: sig_exp_def add_pos_nonneg)

lemma mag_val_round: "0 < b \<Longrightarrow> b < inf_mag \<Longrightarrow> round_mag (fst (sig_exp b)) 1 (snd (sig_exp b)) = b"
  by (rule round_mag_sig) simp_all

text \<open>A fraction that a double bounds still has that bound when it is rounded.\<close>

lemma round_mag_bound:
  assumes "0 < n" "0 < d" "0 < b" "b < inf_mag" "frac_val n d e \<le> mag_val b"
  shows "round_mag n d e \<le> b"
  using round_mag_mono [of n d "fst (sig_exp b)" 1 e "snd (sig_exp b)"] assms
  by (simp add: sig_pos mag_val_round mag_val_def)

lemma mag_val_mono:
  assumes "0 < b" "b \<le> b'" "b' < inf_mag" shows "mag_val b \<le> mag_val b'"
proof (rule ccontr)
  assume *: "\<not> mag_val b \<le> mag_val b'"
  then have "b' \<le> b"
    using round_mag_bound [of "fst (sig_exp b')" 1 b "snd (sig_exp b')"] assms
    by (simp add: sig_pos mag_val_round flip: mag_val_def)
  with assms have "b = b'" by simp
  with * show False by simp
qed

lemma mag_val_int:
  assumes "small_int i" "0 \<le> i" shows "mag_val (mag (dbl_of_int i)) = of_int i"
proof -
  have x: "fst (sig_exp (mag (dbl_of_int i))) = i * 2 ^ nat (- exp_of (dbl_of_int i))" "exp_of (dbl_of_int i) \<le> 0"
    using dbl_of_int_parts [OF assms(1)] assms(2) by simp_all
  then show ?thesis
    by (simp add: mag_val_def frac_val_def flip: exp_of_def) (simp add: power_int_def power_inverse field_simps)
qed

end
