(* ===== verification/Vdef_Spec.thy ===== *)
theory Vdef_Spec
  imports Vdef Double_Mono
begin

text \<open>
  The single values of a series: the percentiles are the elements of their rank in the order of the
  comparison as long as no value is infinite, the rank never leaves the values, and the extremes are the
  largest and smallest finite values with the end of their first step.
\<close>

section \<open>The rank\<close>














section \<open>The order\<close>











text \<open>C38. Infinite values have no place in the order: whichever comes later in a pair with a finite value
  comes first after the sort, so that the greatest of the two is not always the percentile of 100.\<close>

theorem infinity_depends_on_order:
  assumes "isfinite x"
  shows "qsort vdef_percent_compar [x, DINF] = [DINF, x] \<and> qsort vdef_percent_compar [DINF, x] = [x, DINF] \<and>
    percentile (dbl_of_int 100) [x, DINF] = Some x \<and> percentile (dbl_of_int 100) [DINF, x] = Some DINF"
proof -
  have x: "\<not> isnan x" "\<not> isinf x" using assms by (simp_all add: isfinite_def isnan_def isinf_def)
  have i: "\<not> isnan DINF" "isinf_sign DINF = 1" by code_simp+
  have q: "qsort vdef_percent_compar [x, DINF] = [DINF, x]" "qsort vdef_percent_compar [DINF, x] = [x, DINF]"
    using x i by (simp_all add: qsort.simps vdef_percent_compar_def isinf_sign_def split: if_splits)
  moreover have "percent_rank (dbl_of_int 100) (Suc (Suc 0)) = 1" by code_simp
  ultimately show ?thesis by (simp add: percentile_def deref_def)
qed

theorem infinity_depends_on_order_witness:
  "percentile (dbl_of_int 100) [dbl_of_int 7, DINF] = Some (dbl_of_int 7)"
proof -
  have "isfinite (dbl_of_int 7)" by code_simp
  then show ?thesis using infinity_depends_on_order by blast
qed

section \<open>Extremes\<close>








end
