(* ===== verification/Spec2Isabelle.thy ===== *)
theory Spec2Isabelle
  imports Archive_Fetch Update_Inv Create_Spec Counter Rpn_Store Consolidation Resize_Spec
    Daemon_Wire_Spec Daemon_Spec Daemon_Recovery Reduce_Spec Tune_Spec Graph_Spec Vdef_Spec
begin

text \<open>
  RRDtool 1.4.5, the round robin database under \<open>src/rrdtool-1.4.5/src\<close>, as it is built on
  Linux for x86-64: files are mapped into memory (\<open>HAVE_MMAP\<close>), \<open>long\<close> and \<open>time_t\<close> have 64
  bits, \<open>int\<close> has 32.

  \<^bold>\<open>The program.\<close> A database file holds definitions of data sources and of archives, scratch areas
  for the step and for the row that are being filled, and a ring of rows per archive. Creating
  writes the definitions and unknown rows; updating reads a time and readings, turns the readings
  into rates of primary data points, consolidates these into the rows of the archives, and writes
  the rows that are due; fetching finds the archive that answers a request and reads its rows by
  their time; resizing changes the number of rows of an archive, tuning its definitions. A caching
  daemon collects updates in memory and writes them to the files later; its journal brings them back
  after a crash. Graphs and exports fetch the rows of their sources, reduce them to the step that
  was asked for, and compute series and single values from them.

  \<^bold>\<open>Conventions.\<close> Machine integers are words (\<open>ulong\<close>) where the code computes with unsigned
  numbers, and integers wrapped at their width otherwise; doubles are the 64 bits of
  their format, with the operations of \<^theory_text>\<open>Double\<close>, which compute exactly and round to nearest. A scratch cell (\<open>unival\<close>) is one 64 bit word with
  its readings as a counter and as a double. Errors are the error text of the library context with
  the result code the code returns. \<open>None\<close> is undefined behaviour: a crash, a loop that never
  ends, or an access outside a buffer; what lies outside the model and is \<open>None\<close> too is said where
  it is defined. The system (clock, time zone, creation of files, locks, random numbers) is an
  argument of the definitions. A change of the mapped header is a change of the file.

  \<^bold>\<open>The theories and the code they model.\<close>
  \<^item> \<^theory_text>\<open>Prelude\<close>: the error text (\<open>rrd_error.c\<close>), the context with the locale and the clock,
    C strings and numbers; \<^theory_text>\<open>Double\<close>, \<^theory_text>\<open>Double_Order\<close>, \<^theory_text>\<open>Double_Int\<close>, \<^theory_text>\<open>Double_Mono\<close>: double
    arithmetic, its order, whole numbers in it, and that rounding keeps the order; \<^theory_text>\<open>CNumber\<close>: \<open>atoi\<close>, \<open>strtol\<close>, \<open>strtod\<close>; \<^theory_text>\<open>C_Time\<close>: calendar
    arithmetic of \<open>mktime\<close> and \<open>localtime\<close>.
  \<^item> \<^theory_text>\<open>Rrd_Format\<close>: the structures and conversions of \<open>rrd_format.h\<close> and \<open>rrd_format.c\<close>;
    \<^theory_text>\<open>Rrd_File\<close>: opening, seek, read and write of \<open>rrd_open.c\<close>, and the interface \<open>row_store\<close> of
    a store of rows.
  \<^item> \<^theory_text>\<open>Rpn_Program\<close>, \<^theory_text>\<open>Rpn_Parse\<close>, \<^theory_text>\<open>Rpn_Calc\<close>, \<^theory_text>\<open>Rpn_Store\<close>: programs in postfix notation
    (\<open>rrd_rpncalc.c\<close>), their parser, the stack machine, and their storage in a data source.
  \<^item> \<^theory_text>\<open>Parsetime\<close>: AT-style times (\<open>rrd_parsetime.c\<close>); \<^theory_text>\<open>Rrd_Diff\<close>, \<^theory_text>\<open>Counter\<close>: differences of
    readings (\<open>rrd_diff.c\<close>) and of counters that wrap.
  \<^item> \<^theory_text>\<open>Hw_Math\<close>, \<^theory_text>\<open>Hw_Update\<close>, \<^theory_text>\<open>Hw\<close>: Holt-Winters prediction and the detection of aberrant
    behaviour (\<open>rrd_hw_math.c\<close>, \<open>rrd_hw_update.c\<close>, \<open>rrd_hw.c\<close>).
  \<^item> \<^theory_text>\<open>Update_Parse\<close>, \<^theory_text>\<open>Update_Pdp\<close>, \<^theory_text>\<open>Update_Cdp\<close>, \<^theory_text>\<open>Update\<close>: \<open>rrd_update.c\<close> in the order of an
    update: arguments, primary data points, consolidation, rows.
  \<^item> \<^theory_text>\<open>Fetch\<close>: \<open>rrd_fetch.c\<close>, \<open>rrd_first.c\<close>, \<open>rrd_last.c\<close>, \<open>rrd_lastupdate.c\<close>; \<^theory_text>\<open>Create\<close>:
    \<open>rrd_create.c\<close>, \<open>hash_32.c\<close> and the creating part of \<open>rrd_open.c\<close>; \<^theory_text>\<open>Resize\<close>: \<open>rrd_resize.c\<close>;
    \<^theory_text>\<open>Tune\<close>: \<open>rrd_tune.c\<close>.
  \<^item> \<^theory_text>\<open>Reduce\<close>, \<^theory_text>\<open>Graph_Data\<close>, \<^theory_text>\<open>Vdef\<close>: the data behind graphs in \<open>rrd_graph.c\<close>: \<open>reduce_data\<close>,
    \<open>data_fetch\<close> and \<open>data_calc\<close> with \<open>lcd\<close> and \<open>find_var\<close>, \<open>vdef_parse\<close> and \<open>vdef_calc\<close>. A pointer
    into the rows of a source is its list of values with a position.
  \<^item> \<^theory_text>\<open>Rrd_Client\<close>: the client library of the daemon (\<open>rrd_client.c\<close>): requests and answers.
  \<^item> \<^theory_text>\<open>Daemon_Wire\<close>, \<^theory_text>\<open>Daemon_Queue\<close>, \<^theory_text>\<open>Daemon\<close>, \<^theory_text>\<open>Daemon_Commands\<close>, \<^theory_text>\<open>Daemon_System\<close>: the daemon
    (\<open>rrd_daemon.c\<close>): the lines of a connection, the cache and the doubly linked queue of the files
    that are due, the journal and the handlers of the commands, their table and permissions, and
    the steps of its threads, each one between the taking and the release of the lock, as a step
    relation.

  \<^bold>\<open>What is shown.\<close>
  \<^item> \<^theory_text>\<open>Archive\<close>, \<^theory_text>\<open>Archive_Fetch\<close>, \<^theory_text>\<open>Resize_Spec\<close>: the abstract view of an archive is its history,
    a list of rows, newest first. Writing puts rows in front and drops the oldest, fetching looks
    rows up by their time, resizing adds or drops oldest rows; the archive a fetch uses is the
    best one.
  \<^item> \<^theory_text>\<open>Update_Frame\<close>, \<^theory_text>\<open>Update_Inv\<close>: what an update may change, the invariant of the database, and
    what its arguments mean.
  \<^item> \<^theory_text>\<open>Consolidation\<close>: the row that is written is the consolidation function of the primary data
    points of its interval, however they arrived.
  \<^item> \<^theory_text>\<open>Create_Inv\<close>, \<^theory_text>\<open>Create_File\<close>, \<^theory_text>\<open>Create_Spec\<close>: created definitions are valid, created files
    open, and so do all files that creations and updates lead to.
  \<^item> \<^theory_text>\<open>Rpn_Calc\<close>, \<^theory_text>\<open>Rpn_Store\<close>, \<^theory_text>\<open>Counter\<close>: the stack machine computes the value of an expression
    and stays in its stack, stored programs read back, and counters give the true increase.

  \<^item> \<^theory_text>\<open>Tune_Spec\<close>: tuning keeps the file a database, and two options that do not.
  \<^item> \<^theory_text>\<open>Daemon_Inv\<close>, \<^theory_text>\<open>Daemon_Spec\<close>: in every reachable state of the daemon the queue is a list of
    different files with pending values, files are written in the order of the queue, a flushed
    file is the next one, and a shutdown writes everything.
  \<^item> \<^theory_text>\<open>Daemon_Wire_Spec\<close>: a request of the client arrives at the daemon as it was sent, however the
    bytes are cut into chunks; \<^theory_text>\<open>Daemon_Replay\<close>, \<^theory_text>\<open>Daemon_Recovery\<close>: what the files and a replayed
    journal hold after a crash.
  \<^item> \<^theory_text>\<open>Reduce_Spec\<close>, \<^theory_text>\<open>Graph_Spec\<close>, \<^theory_text>\<open>Vdef_Spec\<close>: reducing in place combines the source rows of every
    interval, computed series read the row of every source that covers the time, and percentiles
    and extremes are elements of the series.

  \<^bold>\<open>Interfaces.\<close> The locale \<open>row_store\<close> is what the archives need of a file. \<open>sorter\<close> and \<open>comparator\<close>
  are what \<open>qsort\<close> needs of its comparison: \<open>rpn_compare_double\<close> and \<open>vdef_percent_compar\<close> provide
  it on the values where they are orders. \<open>strict_better\<close> is what the two extremes share.

  \<^bold>\<open>Bounds and fuel.\<close> Loops are structural recursions or have a measure; none needs fuel. The
  properties about times hold for times below 2 to the 60, those about files for sizes below 2 to
  the 60 bytes (creation: less than 2 to the 31 values, the range of the \<open>int\<close> that counts them).

  \<^bold>\<open>Not modelled.\<close> The option parsing of the commands other than \<open>create\<close> and \<open>tune\<close>, and the
  daemon connection around \<open>update\<close> and \<open>fetch\<close>; the sockets, options and process management of the
  daemon; the drawing of graphs, the output of exports and the CGI pages, which go through external
  libraries; the printing of \<open>info\<close> and \<open>dump\<close> and the reading of XML; the copies of system functions
  for other platforms; hints to the page cache, and memory that cannot be allocated.
\<close>

end
